(* ===== verification/Prelude.thy ===== *)
theory Prelude
  imports Main "HOL-Library.State_Monad"
begin

text \<open>
  The vocabulary every component shares: Go error values and the operations of the package
  \<open>errors\<close> the code uses (\<open>Is\<close>, \<open>As\<close>, \<open>Join\<close>), results of fallible calls as sums, the early
  return of Go as a combinator of the state monad, and a small program logic for that monad
  (triples \<open>holds P m Q\<close> and invariants \<open>keeps I m\<close>) whose rules are collected in
  \<open>prog_rules\<close> and \<open>keeps_rules\<close>.
\<close>

named_theorems prog_rules \<open>structural rules of the program logic\<close>
named_theorems keeps_rules \<open>invariant preservation, one rule per program construct or operation\<close>
named_theorems store_defs \<open>definitions of the transactions of the job store\<close>

section \<open>Go errors\<close>

text \<open>Sentinel errors of the pinned decryption library; their texts belong to that library.\<close>

datatype sentinel = DeviceLocked | VerificationFailed | CleanupUnconfirmed

text \<open>
  The errors the program distinguishes. \<open>ErrFailure\<close> is the type \<open>engine.Failure\<close> with its code,
  its two flags and its cause; \<open>ErrWrap\<close> is a wrapping error with its full text; \<open>ErrJoin\<close> is
  the result of \<open>errors.Join\<close> on two non-nil errors.
\<close>

datatype go_error =
    ErrConflict
  | ErrQueueFull
  | ErrRecordNotFound
  | ErrDatabase
  | ErrNotExist
  | ErrIO
  | ErrCanceled
  | ErrDeadlineExceeded
  | ErrServerClosed
  | ErrText string
  | ErrLib sentinel string
  | ErrNet string
  | ErrFailure string bool bool "go_error option"
  | ErrWrap string go_error
  | ErrJoin go_error go_error

text \<open>A search through the tree of wrapped and joined errors, in the order of \<open>errors.Is\<close>.\<close>

fun err_any :: "(go_error \<Rightarrow> bool) \<Rightarrow> go_error \<Rightarrow> bool" where
  "err_any P (ErrWrap t e) = (P (ErrWrap t e) \<or> err_any P e)"
| "err_any P (ErrJoin a b) = (P (ErrJoin a b) \<or> err_any P a \<or> err_any P b)"
| "err_any P (ErrFailure c r n (Some e)) = (P (ErrFailure c r n (Some e)) \<or> err_any P e)"
| "err_any P e = P e"

definition errors_is :: "go_error \<Rightarrow> go_error \<Rightarrow> bool" where
  "errors_is e target = err_any (\<lambda>x. x = target) e"

fun is_lib :: "sentinel \<Rightarrow> go_error \<Rightarrow> bool" where
  "is_lib s (ErrLib t _) = (s = t)"
| "is_lib s _ = False"

definition errors_is_lib :: "go_error \<Rightarrow> sentinel \<Rightarrow> bool" where
  "errors_is_lib e s = err_any (is_lib s) e"

text \<open>
  The errors with the methods of the interface \<open>net.Error\<close>: besides those of the package \<open>net\<close>, an
  exceeded deadline, and the error number that every failed system call wraps (\<open>syscall.Errno\<close>).
\<close>

fun is_net :: "go_error \<Rightarrow> bool" where
  "is_net (ErrNet _) = True"
| "is_net ErrDeadlineExceeded = True"
| "is_net ErrIO = True"
| "is_net ErrNotExist = True"
| "is_net _ = False"

definition errors_as_net :: "go_error \<Rightarrow> bool" where
  "errors_as_net e = err_any is_net e"

text \<open>\<open>errors.As(err, &failure)\<close>: the first \<open>engine.Failure\<close> in the tree.\<close>

fun as_failure :: "go_error \<Rightarrow> (string \<times> bool \<times> bool) option" where
  "as_failure (ErrFailure c r n _) = Some (c, r, n)"
| "as_failure (ErrWrap _ e) = as_failure e"
| "as_failure (ErrJoin a b) = (case as_failure a of None \<Rightarrow> as_failure b | Some f \<Rightarrow> Some f)"
| "as_failure _ = None"

text \<open>An \<open>error\<close> result: \<open>None\<close> is \<open>nil\<close>.\<close>

type_synonym error = "go_error option"

fun errors_join :: "error \<Rightarrow> error \<Rightarrow> error" where
  "errors_join None b = b"
| "errors_join a None = a"
| "errors_join (Some a) (Some b) = Some (ErrJoin a b)"

fun error_of :: "go_error + 'a \<Rightarrow> error" where
  "error_of (Inl e) = Some e"
| "error_of (Inr _) = None"

lemma errors_join_None [simp]: "errors_join a b = None \<longleftrightarrow> a = None \<and> b = None"
  by (cases a; cases b) auto

lemma error_of_None [simp]: "error_of r = None \<longleftrightarrow> (\<exists>a. r = Inr a)"
  by (cases r) auto

section \<open>Programs with early returns\<close>

abbreviation ret :: "'a \<Rightarrow> ('s, 'a) state" where
  "ret \<equiv> State_Monad.return"

text \<open>
  \<open>check m k\<close> is Go's \<open>v, err := m(); if err != nil { return err }; k(v)\<close>.
\<close>

definition check :: "('s, 'e + 'a) state \<Rightarrow> ('a \<Rightarrow> ('s, 'e + 'b) state) \<Rightarrow> ('s, 'e + 'b) state" where
  "check m k = do {
     r \<leftarrow> m;
     case r of Inl e \<Rightarrow> ret (Inl e) | Inr a \<Rightarrow> k a }"

text \<open>\<open>for _, x := range xs { if err := f(x); err != nil { return err } }\<close>\<close>

fun for_each :: "('x \<Rightarrow> ('s, 'e + unit) state) \<Rightarrow> 'x list \<Rightarrow> ('s, 'e + unit) state" where
  "for_each f [] = ret (Inr ())"
| "for_each f (x # xs) = check (f x) (\<lambda>_. for_each f xs)"

lemma run_check:
  "run_state (check m k) s =
     (case run_state m s of (r, s') \<Rightarrow>
        (case r of Inl e \<Rightarrow> (Inl e, s') | Inr a \<Rightarrow> run_state (k a) s'))"
  by (auto simp: check_def split: prod.split sum.split)

lemma check_ret [simp]: "check (ret (Inr a)) k = k a" "check (ret (Inl e)) k = ret (Inl e)"
  by (simp_all add: check_def)

section \<open>Triples and invariants\<close>

definition holds :: "('s \<Rightarrow> bool) \<Rightarrow> ('s, 'a) state \<Rightarrow> ('a \<Rightarrow> 's \<Rightarrow> bool) \<Rightarrow> bool" where
  "holds P m Q \<longleftrightarrow> (\<forall>s. P s \<longrightarrow> (case run_state m s of (a, s') \<Rightarrow> Q a s'))"

definition keeps :: "('s \<Rightarrow> bool) \<Rightarrow> ('s, 'a) state \<Rightarrow> bool" where
  "keeps I m \<longleftrightarrow> holds I m (\<lambda>_. I)"

lemma holdsI: "(\<And>s a s'. P s \<Longrightarrow> run_state m s = (a, s') \<Longrightarrow> Q a s') \<Longrightarrow> holds P m Q"
  by (auto simp: holds_def split: prod.split)

lemma holdsD: "holds P m Q \<Longrightarrow> P s \<Longrightarrow> run_state m s = (a, s') \<Longrightarrow> Q a s'"
  by (auto simp: holds_def split: prod.splits)

lemma keepsI: "(\<And>s a s'. I s \<Longrightarrow> run_state m s = (a, s') \<Longrightarrow> I s') \<Longrightarrow> keeps I m"
  by (auto simp: keeps_def intro: holdsI)

lemma keepsD: "keeps I m \<Longrightarrow> I s \<Longrightarrow> run_state m s = (a, s') \<Longrightarrow> I s'"
  unfolding keeps_def by (rule holdsD [where Q = "\<lambda>_. I"])

lemma keeps_holds: "keeps I m \<Longrightarrow> holds I m (\<lambda>_. I)"
  by (simp add: keeps_def)

lemma holds_pre: "holds P m Q \<Longrightarrow> (\<And>s. P' s \<Longrightarrow> P s) \<Longrightarrow> holds P' m Q"
  by (simp add: holds_def)

lemma holds_post: "holds P m Q \<Longrightarrow> (\<And>a s. Q a s \<Longrightarrow> Q' a s) \<Longrightarrow> holds P m Q'"
  by (auto simp: holds_def split: prod.splits)

lemma holds_ret [prog_rules]: "(\<And>s. P s \<Longrightarrow> Q a s) \<Longrightarrow> holds P (ret a) Q"
  by (simp add: holds_def)

lemma holds_bind [prog_rules]:
  assumes "holds P m R" "\<And>a. holds (R a) (f a) Q"
  shows "holds P (State_Monad.bind m f) Q"
  using assms by (fastforce simp: holds_def split: prod.splits)

lemma holds_check [prog_rules]:
  assumes "holds P m R" "\<And>e s. R (Inl e) s \<Longrightarrow> Q (Inl e) s" "\<And>a. holds (R (Inr a)) (k a) Q"
  shows "holds P (check m k) Q"
  unfolding check_def
  by (rule holds_bind [OF assms(1)]) (auto intro: holds_ret assms split: sum.split)

lemma holds_if [prog_rules]:
  "(b \<Longrightarrow> holds P m Q) \<Longrightarrow> (\<not> b \<Longrightarrow> holds P n Q) \<Longrightarrow> holds P (if b then m else n) Q"
  by simp

lemma holds_option [prog_rules]:
  "(x = None \<Longrightarrow> holds P m Q) \<Longrightarrow> (\<And>a. x = Some a \<Longrightarrow> holds P (n a) Q)
    \<Longrightarrow> holds P (case x of None \<Rightarrow> m | Some a \<Rightarrow> n a) Q"
  by (cases x) auto

lemma holds_sum [prog_rules]:
  "(\<And>e. x = Inl e \<Longrightarrow> holds P (m e) Q) \<Longrightarrow> (\<And>a. x = Inr a \<Longrightarrow> holds P (n a) Q)
    \<Longrightarrow> holds P (case x of Inl e \<Rightarrow> m e | Inr a \<Rightarrow> n a) Q"
  by (cases x) auto

lemma holds_prod [prog_rules]:
  "(\<And>a b. x = (a, b) \<Longrightarrow> holds P (m a b) Q) \<Longrightarrow> holds P (case x of (a, b) \<Rightarrow> m a b) Q"
  by (cases x) auto

lemma keeps_ret [keeps_rules, intro]: "keeps I (ret a)"
  by (simp add: keeps_def holds_def)

lemma keeps_bind [keeps_rules]:
  "keeps I m \<Longrightarrow> (\<And>a. keeps I (f a)) \<Longrightarrow> keeps I (State_Monad.bind m f)"
  unfolding keeps_def by (rule holds_bind)

lemma keeps_check [keeps_rules]:
  "keeps I m \<Longrightarrow> (\<And>a. keeps I (k a)) \<Longrightarrow> keeps I (check m k)"
  unfolding keeps_def by (rule holds_check)

lemma keeps_if [keeps_rules]: "keeps I m \<Longrightarrow> keeps I n \<Longrightarrow> keeps I (if b then m else n)"
  by simp

lemma keeps_option [keeps_rules]:
  "keeps I m \<Longrightarrow> (\<And>a. keeps I (n a)) \<Longrightarrow> keeps I (case x of None \<Rightarrow> m | Some a \<Rightarrow> n a)"
  by (cases x) auto

lemma keeps_sum [keeps_rules]:
  "(\<And>e. keeps I (m e)) \<Longrightarrow> (\<And>a. keeps I (n a)) \<Longrightarrow> keeps I (case x of Inl e \<Rightarrow> m e | Inr a \<Rightarrow> n a)"
  by (cases x) auto

lemma keeps_prod [keeps_rules]:
  "(\<And>a b. keeps I (m a b)) \<Longrightarrow> keeps I (case x of (a, b) \<Rightarrow> m a b)"
  by (cases x) auto

lemma keeps_let [keeps_rules]: "(\<And>y. keeps I (m y)) \<Longrightarrow> keeps I (let y = x in m y)"
  by simp

lemma keeps_for_each [keeps_rules]:
  "(\<And>x. keeps I (f x)) \<Longrightarrow> keeps I (for_each f xs)"
  by (induction xs) (auto intro: keeps_check)

lemma keeps_conj:
  "keeps I m \<Longrightarrow> keeps J m \<Longrightarrow> keeps (\<lambda>s. I s \<and> J s) m"
  by (auto simp: keeps_def holds_def split: prod.splits)

section \<open>Rows of a table\<close>

text \<open>A row with a given key, and the update of every row that satisfies a condition.\<close>

definition row :: "('r \<Rightarrow> 'k) \<Rightarrow> 'k \<Rightarrow> 'r list \<Rightarrow> 'r option" where
  "row key k rs = find (\<lambda>r. key r = k) rs"

lemma row_Some: "row key k rs = Some r \<Longrightarrow> r \<in> set rs \<and> key r = k"
  by (auto simp: row_def find_Some_iff)

lemma row_None: "row key k rs = None \<longleftrightarrow> (\<forall>r \<in> set rs. key r \<noteq> k)"
  by (auto simp: row_def find_None_iff)

lemma row_Nil [simp]: "row key k [] = None"
  by (simp add: row_def)

lemma row_Cons [simp]: "row key k (r # rs) = (if key r = k then Some r else row key k rs)"
  by (simp add: row_def)

lemma row_eq:
  "distinct (map key rs) \<Longrightarrow> r \<in> set rs \<Longrightarrow> row key (key r) rs = Some r"
  by (induction rs) (auto simp: rev_image_eqI)

lemma row_unique:
  "distinct (map key rs) \<Longrightarrow> a \<in> set rs \<Longrightarrow> b \<in> set rs \<Longrightarrow> key a = key b \<Longrightarrow> a = b"
  by (metis option.inject row_eq)

lemma row_map:
  "(\<And>r. key (f r) = key r) \<Longrightarrow> row key k (map f rs) = map_option f (row key k rs)"
  by (induction rs) auto

lemma row_append:
  "row key k (rs @ qs) = (case row key k rs of None \<Rightarrow> row key k qs | Some r \<Rightarrow> Some r)"
  by (induction rs) auto

end
