(* ===== verification/JobStore.thy ===== *)
theory JobStore
  imports Prelude "HOL-Library.Char_ord" "HOL-Library.List_Lexorder" "HOL-Library.Product_Lexorder"
begin

text \<open>
  The durable queue: \<open>internal/jobs/model.go\<close> and \<open>internal/jobs/store.go\<close>. The SQLite database is
  the record \<open>db\<close>: the rows of the table \<open>jobs\<close> in insertion order, the singleton row of \<open>devices\<close>
  and the rows of \<open>operations\<close>; a column is a field. Each method of \<open>Store\<close> is one transaction,
  a function from the database to an error (the transaction rolls back) or to a result and the new
  database. The time of the call is an argument, as are the random identifiers. GORM sets
  \<open>updated_at\<close> on every updated row and \<open>created_at\<close> on creation; so does the model. Failures of
  SQLite itself are added where the transactions run (theory World).
\<close>

section \<open>Model\<close>

text \<open>\<open>NoState\<close> is the empty string, the zero value of the column \<open>pending_state\<close>.\<close>

datatype jstate =
  NoState | Queued | Running | Verifying | Cleaning | Completed | Failed | Cancelled

fun state_string :: "jstate \<Rightarrow> string" where
  "state_string NoState = ''''"
| "state_string Queued = ''queued''"
| "state_string Running = ''running''"
| "state_string Verifying = ''verifying''"
| "state_string Cleaning = ''cleaning''"
| "state_string Completed = ''completed''"
| "state_string Failed = ''failed''"
| "state_string Cancelled = ''cancelled''"

definition Terminal :: "jstate \<Rightarrow> bool" where
  "Terminal s \<longleftrightarrow> s = Completed \<or> s = Failed \<or> s = Cancelled"

fun CanTransition :: "jstate \<Rightarrow> jstate \<Rightarrow> bool" where
  "CanTransition Queued b = (b = Running \<or> b = Cleaning)"
| "CanTransition Running b = (b = Verifying \<or> b = Cleaning)"
| "CanTransition Verifying b = (b = Cleaning)"
| "CanTransition Cleaning b = Terminal b"
| "CanTransition _ b = False"

record job =
  job_id :: string
  job_target :: string
  job_source :: string
  job_state :: jstate
  job_phase :: string
  attempts :: int
  cancel_requested :: bool
  error_code :: string
  error_message :: string
  failure_reason :: string
  cleanup_error :: string
  pending_state :: jstate
  job_installed :: bool
  job_replaced :: bool
  job_uninstalled :: bool
  job_current :: int
  job_total :: int
  job_bytes :: int
  job_sha256 :: string
  job_bundle_id :: string
  job_version :: string
  created_at :: int
  updated_at :: int
  available_at :: int
  expires_at :: "int option"
  artifact_expired :: bool

text \<open>A job literal of the handlers: everything but the three given fields is a zero value.\<close>

definition new_job :: "string \<Rightarrow> string \<Rightarrow> string \<Rightarrow> job" where
  "new_job i t s = \<lparr>job_id = i, job_target = t, job_source = s, job_state = NoState,
     job_phase = '''', attempts = 0, cancel_requested = False, error_code = '''',
     error_message = '''', failure_reason = '''', cleanup_error = '''', pending_state = NoState,
     job_installed = False, job_replaced = False, job_uninstalled = False, job_current = 0,
     job_total = 0, job_bytes = 0, job_sha256 = '''', job_bundle_id = '''', job_version = '''',
     created_at = 0, updated_at = 0, available_at = 0, expires_at = None,
     artifact_expired = False\<rparr>"

record device =
  dev_owner :: string
  dev_quarantined :: bool
  dev_reason :: string

record operation =
  op_id :: string
  op_job :: string
  op_created :: int

record db =
  jobs :: "job list"
  device :: device
  operations :: "operation list"

type_synonym 'a tx = "db \<Rightarrow> go_error + ('a \<times> db)"

section \<open>Identifiers\<close>

definition hex_digit :: "nat \<Rightarrow> char" where
  "hex_digit n = ''0123456789abcdef'' ! (n mod 16)"

text \<open>\<open>hex.EncodeToString\<close>\<close>

definition hex_encode :: "nat list \<Rightarrow> string" where
  "hex_encode bs = concat (map (\<lambda>b. [hex_digit (b div 16), hex_digit b]) bs)"

text \<open>The 16 bytes of one read of the random source, as the digits of a number.\<close>

definition random_bytes :: "nat \<Rightarrow> nat list" where
  "random_bytes r = map (\<lambda>i. r div 256 ^ i mod 256) [0..<16]"

definition NewID :: "nat \<Rightarrow> string" where
  "NewID r = hex_encode (random_bytes r)"

section \<open>Statements\<close>

definition find_job :: "string \<Rightarrow> db \<Rightarrow> job option" where
  "find_job i d = row job_id i (jobs d)"

text \<open>\<open>UPDATE jobs SET ... WHERE ...\<close>, and the same on the singleton device row.\<close>

definition update_jobs :: "int \<Rightarrow> (job \<Rightarrow> bool) \<Rightarrow> (job \<Rightarrow> job) \<Rightarrow> db \<Rightarrow> db" where
  "update_jobs now P f d =
     d\<lparr>jobs := map (\<lambda>j. if P j then (f j)\<lparr>updated_at := now\<rparr> else j) (jobs d)\<rparr>"

abbreviation (input) by_id :: "string \<Rightarrow> job \<Rightarrow> bool" where
  "by_id i \<equiv> (\<lambda>j. job_id j = i)"

definition update_device :: "(device \<Rightarrow> device) \<Rightarrow> db \<Rightarrow> db" where
  "update_device f d = d\<lparr>device := f (device d)\<rparr>"

text \<open>
  The maps \<open>fields\<close> of \<open>Change\<close> and \<open>Metadata\<close>: one constructor per column the program assigns
  through them.
\<close>

datatype assign =
    SetPhase string
  | SetInstalled bool
  | SetReplaced bool
  | SetUninstalled bool
  | SetBytes int
  | SetSha256 string
  | SetBundleID string
  | SetVersion string
  | SetExpiresAt int
  | SetArtifactExpired bool
  | SetPendingState jstate
  | SetErrorCode string
  | SetErrorMessage string

fun set_field :: "assign \<Rightarrow> job \<Rightarrow> job" where
  "set_field (SetPhase x) j = j\<lparr>job_phase := x\<rparr>"
| "set_field (SetInstalled x) j = j\<lparr>job_installed := x\<rparr>"
| "set_field (SetReplaced x) j = j\<lparr>job_replaced := x\<rparr>"
| "set_field (SetUninstalled x) j = j\<lparr>job_uninstalled := x\<rparr>"
| "set_field (SetBytes x) j = j\<lparr>job_bytes := x\<rparr>"
| "set_field (SetSha256 x) j = j\<lparr>job_sha256 := x\<rparr>"
| "set_field (SetBundleID x) j = j\<lparr>job_bundle_id := x\<rparr>"
| "set_field (SetVersion x) j = j\<lparr>job_version := x\<rparr>"
| "set_field (SetExpiresAt x) j = j\<lparr>expires_at := Some x\<rparr>"
| "set_field (SetArtifactExpired x) j = j\<lparr>artifact_expired := x\<rparr>"
| "set_field (SetPendingState x) j = j\<lparr>pending_state := x\<rparr>"
| "set_field (SetErrorCode x) j = j\<lparr>error_code := x\<rparr>"
| "set_field (SetErrorMessage x) j = j\<lparr>error_message := x\<rparr>"

definition assign_all :: "assign list \<Rightarrow> job \<Rightarrow> job" where
  "assign_all fs j = fold set_field fs j"

section \<open>Queries\<close>

definition store_Get :: "string \<Rightarrow> job tx" where
  "store_Get i d = (case find_job i d of None \<Rightarrow> Inl ErrRecordNotFound | Some j \<Rightarrow> Inr (j, d))"

definition store_Device :: "device tx" where
  "store_Device d = Inr (device d, d)"

definition store_All :: "job list tx" where
  "store_All d = Inr (jobs d, d)"

text \<open>\<open>Order("created_at DESC").Limit(200)\<close>\<close>

definition store_List :: "job list tx" where
  "store_List d = Inr (take 200 (sort_key (\<lambda>j. - created_at j) (jobs d)), d)"

text \<open>\<open>Order("created_at ASC, id ASC")\<close> over the operations of a job.\<close>

definition store_Operations :: "string \<Rightarrow> string list tx" where
  "store_Operations i d =
     Inr (map op_id (sort_key (\<lambda>p. (op_created p, op_id p))
            (filter (\<lambda>p. op_job p = i) (operations d))), d)"

section \<open>Admission and the device lease\<close>

definition occupying :: "job \<Rightarrow> bool" where
  "occupying j \<longleftrightarrow> job_state j \<in> {Queued, Running, Verifying, Cleaning}"

definition store_Enqueue :: "int \<Rightarrow> job \<Rightarrow> int \<Rightarrow> job tx" where
  "store_Enqueue now j limit d =
     (if limit \<le> int (length (filter occupying (jobs d))) then Inl ErrQueueFull
      else if find_job (job_id j) d \<noteq> None then Inl ErrDatabase
      else let j' = j\<lparr>job_state := Queued, available_at := now, created_at := now, updated_at := now\<rparr>
           in Inr (j', d\<lparr>jobs := jobs d @ [j']\<rparr>))"

text \<open>
  \<open>Order("created_at ASC").First(&out)\<close>: GORM's \<open>First\<close> adds the primary key as the last
  ordering column, so the order is total.
\<close>

definition before :: "job \<Rightarrow> job \<Rightarrow> bool" where
  "before a b \<longleftrightarrow> created_at a < created_at b
     \<or> (created_at a = created_at b \<and> job_id a < job_id b)"

fun first_in_order :: "job list \<Rightarrow> job option" where
  "first_in_order [] = None"
| "first_in_order (j # js) =
     (case first_in_order js of None \<Rightarrow> Some j | Some k \<Rightarrow> Some (if before k j then k else j))"

definition claimable :: "int \<Rightarrow> job \<Rightarrow> bool" where
  "claimable now j \<longleftrightarrow> job_state j = Queued \<and> available_at j \<le> now"

definition start_job :: "job \<Rightarrow> job" where
  "start_job j = j\<lparr>job_state := Running, attempts := attempts j + 1, job_phase := ''starting''\<rparr>"

definition store_Claim :: "int \<Rightarrow> job option tx" where
  "store_Claim now d =
     (if dev_quarantined (device d) \<or> dev_owner (device d) \<noteq> '''' then Inr (None, d)
      else case first_in_order (filter (claimable now) (jobs d)) of
        None \<Rightarrow> Inr (None, d)
      | Some j \<Rightarrow>
          Inr (Some ((start_job j)\<lparr>updated_at := now\<rparr>),
               update_device (\<lambda>v. v\<lparr>dev_owner := job_id j\<rparr>)
                 (update_jobs now (by_id (job_id j)) (\<lambda>_. start_job j) d)))"

definition store_Release :: "string \<Rightarrow> unit tx" where
  "store_Release i d =
     Inr ((), update_device (\<lambda>v. if dev_owner v = i then v\<lparr>dev_owner := ''''\<rparr> else v) d)"

section \<open>Transitions\<close>

definition store_Change :: "int \<Rightarrow> string \<Rightarrow> jstate \<Rightarrow> assign list \<Rightarrow> unit tx" where
  "store_Change now i to cols d =
     (case find_job i d of
        None \<Rightarrow> Inl ErrRecordNotFound
      | Some j \<Rightarrow>
          if \<not> CanTransition (job_state j) to then Inl ErrConflict
          else Inr ((), update_jobs now (by_id i) (\<lambda>k. (assign_all cols k)\<lparr>job_state := to\<rparr>) d))"

definition store_Progress :: "int \<Rightarrow> string \<Rightarrow> string \<Rightarrow> int \<Rightarrow> int \<Rightarrow> unit tx" where
  "store_Progress now i ph cur tot d =
     Inr ((), update_jobs now (\<lambda>j. job_id j = i \<and> job_state j \<in> {Running, Verifying})
                (\<lambda>j. j\<lparr>job_phase := ph, job_current := cur, job_total := tot\<rparr>) d)"

definition store_Cancel :: "int \<Rightarrow> string \<Rightarrow> unit tx" where
  "store_Cancel now i d =
     (case find_job i d of
        None \<Rightarrow> Inl ErrRecordNotFound
      | Some j \<Rightarrow>
          if Terminal (job_state j) \<or> job_state j = Cleaning then Inl ErrConflict
          else Inr ((), update_jobs now (by_id i) (\<lambda>k. k\<lparr>cancel_requested := True\<rparr>) d))"

definition store_Retry :: "int \<Rightarrow> string \<Rightarrow> unit tx" where
  "store_Retry now i d =
     Inr ((), update_jobs now (\<lambda>j. job_id j = i \<and> job_state j = Running)
                (\<lambda>j. j\<lparr>attempts := attempts j + 1, job_phase := ''retry-wait''\<rparr>) d)"

definition store_Metadata :: "int \<Rightarrow> string \<Rightarrow> assign list \<Rightarrow> unit tx" where
  "store_Metadata now i cols d = Inr ((), update_jobs now (by_id i) (assign_all cols) d)"

definition store_BeginCleanup ::
  "int \<Rightarrow> string \<Rightarrow> jstate \<Rightarrow> string \<Rightarrow> string \<Rightarrow> jstate tx" where
  "store_BeginCleanup now i desired code message d =
     (case find_job i d of
        None \<Rightarrow> Inl ErrRecordNotFound
      | Some j \<Rightarrow>
          if \<not> CanTransition (job_state j) Cleaning then Inl ErrConflict
          else
            let (des, cod, msg) =
                  (if cancel_requested j
                   then (Cancelled, ''cancelled'', ''The job was cancelled.'')
                   else (desired, code, message))
            in Inr (des, update_jobs now (by_id i)
                 (\<lambda>k. k\<lparr>job_state := Cleaning, job_phase := ''cleaning'', pending_state := des,
                        error_code := cod, error_message := msg, failure_reason := cod\<rparr>) d))"

definition store_StartOperation :: "int \<Rightarrow> string \<Rightarrow> string \<Rightarrow> string tx" where
  "store_StartOperation now op i d =
     (case find_job i d of
        None \<Rightarrow> Inl ErrRecordNotFound
      | Some j \<Rightarrow>
          if job_state j \<noteq> Running \<or> dev_owner (device d) \<noteq> i \<or> dev_quarantined (device d)
          then Inl ErrConflict
          else if row op_id op (operations d) \<noteq> None then Inl ErrDatabase
          else Inr (op, d\<lparr>operations := operations d @ [\<lparr>op_id = op, op_job = i, op_created = now\<rparr>]\<rparr>))"

section \<open>Quarantine, resolution and recovery\<close>

definition store_Quarantine :: "int \<Rightarrow> string \<Rightarrow> string \<Rightarrow> jstate \<Rightarrow> unit tx" where
  "store_Quarantine now i reason desired d =
     Inr ((), update_device
                (\<lambda>v. v\<lparr>dev_quarantined := True, dev_reason := reason, dev_owner := ''''\<rparr>)
                (update_jobs now (by_id i)
                  (\<lambda>j. j\<lparr>cleanup_error := reason, pending_state := desired\<rparr>) d))"

text \<open>A job in \<open>cleaning\<close> with a recorded cleanup error waits for review.\<close>

definition needs_review :: "job \<Rightarrow> bool" where
  "needs_review j \<longleftrightarrow> job_state j = Cleaning \<and> cleanup_error j \<noteq> ''''"

definition store_resolve :: "int \<Rightarrow> string \<Rightarrow> string \<Rightarrow> unit tx" where
  "store_resolve now i ph d =
     (case find_job i d of
        None \<Rightarrow> Inl ErrRecordNotFound
      | Some j \<Rightarrow>
          if job_state j \<noteq> Cleaning \<or> cleanup_error j = '''' \<or> \<not> Terminal (pending_state j)
          then Inl ErrConflict
          else
            let d' = update_jobs now (by_id i)
                  (\<lambda>k. k\<lparr>cleanup_error := '''', job_state := pending_state j,
                         pending_state := NoState, job_phase := ph\<rparr>) d
            in if 0 < length (filter needs_review (jobs d')) then Inr ((), d')
               else Inr ((), update_device
                     (\<lambda>v. v\<lparr>dev_quarantined := False, dev_reason := '''', dev_owner := ''''\<rparr>) d'))"

definition store_Resolve :: "int \<Rightarrow> string \<Rightarrow> unit tx" where
  "store_Resolve now i = store_resolve now i ''operator-confirmed cleanup''"

definition store_ResolveAutomatic :: "int \<Rightarrow> string \<Rightarrow> unit tx" where
  "store_ResolveAutomatic now i = store_resolve now i ''automatically confirmed cleanup''"

definition active :: "job \<Rightarrow> bool" where
  "active j \<longleftrightarrow> job_state j \<in> {Running, Verifying, Cleaning}"

text \<open>The update of one active job in the loop of \<open>Recover\<close>.\<close>

definition recover_job :: "job \<Rightarrow> job" where
  "recover_job j =
     (if job_state j \<noteq> Cleaning \<or> \<not> Terminal (pending_state j)
      then j\<lparr>job_state := Cleaning,
             cleanup_error := ''Interrupted job: automatic cleanup recovery is required.'',
             pending_state := (if cancel_requested j then Cancelled else Failed),
             error_code := ''interrupted'',
             error_message := ''The service stopped before cleanup was confirmed.'',
             failure_reason := ''process-recovery''\<rparr>
      else j\<lparr>job_state := Cleaning,
             cleanup_error := ''Interrupted job: automatic cleanup recovery is required.''\<rparr>)"

definition store_Recover :: "int \<Rightarrow> unit tx" where
  "store_Recover now d =
     (let act = filter active (jobs d);
          d' = update_jobs now (\<lambda>j. active j \<and> \<not> needs_review j) recover_job d
      in if 0 < length act
         then Inr ((), update_device (\<lambda>v. v\<lparr>dev_owner := '''', dev_quarantined := True,
               dev_reason := ''Interrupted or unconfirmed cleanup requires operator review.''\<rparr>) d')
         else Inr ((), update_device (\<lambda>v. v\<lparr>dev_owner := ''''\<rparr>) d'))"

section \<open>Opening the database\<close>

text \<open>
  The database file before \<open>Open\<close>: \<open>PRAGMA user_version\<close>, and what the migration of GORM makes of its
  tables (\<open>migrated\<close>): the rows of jobs, the device row, which may be missing, and the rows of
  operations, or the error it fails with. The migration is not code of the repository; \<open>Open\<close> checks the
  version before it and creates a missing device row after it.
\<close>

record db_file =
  user_version :: int
  migrated :: "go_error + (job list \<times> device option \<times> operation list)"

definition fresh_file :: db_file where
  "fresh_file = \<lparr>user_version = 0, migrated = Inr ([], None, [])\<rparr>"

definition empty_device :: device where
  "empty_device = \<lparr>dev_owner = '''', dev_quarantined = False, dev_reason = ''''\<rparr>"

definition open_db :: "db_file \<Rightarrow> go_error + db" where
  "open_db f =
     (if 2 < user_version f then Inl (ErrText ''database schema is newer than this binary'')
      else case migrated f of
        Inl e \<Rightarrow> Inl e
      | Inr (js, dv, os) \<Rightarrow>
          Inr \<lparr>jobs = js, device = (case dv of None \<Rightarrow> empty_device | Some v \<Rightarrow> v), operations = os\<rparr>)"

end
