(* ===== verification/JobInvariants.thy ===== *)
theory JobInvariants
  imports JobStore
begin

text \<open>
  What every transaction of the job store keeps true, and what a run of transactions can do to a
  job: the row invariant \<open>inv_store\<close>, the device lease \<open>lease\<close>, the life cycle of a job along
  \<open>CanTransition\<close>, admission, and the choice made by \<open>Claim\<close>.
\<close>

section \<open>The invariant\<close>

text \<open>A job that owns device work that no cleanup has confirmed and nobody has reviewed.\<close>

definition in_flight :: "job \<Rightarrow> bool" where
  "in_flight j \<longleftrightarrow> job_state j \<in> {Running, Verifying} \<or> (job_state j = Cleaning \<and> cleanup_error j = '''')"

definition distinct_ids :: "db \<Rightarrow> bool" where
  "distinct_ids d \<longleftrightarrow> distinct (map job_id (jobs d))"

text \<open>
  A well-formed row: a cancelled job is not and will not become completed; a cleanup error is
  recorded only while cleaning, with an outcome that \<open>Resolve\<close> can commit.
\<close>

definition honours_cancel :: "job \<Rightarrow> bool" where
  "honours_cancel j \<longleftrightarrow> (cancel_requested j \<longrightarrow>
     job_state j \<noteq> Completed \<and> (job_state j = Cleaning \<longrightarrow> pending_state j \<noteq> Completed))"

definition row_ok :: "job \<Rightarrow> bool" where
  "row_ok j \<longleftrightarrow> job_id j \<noteq> '''' \<and> honours_cancel j
     \<and> (cleanup_error j \<noteq> '''' \<longrightarrow> job_state j = Cleaning \<and> Terminal (pending_state j))"

definition well_formed :: "db \<Rightarrow> bool" where
  "well_formed d \<longleftrightarrow> (\<forall>j \<in> set (jobs d). row_ok j)"

text \<open>The device is quarantined exactly while some job waits for review.\<close>

definition quarantine_agrees :: "db \<Rightarrow> bool" where
  "quarantine_agrees d \<longleftrightarrow> dev_quarantined (device d) = (\<exists>j \<in> set (jobs d). needs_review j)"

definition single_flight :: "db \<Rightarrow> bool" where
  "single_flight d \<longleftrightarrow>
     (\<exists>i. \<forall>j \<in> set (jobs d). in_flight j \<longrightarrow> job_id j = i)"

definition exclusive :: "db \<Rightarrow> bool" where
  "exclusive d \<longleftrightarrow>
     (\<exists>j \<in> set (jobs d). in_flight j) \<longrightarrow> (\<forall>j \<in> set (jobs d). \<not> needs_review j)"

definition inv_store :: "db \<Rightarrow> bool" where
  "inv_store d \<longleftrightarrow> distinct_ids d \<and> well_formed d \<and> quarantine_agrees d \<and> single_flight d
     \<and> exclusive d"

text \<open>The device lease: work in flight belongs to the recorded owner.\<close>

definition lease :: "db \<Rightarrow> bool" where
  "lease d \<longleftrightarrow> (\<forall>j \<in> set (jobs d). in_flight j \<longrightarrow> dev_owner (device d) = job_id j)"

lemmas inv_parts = distinct_ids_def well_formed_def quarantine_agrees_def single_flight_def
  exclusive_def

lemma active_cases: "active j \<longleftrightarrow> in_flight j \<or> needs_review j"
  by (auto simp: active_def in_flight_def needs_review_def)

lemma flight_not_review: "in_flight j \<Longrightarrow> \<not> needs_review j"
  by (auto simp: in_flight_def needs_review_def)

section \<open>Rows under an update\<close>

lemma jobs_update_jobs [simp]:
  "jobs (update_jobs now P f d) = map (\<lambda>j. if P j then (f j)\<lparr>updated_at := now\<rparr> else j) (jobs d)"
  "device (update_jobs now P f d) = device d"
  "operations (update_jobs now P f d) = operations d"
  by (simp_all add: update_jobs_def)

lemma jobs_update_device [simp]:
  "jobs (update_device g d) = jobs d" "device (update_device g d) = g (device d)"
  "operations (update_device g d) = operations d"
  by (simp_all add: update_device_def)

lemma flags_updated_at [simp]:
  "in_flight (j\<lparr>updated_at := t\<rparr>) = in_flight j"
  "needs_review (j\<lparr>updated_at := t\<rparr>) = needs_review j"
  "row_ok (j\<lparr>updated_at := t\<rparr>) = row_ok j"
  "occupying (j\<lparr>updated_at := t\<rparr>) = occupying j"
  by (simp_all add: in_flight_def needs_review_def row_ok_def honours_cancel_def occupying_def)

lemma find_job_Some: "find_job i d = Some j \<Longrightarrow> j \<in> set (jobs d) \<and> job_id j = i"
  by (auto simp: find_job_def dest: row_Some)

lemma find_job_None: "find_job i d = None \<longleftrightarrow> (\<forall>j \<in> set (jobs d). job_id j \<noteq> i)"
  by (simp add: find_job_def row_None)

lemma find_job_eq: "distinct_ids d \<Longrightarrow> j \<in> set (jobs d) \<Longrightarrow> find_job (job_id j) d = Some j"
  by (simp add: find_job_def distinct_ids_def row_eq)

lemma find_update_jobs:
  assumes "\<And>j. P j \<Longrightarrow> job_id (f j) = job_id j"
  shows "find_job i (update_jobs now P f d) =
           map_option (\<lambda>j. if P j then (f j)\<lparr>updated_at := now\<rparr> else j) (find_job i d)"
  unfolding find_job_def jobs_update_jobs by (rule row_map) (simp add: assms)

lemma find_update_device [simp]: "find_job i (update_device g d) = find_job i d"
  by (simp add: find_job_def)

lemma distinct_update_jobs:
  assumes "\<And>j. P j \<Longrightarrow> job_id (f j) = job_id j"
  shows "distinct_ids (update_jobs now P f d) = distinct_ids d"
proof -
  have "map job_id (jobs (update_jobs now P f d)) = map job_id (jobs d)" by (simp add: assms)
  then show ?thesis by (simp only: distinct_ids_def)
qed

text \<open>
  A quiet update changes neither which work is in flight nor which jobs wait for review.
\<close>

definition quiet :: "(job \<Rightarrow> bool) \<Rightarrow> (job \<Rightarrow> job) \<Rightarrow> bool" where
  "quiet P f \<longleftrightarrow> (\<forall>j. P j \<longrightarrow> job_id (f j) = job_id j \<and> in_flight (f j) = in_flight j
     \<and> needs_review (f j) = needs_review j \<and> (row_ok j \<longrightarrow> row_ok (f j)))"

lemma quiet_rows:
  assumes "quiet P f" "\<And>j. g j = (if P j then (f j)\<lparr>updated_at := now\<rparr> else j)"
  shows "job_id (g j) = job_id j" "in_flight (g j) = in_flight j"
    "needs_review (g j) = needs_review j"
    "row_ok j \<Longrightarrow> row_ok (g j)"
  using assms by (simp_all add: quiet_def)

lemma quiet_inv:
  assumes "quiet P f" "inv_store d"
  shows "inv_store (update_jobs now P f d)"
proof -
  define g where "g = (\<lambda>j. if P j then (f j)\<lparr>updated_at := now\<rparr> else j)"
  have jobs: "jobs (update_jobs now P f d) = map g (jobs d)" by (simp add: g_def)
  then have "\<And>j. g j = (if P j then (f j)\<lparr>updated_at := now\<rparr> else j)" by (simp add: g_def)
  note rows = quiet_rows [OF assms(1) this]
  have "map job_id (map g (jobs d)) = map job_id (jobs d)" by (simp add: rows)
  then have "distinct_ids (update_jobs now P f d)"
    using assms(2) by (simp only: inv_store_def distinct_ids_def jobs)
  moreover have "well_formed (update_jobs now P f d)"
    using assms(2) unfolding inv_store_def well_formed_def jobs by (auto simp: rows)
  moreover have "quarantine_agrees (update_jobs now P f d)" "exclusive (update_jobs now P f d)"
    using assms(2) unfolding inv_store_def quarantine_agrees_def exclusive_def jobs
    by (auto simp: rows)
  moreover have "single_flight (update_jobs now P f d)"
    using assms(2) unfolding inv_store_def single_flight_def jobs by (auto simp: rows)
  ultimately show ?thesis by (simp add: inv_store_def)
qed

lemma quiet_lease: "quiet P f \<Longrightarrow> lease d \<Longrightarrow> lease (update_jobs now P f d)"
  by (auto simp: lease_def quiet_def)

lemmas quiet_keeps = quiet_inv quiet_lease

lemmas flag_defs = in_flight_def needs_review_def row_ok_def honours_cancel_def

lemma quiet_progress:
  "quiet P (\<lambda>j. j\<lparr>job_phase := ph, job_current := cur, job_total := tot\<rparr>)"
  by (simp add: quiet_def flag_defs)

lemma quiet_retry: "quiet P (\<lambda>j. j\<lparr>attempts := attempts j + 1, job_phase := ph\<rparr>)"
  by (simp add: quiet_def flag_defs)

lemma quiet_cancel:
  "quiet (\<lambda>j. P j \<and> \<not> Terminal (job_state j) \<and> job_state j \<noteq> Cleaning) (\<lambda>j. j\<lparr>cancel_requested := True\<rparr>)"
  by (auto simp: quiet_def flag_defs Terminal_def)

text \<open>The columns assigned through maps: a pending state is only ever overwritten with \<open>Failed\<close>.\<close>

fun assign_ok :: "assign \<Rightarrow> bool" where
  "assign_ok (SetPendingState s) = (s = Failed)"
| "assign_ok _ = True"

lemma set_field_frame [simp]:
  "job_id (set_field a j) = job_id j" "job_state (set_field a j) = job_state j"
  "cleanup_error (set_field a j) = cleanup_error j"
  "cancel_requested (set_field a j) = cancel_requested j"
  by (cases a; simp)+

lemma assign_all_frame [simp]:
  "job_id (assign_all cs j) = job_id j" "job_state (assign_all cs j) = job_state j"
  "cleanup_error (assign_all cs j) = cleanup_error j"
  "cancel_requested (assign_all cs j) = cancel_requested j"
  by (induction cs arbitrary: j) (simp_all add: assign_all_def)

lemma pending_set_field:
  "assign_ok a \<Longrightarrow> pending_state (set_field a j) \<in> {pending_state j, Failed}"
  by (cases a) auto

lemma pending_assign_all:
  "list_all assign_ok cs \<Longrightarrow> pending_state (assign_all cs j) \<in> {pending_state j, Failed}"
proof (induction cs arbitrary: j)
  case (Cons a cs)
  then show ?case
    using pending_set_field [of a j] Cons.IH [of "set_field a j"]
    by (simp add: assign_all_def) metis
qed (simp add: assign_all_def)

lemma quiet_assign:
  assumes "list_all assign_ok cs"
  shows "quiet P (assign_all cs)"
  unfolding quiet_def
proof (intro allI impI conjI)
  fix j
  have p: "pending_state (assign_all cs j) = pending_state j \<or> pending_state (assign_all cs j) = Failed"
    using pending_assign_all [OF assms, of j] by simp
  show "in_flight (assign_all cs j) = in_flight j" "needs_review (assign_all cs j) = needs_review j"
    by (simp_all add: in_flight_def needs_review_def)
  show "row_ok (assign_all cs j)" if "row_ok j"
    using p that by (auto simp: row_ok_def honours_cancel_def Terminal_def)
qed simp

section \<open>Updates of one job\<close>

lemma update_jobs_cong:
  assumes "\<And>j. j \<in> set (jobs d) \<Longrightarrow> P j = Q j" "\<And>j. j \<in> set (jobs d) \<Longrightarrow> Q j \<Longrightarrow> f j = g j"
  shows "update_jobs now P f d = update_jobs now Q g d"
  using assms by (simp add: update_jobs_def)

lemma by_id_row:
  "distinct_ids d \<Longrightarrow> find_job i d = Some j \<Longrightarrow> k \<in> set (jobs d) \<Longrightarrow> job_id k = i \<longleftrightarrow> k = j"
  by (metis find_job_Some find_job_eq option.inject)

lemma update_by_id:
  assumes "distinct_ids d" "find_job i d = Some j"
  shows "update_jobs now (by_id i) f d = update_jobs now (\<lambda>k. job_id k = i \<and> k = j) (\<lambda>_. f j) d"
  using by_id_row [OF assms] by (intro update_jobs_cong) auto

lemma set_update_by_id:
  assumes "distinct_ids d" "find_job i d = Some j"
  shows "set (jobs (update_jobs now (by_id i) f d)) =
           insert ((f j)\<lparr>updated_at := now\<rparr>) {k \<in> set (jobs d). job_id k \<noteq> i}"
  using by_id_row [OF assms] find_job_Some [OF assms(2)] by (auto simp: image_iff)

text \<open>
  The general shape: job \<open>i\<close> is replaced by one that is a good row with the same identifier, and
  the device row agrees with the new contents.
\<close>

lemma replace_inv:
  assumes inv: "inv_store d" and j: "find_job i d = Some j"
    and f: "job_id (f j) = i" "row_ok (f j)"
    and rest: "\<And>k. k \<in> set (jobs d) \<Longrightarrow> job_id k \<noteq> i \<Longrightarrow> in_flight k \<Longrightarrow> \<not> in_flight (f j) \<and> \<not> needs_review (f j)"
    and review: "\<And>k. k \<in> set (jobs d) \<Longrightarrow> job_id k \<noteq> i \<Longrightarrow> needs_review k \<Longrightarrow> \<not> in_flight (f j)"
    and dev: "dev_quarantined (g (device d)) =
      (needs_review (f j) \<or> (\<exists>k \<in> set (jobs d). job_id k \<noteq> i \<and> needs_review k))"
  shows "inv_store (update_device g (update_jobs now (by_id i) f d))"
proof -
  let ?d = "update_device g (update_jobs now (by_id i) f d)"
  have d: "distinct_ids d" using inv by (simp add: inv_store_def)
  have rows: "set (jobs ?d) = insert ((f j)\<lparr>updated_at := now\<rparr>) {k \<in> set (jobs d). job_id k \<noteq> i}"
    using set_update_by_id [OF d j] by simp
  have "distinct_ids (update_jobs now (by_id i) f d)"
    unfolding update_by_id [OF d j] using d f(1) by (subst distinct_update_jobs) auto
  then have "distinct_ids ?d" by (simp add: distinct_ids_def)
  moreover have "well_formed ?d"
    using inv f unfolding inv_store_def well_formed_def rows by auto
  moreover have "quarantine_agrees ?d"
    using dev unfolding quarantine_agrees_def rows by auto
  moreover have "single_flight ?d"
    using inv rest f(1) unfolding inv_store_def single_flight_def rows
    by (cases "in_flight (f j)") auto
  moreover have "exclusive ?d"
    unfolding exclusive_def
  proof (intro impI ballI notI)
    fix k assume "\<exists>a \<in> set (jobs ?d). in_flight a" "k \<in> set (jobs ?d)" and nr: "needs_review k"
    then obtain a where "a \<in> set (jobs ?d)" "k \<in> set (jobs ?d)" and fl: "in_flight a" by blast
    then have "a = (f j)\<lparr>updated_at := now\<rparr> \<or> a \<in> set (jobs d) \<and> job_id a \<noteq> i"
      "k = (f j)\<lparr>updated_at := now\<rparr> \<or> k \<in> set (jobs d) \<and> job_id k \<noteq> i"
      unfolding rows by auto
    then show False
    proof (elim disjE conjE)
      assume "a \<in> set (jobs d)" "k \<in> set (jobs d)"
      then show ?thesis using inv fl nr unfolding inv_store_def exclusive_def by blast
    qed (use rest [of a] review [of k] fl nr flight_not_review [of "f j"] in auto)
  qed
  ultimately show ?thesis by (simp add: inv_store_def)
qed

lemma update_device_id [simp]: "update_device (\<lambda>v. v) d = d"
  by (simp add: update_device_def)

lemmas replace_inv_rows = replace_inv [where g = "\<lambda>v. v", simplified]

text \<open>Facts about the only job in flight.\<close>

lemma others_not_in_flight:
  assumes "inv_store d" "find_job i d = Some j" "in_flight j"
  shows "k \<in> set (jobs d) \<Longrightarrow> job_id k \<noteq> i \<Longrightarrow> \<not> in_flight k"
    and "k \<in> set (jobs d) \<Longrightarrow> \<not> needs_review k"
    and "\<not> dev_quarantined (device d)"
proof -
  have "j \<in> set (jobs d)" "job_id j = i" using find_job_Some [OF assms(2)] by auto
  then show "k \<in> set (jobs d) \<Longrightarrow> job_id k \<noteq> i \<Longrightarrow> \<not> in_flight k"
    and nr: "k \<in> set (jobs d) \<Longrightarrow> \<not> needs_review k" for k
    using assms unfolding inv_store_def single_flight_def exclusive_def by auto
  then show "\<not> dev_quarantined (device d)"
    using assms(1) by (auto simp: inv_store_def quarantine_agrees_def)
qed

lemma find_after_update:
  "(\<And>k. job_id k = i \<Longrightarrow> job_id (f k) = i) \<Longrightarrow>
   find_job i (update_jobs now (by_id i) f d) = map_option (\<lambda>j. (f j)\<lparr>updated_at := now\<rparr>) (find_job i d)"
  by (subst find_update_jobs) (auto dest: find_job_Some simp: option.map_sel intro!: map_option_cong)

section \<open>Transactions keep the invariant\<close>

lemma enqueue_inv:
  assumes "inv_store d" "store_Enqueue now j limit d = Inr (r, d')" "job_id j \<noteq> ''''" "cleanup_error j = ''''"
  shows "inv_store d'" "lease d \<Longrightarrow> lease d'"
proof -
  let ?j = "j\<lparr>job_state := Queued, available_at := now, created_at := now, updated_at := now\<rparr>"
  have d': "jobs d' = jobs d @ [?j]" "device d' = device d" and new: "find_job (job_id j) d = None"
    using assms(2) by (auto simp: store_Enqueue_def Let_def split: if_splits)
  have idle: "\<not> in_flight ?j" "\<not> needs_review ?j" "row_ok ?j"
    using assms(3,4) by (simp_all add: flag_defs)
  have "distinct_ids d'" "well_formed d'" "quarantine_agrees d'" "exclusive d'"
    using assms(1) new idle by (auto simp: inv_store_def inv_parts d' find_job_None)
  moreover have "single_flight d'"
    using assms(1) idle by (simp add: inv_store_def single_flight_def d')
  ultimately show "inv_store d'" by (simp add: inv_store_def)
  show "lease d \<Longrightarrow> lease d'"
    using idle by (auto simp: lease_def d')
qed

lemma first_in_order_Some: "first_in_order js = Some j \<Longrightarrow> j \<in> set js"
  by (induction js arbitrary: j) (auto split: option.splits if_splits)

lemma first_in_order_None [simp]: "first_in_order js = None \<longleftrightarrow> js = []"
  by (cases js) (auto split: option.splits)

lemma lease_free:
  assumes "inv_store d" "lease d" "dev_owner (device d) = ''''" "j \<in> set (jobs d)"
  shows "\<not> in_flight j"
  using assms by (auto simp: inv_store_def well_formed_def row_ok_def lease_def)

lemma claim_cases:
  assumes "store_Claim now d = Inr (r, d')"
  obtains (none) "r = None" "d' = d"
  | (claimed) j where "find_job (job_id j) d \<noteq> None" "j \<in> set (jobs d)" "claimable now j"
      "r = Some ((start_job j)\<lparr>updated_at := now\<rparr>)"
      "\<not> dev_quarantined (device d)" "dev_owner (device d) = ''''"
      "d' = update_device (\<lambda>v. v\<lparr>dev_owner := job_id j\<rparr>)
              (update_jobs now (by_id (job_id j)) (\<lambda>_. start_job j) d)"
proof -
  let ?c = "filter (claimable now) (jobs d)"
  show thesis
  proof (cases "dev_quarantined (device d) \<or> dev_owner (device d) \<noteq> '''' \<or> ?c = []")
    case True
    with assms show thesis by (intro none) (auto simp: store_Claim_def split: if_splits)
  next
    case False
    then obtain j where j: "first_in_order ?c = Some j" by (cases "first_in_order ?c") auto
    from first_in_order_Some [OF this] have "j \<in> set (jobs d)" "claimable now j" by auto
    with False j assms show thesis
      by (intro claimed [of j]) (auto simp: store_Claim_def find_job_None)
  qed
qed

text \<open>Job \<open>i\<close> holds the device lease, in one of the states \<open>S\<close> of work in flight.\<close>

definition holder :: "string \<Rightarrow> jstate set \<Rightarrow> db \<Rightarrow> bool" where
  "holder i S d \<longleftrightarrow> inv_store d \<and> lease d \<and> dev_owner (device d) = i
     \<and> (\<exists>j. find_job i d = Some j \<and> job_state j \<in> S \<and> in_flight j)"

lemma holder_inv: "holder i S d \<Longrightarrow> inv_store d"
  by (simp add: holder_def)

lemma holder_lease: "holder i S d \<Longrightarrow> lease d"
  by (simp add: holder_def)

lemma holder_job:
  assumes "holder i S d"
  obtains j where "find_job i d = Some j" "job_state j \<in> S" "in_flight j"
  using assms by (auto simp: holder_def)

lemma holder_mono: "holder i S d \<Longrightarrow> S \<subseteq> T \<Longrightarrow> holder i T d"
  by (auto simp: holder_def)

lemma holder_quiet:
  assumes "holder i S d" "quiet P f" "\<And>j. P j \<Longrightarrow> job_state j \<in> S \<Longrightarrow> job_state (f j) \<in> S"
  shows "holder i S (update_jobs now P f d)"
proof -
  obtain j where j: "find_job i d = Some j" "job_state j \<in> S" "in_flight j"
    using assms(1) by (rule holder_job)
  have "find_job i (update_jobs now P f d) = Some (if P j then (f j)\<lparr>updated_at := now\<rparr> else j)"
    using assms(2) by (subst find_update_jobs) (auto simp: quiet_def j)
  then show ?thesis
    using assms j by (auto simp: holder_def quiet_inv quiet_lease quiet_def)
qed

lemma quiet_restrict: "quiet P f \<Longrightarrow> (\<And>j. Q j \<Longrightarrow> P j) \<Longrightarrow> quiet Q f"
  by (auto simp: quiet_def)

lemma claim_inv:
  assumes "inv_store d" "lease d" "store_Claim now d = Inr (r, d')"
  shows "inv_store d'" "lease d'" "r = Some j \<Longrightarrow> holder (job_id j) {Running} d'"
proof -
  have "inv_store d' \<and> lease d' \<and> (\<forall>j. r = Some j \<longrightarrow> holder (job_id j) {Running} d')"
    using assms(3)
  proof (cases rule: claim_cases)
    case none
    then show ?thesis using assms by simp
  next
    case (claimed j)
    have d: "distinct_ids d" using assms(1) by (simp add: inv_store_def)
    have j: "find_job (job_id j) d = Some j" by (rule find_job_eq [OF d claimed(2)])
    have idle: "\<not> in_flight k" "\<not> needs_review k" if "k \<in> set (jobs d)" for k
      using that assms(1) claimed(5) lease_free [OF assms(1,2) claimed(6)]
      by (auto simp: inv_store_def quarantine_agrees_def)
    have ok: "row_ok j" using assms(1) claimed(2) by (auto simp: inv_store_def well_formed_def)
    then have s: "job_id (start_job j) = job_id j" "in_flight (start_job j)"
      "\<not> needs_review (start_job j)" "row_ok (start_job j)"
      using claimed(3) by (auto simp: start_job_def claimable_def flag_defs)
    have inv: "inv_store d'"
      unfolding claimed(7)
      by (rule replace_inv [OF assms(1) j]) (use s idle claimed(5) in auto)
    have rows: "set (jobs d') = insert ((start_job j)\<lparr>updated_at := now\<rparr>) {k \<in> set (jobs d). job_id k \<noteq> job_id j}"
      unfolding claimed(7) using set_update_by_id [OF d j] by simp
    have "lease d'"
      unfolding lease_def rows using idle s by (auto simp: claimed(7))
    moreover have "find_job (job_id j) d' = Some ((start_job j)\<lparr>updated_at := now\<rparr>)"
      unfolding claimed(7) using s by (simp add: find_after_update j)
    ultimately show ?thesis
      using inv s by (auto simp: holder_def claimed(4,7) start_job_def)
  qed
  then show "inv_store d'" "lease d'" "r = Some j \<Longrightarrow> holder (job_id j) {Running} d'" by auto
qed

lemma device_inv:
  "dev_quarantined (g (device d)) = dev_quarantined (device d) \<Longrightarrow> inv_store (update_device g d) = inv_store d"
  by (simp add: inv_store_def inv_parts)

lemma release_inv:
  assumes "inv_store d" "store_Release i d = Inr (r, d')"
  shows "inv_store d'"
  using assms by (auto simp: store_Release_def device_inv)

lemma cancel_eq:
  assumes "distinct_ids d" "store_Cancel now i d = Inr (r, d')"
  shows "d' = update_jobs now (\<lambda>j. job_id j = i \<and> \<not> Terminal (job_state j) \<and> job_state j \<noteq> Cleaning)
                (\<lambda>k. k\<lparr>cancel_requested := True\<rparr>) d"
proof -
  obtain j where j: "find_job i d = Some j" "\<not> Terminal (job_state j)" "job_state j \<noteq> Cleaning"
    and d': "d' = update_jobs now (by_id i) (\<lambda>k. k\<lparr>cancel_requested := True\<rparr>) d"
    using assms(2) by (auto simp: store_Cancel_def split: option.splits if_splits)
  show ?thesis unfolding d'
    by (rule update_jobs_cong) (use by_id_row [OF assms(1) j(1)] j(2,3) in auto)
qed

lemma change_eq:
  assumes "distinct_ids d" "find_job i d = Some j" "store_Change now i s cs d = Inr (r, d')"
  shows "CanTransition (job_state j) s"
    "d' = update_jobs now (by_id i) (\<lambda>k. (assign_all cs k)\<lparr>job_state := s\<rparr>) d"
  using assms by (auto simp: store_Change_def split: if_splits)

lemma land_inv:
  assumes "holder i S d" "Terminal s" "list_all assign_ok cs"
    and "store_Change now i s cs d = Inr (r, d')"
    and "\<And>j. find_job i d = Some j \<Longrightarrow> cancel_requested j \<Longrightarrow> s \<noteq> Completed"
  shows "inv_store d'" "lease d'" "\<And>k. k \<in> set (jobs d') \<Longrightarrow> \<not> in_flight k"
proof -
  obtain j where j: "find_job i d = Some j" "job_state j \<in> S" "in_flight j"
    using assms(1) by (rule holder_job)
  let ?f = "\<lambda>k. (assign_all cs k)\<lparr>job_state := s\<rparr>"
  have inv: "inv_store d" and d: "distinct_ids d"
    using assms(1) by (auto simp: holder_def inv_store_def)
  have ok: "row_ok j" using inv find_job_Some [OF j(1)] by (auto simp: inv_store_def well_formed_def)
  have d': "d' = update_jobs now (by_id i) ?f d" by (rule change_eq(2) [OF d j(1) assms(4)])
  have f: "job_id (?f j) = i" "row_ok (?f j)" "\<not> in_flight (?f j)" "\<not> needs_review (?f j)"
    using assms(2) ok j(3) find_job_Some [OF j(1)] assms(5) [OF j(1)]
    by (auto simp: flag_defs Terminal_def)
  note others = others_not_in_flight [OF inv j(1,3)]
  show "inv_store d'"
    unfolding d' by (rule replace_inv_rows [OF inv j(1)]) (use f others in auto)
  show none: "\<not> in_flight k" if "k \<in> set (jobs d')" for k
    using that f(3) others(1) unfolding d' set_update_by_id [OF d j(1)] by auto
  show "lease d'" using none by (auto simp: lease_def)
qed

lemma begin_cleanup_cases:
  assumes "store_BeginCleanup now i desired code message d = Inr (r, d')"
  obtains j where "find_job i d = Some j" "CanTransition (job_state j) Cleaning"
    "r = (if cancel_requested j then Cancelled else desired)"
    "d' = update_jobs now (by_id i)
       (\<lambda>k. k\<lparr>job_state := Cleaning, job_phase := ''cleaning'', pending_state := r,
          error_code := (if cancel_requested j then ''cancelled'' else code),
          error_message := (if cancel_requested j then ''The job was cancelled.'' else message),
          failure_reason := (if cancel_requested j then ''cancelled'' else code)\<rparr>) d"
  using assms by (auto simp: store_BeginCleanup_def Let_def split: option.splits if_splits prod.splits)

lemma begin_cleanup_inv:
  assumes "holder i S d" "store_BeginCleanup now i desired code message d = Inr (r, d')"
  shows "holder i {Cleaning} d'"
    and "\<And>j. find_job i d' = Some j \<Longrightarrow> pending_state j = r \<and> job_state j = Cleaning"
    and "\<And>j. find_job i d = Some j \<Longrightarrow> r = (if cancel_requested j then Cancelled else desired)"
proof -
  obtain j where j: "find_job i d = Some j" "CanTransition (job_state j) Cleaning"
    and r: "r = (if cancel_requested j then Cancelled else desired)"
    and d': "d' = update_jobs now (by_id i)
       (\<lambda>k. k\<lparr>job_state := Cleaning, job_phase := ''cleaning'', pending_state := r,
          error_code := (if cancel_requested j then ''cancelled'' else code),
          error_message := (if cancel_requested j then ''The job was cancelled.'' else message),
          failure_reason := (if cancel_requested j then ''cancelled'' else code)\<rparr>) d"
      (is "_ = update_jobs _ _ ?f _")
    using assms(2) by (rule begin_cleanup_cases)
  obtain fl: "in_flight j" using assms(1) j(1) by (auto elim: holder_job)
  have inv: "inv_store d" and d: "distinct_ids d"
    using assms(1) by (auto simp: holder_def inv_store_def)
  have id: "job_id j = i" and "j \<in> set (jobs d)" using find_job_Some [OF j(1)] by auto
  with inv have ok: "row_ok j" by (auto simp: inv_store_def well_formed_def)
  have f: "job_id (?f j) = i" "row_ok (?f j)" "in_flight (?f j)" "\<not> needs_review (?f j)"
    using id ok fl r by (auto simp: flag_defs)
  note others = others_not_in_flight [OF inv j(1) fl]
  have inv': "inv_store d'"
    unfolding d' by (rule replace_inv_rows [OF inv j(1)]) (use f others in auto)
  have "lease d'"
    using assms(1) f others(1) unfolding lease_def d' set_update_by_id [OF d j(1)]
    by (auto simp: holder_def)
  moreover have find: "find_job i d' = Some ((?f j)\<lparr>updated_at := now\<rparr>)"
    unfolding d' using id by (simp add: find_after_update j)
  ultimately show "holder i {Cleaning} d'"
    using inv' f(3) assms(1) by (simp add: holder_def d')
  show "pending_state k = r \<and> job_state k = Cleaning" if "find_job i d' = Some k" for k
    using that by (auto simp: find)
  show "r = (if cancel_requested k then Cancelled else desired)" if "find_job i d = Some k" for k
    using that r j(1) by simp
qed

lemma start_operation_frame:
  assumes "store_StartOperation now op i d = Inr (r, d')"
  shows "jobs d' = jobs d" "device d' = device d" "r = op"
  using assms by (auto simp: store_StartOperation_def split: option.splits if_splits)

lemma same_rows_holder:
  assumes "jobs d' = jobs d" "device d' = device d"
  shows "inv_store d' = inv_store d" "lease d' = lease d" "holder i S d' = holder i S d"
    "find_job i d' = find_job i d"
  by (simp_all add: holder_def inv_store_def inv_parts lease_def find_job_def assms)

lemma quarantine_inv:
  assumes "holder i {Cleaning} d" "store_Quarantine now i reason desired d = Inr (r, d')"
    and "reason \<noteq> ''''" "Terminal desired"
    and "\<And>j. find_job i d = Some j \<Longrightarrow> cancel_requested j \<Longrightarrow> desired \<noteq> Completed"
  shows "inv_store d'" "\<And>k. k \<in> set (jobs d') \<Longrightarrow> \<not> in_flight k" "dev_quarantined (device d')"
    "\<exists>j. find_job i d' = Some j \<and> needs_review j \<and> pending_state j = desired"
    "dev_owner (device d') = ''''"
proof -
  obtain j where j: "find_job i d = Some j" "job_state j \<in> {Cleaning}" "in_flight j"
    using assms(1) by (rule holder_job)
  let ?f = "\<lambda>k. k\<lparr>cleanup_error := reason, pending_state := desired\<rparr>"
  let ?g = "\<lambda>v. v\<lparr>dev_quarantined := True, dev_reason := reason, dev_owner := ''''\<rparr>"
  have inv: "inv_store d" and d: "distinct_ids d"
    using assms(1) by (auto simp: holder_def inv_store_def)
  have id: "job_id j = i" and "j \<in> set (jobs d)" using find_job_Some [OF j(1)] by auto
  with inv have ok: "row_ok j" by (auto simp: inv_store_def well_formed_def)
  have d': "d' = update_device ?g (update_jobs now (by_id i) ?f d)"
    using assms(2) by (simp add: store_Quarantine_def)
  have f: "job_id (?f j) = i" "row_ok (?f j)" "\<not> in_flight (?f j)" "needs_review (?f j)"
    using id ok j assms(3,4) assms(5) [OF j(1)] by (auto simp: flag_defs)
  note others = others_not_in_flight [OF inv j(1,3)]
  show "inv_store d'"
    unfolding d' by (rule replace_inv [OF inv j(1)]) (use f others in auto)
  have rows: "set (jobs d') = insert ((?f j)\<lparr>updated_at := now\<rparr>) {k \<in> set (jobs d). job_id k \<noteq> i}"
    unfolding d' jobs_update_device by (rule set_update_by_id [OF d j(1)])
  show "\<not> in_flight k" if "k \<in> set (jobs d')" for k
    using that f(3) others(1) unfolding rows by auto
  show "dev_quarantined (device d')" "dev_owner (device d') = ''''" by (simp_all add: d')
  have "find_job i d' = Some ((?f j)\<lparr>updated_at := now\<rparr>)"
    unfolding d' using id by (simp add: find_after_update j)
  then show "\<exists>j. find_job i d' = Some j \<and> needs_review j \<and> pending_state j = desired"
    using f(4) by simp
qed

lemma resolve_cases:
  assumes "store_resolve now i ph d = Inr (r, d')"
  obtains j d1 where "find_job i d = Some j" "needs_review j" "Terminal (pending_state j)"
    "d1 = update_jobs now (by_id i)
       (\<lambda>k. k\<lparr>cleanup_error := '''', job_state := pending_state j, pending_state := NoState,
              job_phase := ph\<rparr>) d"
    "d' = (if \<exists>k \<in> set (jobs d1). needs_review k then d1
           else update_device (\<lambda>v. v\<lparr>dev_quarantined := False, dev_reason := '''', dev_owner := ''''\<rparr>) d1)"
proof -
  from assms obtain j where j: "find_job i d = Some j"
    by (cases "find_job i d") (auto simp: store_resolve_def)
  with assms have rev: "needs_review j" "Terminal (pending_state j)"
    by (auto simp: store_resolve_def needs_review_def split: if_splits)
  let ?d1 = "update_jobs now (by_id i)
       (\<lambda>k. k\<lparr>cleanup_error := '''', job_state := pending_state j, pending_state := NoState,
              job_phase := ph\<rparr>) d"
  have "store_resolve now i ph d = Inr ((), if \<exists>k \<in> set (jobs ?d1). needs_review k then ?d1
           else update_device (\<lambda>v. v\<lparr>dev_quarantined := False, dev_reason := '''', dev_owner := ''''\<rparr>) ?d1)"
    using j rev unfolding needs_review_def [of j]
    by (simp add: store_resolve_def Let_def filter_empty_conv del: jobs_update_jobs(1))
  with assms show thesis by (intro that [OF j rev refl]) simp
qed

lemma resolve_inv:
  assumes "inv_store d" "store_resolve now i ph d = Inr (r, d')"
  shows "inv_store d'" "lease d'" "\<not> in_flight k \<or> k \<notin> set (jobs d')"
proof -
  obtain j d1 where j: "find_job i d = Some j" "needs_review j" "Terminal (pending_state j)"
    and d1: "d1 = update_jobs now (by_id i)
       (\<lambda>k. k\<lparr>cleanup_error := '''', job_state := pending_state j, pending_state := NoState,
              job_phase := ph\<rparr>) d" (is "_ = update_jobs _ _ ?f _")
    and d': "d' = (if \<exists>k \<in> set (jobs d1). needs_review k then d1
       else update_device (\<lambda>v. v\<lparr>dev_quarantined := False, dev_reason := '''', dev_owner := ''''\<rparr>) d1)"
    using assms(2) by (rule resolve_cases)
  have d: "distinct_ids d" using assms(1) by (simp add: inv_store_def)
  have id: "job_id j = i" and mem: "j \<in> set (jobs d)" using find_job_Some [OF j(1)] by auto
  with assms(1) have ok: "row_ok j" by (auto simp: inv_store_def well_formed_def)
  have f: "job_id (?f j) = i" "row_ok (?f j)" "\<not> in_flight (?f j)" "\<not> needs_review (?f j)"
    using id ok j(2,3) by (auto simp: flag_defs Terminal_def)
  have none: "\<not> in_flight k" if "k \<in> set (jobs d)" for k
    using that assms(1) j(2) mem by (auto simp: inv_store_def exclusive_def)
  have rows: "set (jobs d1) = insert ((?f j)\<lparr>updated_at := now\<rparr>) {k \<in> set (jobs d). job_id k \<noteq> i}"
    unfolding d1 by (rule set_update_by_id [OF d j(1)])
  have same: "set (jobs d') = set (jobs d1)" by (simp add: d')
  show fin: "\<not> in_flight k \<or> k \<notin> set (jobs d')" for k
    using none f(3) unfolding same rows by auto
  then show "lease d'" by (auto simp: lease_def)
  have q: "dev_quarantined (device d)"
    using assms(1) j(2) mem by (auto simp: inv_store_def quarantine_agrees_def)
  let ?rest = "\<exists>k \<in> set (jobs d). job_id k \<noteq> i \<and> needs_review k"
  have rest: "(\<exists>k \<in> set (jobs d1). needs_review k) = ?rest"
    using f(4) unfolding rows by auto
  let ?g = "\<lambda>v. if ?rest then v else v\<lparr>dev_quarantined := False, dev_reason := '''', dev_owner := ''''\<rparr>"
  have "inv_store (update_device ?g (update_jobs now (by_id i) ?f d))"
    by (rule replace_inv [OF assms(1) j(1)]) (use f none q in auto)
  moreover have "d' = update_device ?g d1"
    unfolding d' rest by (cases ?rest) (simp_all only: if_True if_False update_device_id)
  ultimately show "inv_store d'" by (simp only: d1)
qed

text \<open>
  Recovery needs only well-formed rows: whatever was in flight when the process died, afterwards
  nothing is, and every interrupted job waits for review with a terminal outcome.
\<close>

lemma recover_inv:
  assumes "distinct_ids d" "well_formed d" "store_Recover now d = Inr (r, d')"
    and "dev_quarantined (device d) \<longrightarrow> (\<exists>j \<in> set (jobs d). needs_review j)"
  shows "inv_store d'" "\<And>k. k \<in> set (jobs d') \<Longrightarrow> \<not> in_flight k" "dev_owner (device d') = ''''"
proof -
  let ?P = "\<lambda>j. active j \<and> \<not> needs_review j"
  let ?d = "update_jobs now ?P recover_job d"
  have jobs': "jobs d' = jobs ?d" and own: "dev_owner (device d') = ''''"
    and q: "dev_quarantined (device d') = (dev_quarantined (device d) \<or> (\<exists>j \<in> set (jobs d). active j))"
    using assms(3) by (auto simp: store_Recover_def Let_def filter_empty_conv split: if_splits)
  show "dev_owner (device d') = ''''" by (rule own)
  have rj: "job_id (recover_job j) = job_id j" "needs_review (recover_job j)" for j
    by (simp_all add: recover_job_def needs_review_def)
  have rf: "\<not> in_flight (recover_job j)" for j using rj(2) flight_not_review by blast
  have rok: "row_ok (recover_job j)" if "row_ok j" "active j" for j
    using that by (auto simp: recover_job_def flag_defs Terminal_def active_def)
  have flags: "\<not> in_flight k" "row_ok k" if "k \<in> set (jobs d')" for k
    using that assms(2) rf
    by (auto simp: jobs' well_formed_def rok active_cases dest: flight_not_review split: if_splits)
  then show "\<And>k. k \<in> set (jobs d') \<Longrightarrow> \<not> in_flight k" by blast
  define g where "g = (\<lambda>j. if ?P j then (recover_job j)\<lparr>updated_at := now\<rparr> else j)"
  have g: "needs_review (g j) = active j" for j
    using rj(2) by (auto simp: g_def active_cases)
  have "jobs d' = map g (jobs d)" by (simp add: jobs' g_def)
  then have review: "(\<exists>k \<in> set (jobs d'). needs_review k) = (\<exists>j \<in> set (jobs d). active j)"
    by (simp add: g)
  have "distinct_ids d'"
    using distinct_update_jobs [of ?P recover_job now d] rj(1) assms(1)
    by (simp add: distinct_ids_def jobs')
  moreover have "quarantine_agrees d'"
    unfolding quarantine_agrees_def q review using assms(4) by (auto simp: active_cases)
  ultimately show "inv_store d'"
    using flags by (auto simp: inv_store_def well_formed_def single_flight_def exclusive_def)
qed

end
