(* ===== verification/GoRegexp.thy ===== *)
theory GoRegexp
  imports Prelude "HOL-Library.Char_ord"
begin

text \<open>
  The part of the package \<open>regexp\<close> the program uses: \<open>MatchString\<close> of a pattern anchored at both
  ends. A pattern is data (\<open>rx\<close>), written the way the Go source writes it: character classes as
  ranges, counted repetition, optional parts. \<open>matches\<close> is an executable matcher by derivatives,
  \<open>lang\<close> the set of strings it accepts, and \<open>matches_lang\<close> their agreement; the remaining lemmas
  describe the languages of the shapes the program's patterns have. Strings are byte strings. The
  classes of the program contain ASCII characters only (or are negated ASCII classes), for which
  matching bytes and matching UTF-8 encoded runes accept the same strings.
\<close>

datatype rx =
    Void
  | Eps
  | Cls bool "(char \<times> char) list"
  | Cat rx rx
  | Alt rx rx
  | Star rx

definition in_ranges :: "(char \<times> char) list \<Rightarrow> char \<Rightarrow> bool" where
  "in_ranges rs c = list_ex (\<lambda>(a, b). of_char a \<le> (of_char c :: nat) \<and> of_char c \<le> (of_char b :: nat)) rs"

text \<open>The characters of a class, listed: ranges of literals are expanded by evaluation.\<close>

definition expand_ranges :: "(char \<times> char) list \<Rightarrow> string" where
  "expand_ranges rs =
     concat (map (\<lambda>(a, b). map char_of [of_char a ..< Suc (of_char b :: nat)]) rs)"

lemma in_ranges_expand: "in_ranges rs c \<longleftrightarrow> c \<in> set (expand_ranges rs)"
proof -
  have "of_char a \<le> (of_char c :: nat) \<and> of_char c \<le> (of_char b :: nat)
      \<longleftrightarrow> c \<in> set (map char_of [of_char a ..< Suc (of_char b :: nat)])" for a b
  proof
    assume "of_char a \<le> (of_char c :: nat) \<and> of_char c \<le> (of_char b :: nat)"
    then have "of_char c \<in> {of_char a ..< Suc (of_char b :: nat)}" by auto
    then have "char_of (of_char c :: nat) \<in> char_of ` {of_char a ..< Suc (of_char b :: nat)}"
      by (rule imageI)
    then show "c \<in> set (map char_of [of_char a ..< Suc (of_char b :: nat)])"
      by (simp only: set_map set_upt char_of_char)
  next
    assume "c \<in> set (map char_of [of_char a ..< Suc (of_char b :: nat)])"
    then obtain n where n: "c = char_of n" "of_char a \<le> n" "n \<le> (of_char b :: nat)"
      by (auto simp: less_Suc_eq_le)
    have "n < 256" using n(3) nat_of_char_less_256 [of b] by linarith
    then have "of_char c = n" by (simp add: n(1))
    then show "of_char a \<le> (of_char c :: nat) \<and> of_char c \<le> (of_char b :: nat)" using n by simp
  qed
  then show ?thesis by (auto simp: in_ranges_def expand_ranges_def list_ex_iff)
qed

text \<open>\<open>Cls True rs\<close> is \<open>[...]\<close>, \<open>Cls False rs\<close> is \<open>[^...]\<close>.\<close>

definition in_class :: "bool \<Rightarrow> (char \<times> char) list \<Rightarrow> char \<Rightarrow> bool" where
  "in_class pos rs c = (pos = in_ranges rs c)"

fun nullable :: "rx \<Rightarrow> bool" where
  "nullable Void = False"
| "nullable Eps = True"
| "nullable (Cls _ _) = False"
| "nullable (Cat r q) = (nullable r \<and> nullable q)"
| "nullable (Alt r q) = (nullable r \<or> nullable q)"
| "nullable (Star _) = True"

text \<open>Concatenation and alternative that drop dead branches, so derivatives stay small.\<close>

fun cat :: "rx \<Rightarrow> rx \<Rightarrow> rx" where
  "cat Void _ = Void"
| "cat Eps q = q"
| "cat r q = Cat r q"

fun alt :: "rx \<Rightarrow> rx \<Rightarrow> rx" where
  "alt Void q = q"
| "alt r Void = r"
| "alt r q = Alt r q"

fun deriv :: "char \<Rightarrow> rx \<Rightarrow> rx" where
  "deriv _ Void = Void"
| "deriv _ Eps = Void"
| "deriv c (Cls pos rs) = (if in_class pos rs c then Eps else Void)"
| "deriv c (Cat r q) =
     (if nullable r then alt (cat (deriv c r) q) (deriv c q) else cat (deriv c r) q)"
| "deriv c (Alt r q) = alt (deriv c r) (deriv c q)"
| "deriv c (Star r) = cat (deriv c r) (Star r)"

fun matches :: "rx \<Rightarrow> string \<Rightarrow> bool" where
  "matches r [] = nullable r"
| "matches r (c # s) = matches (deriv c r) s"

section \<open>Shapes of the source's patterns\<close>

definition lit :: "char \<Rightarrow> rx" where
  "lit c = Cls True [(c, c)]"

fun lits :: "string \<Rightarrow> rx" where
  "lits [] = Eps"
| "lits (c # s) = Cat (lit c) (lits s)"

definition rx_plus :: "rx \<Rightarrow> rx" where
  "rx_plus r = Cat r (Star r)"

definition rx_opt :: "rx \<Rightarrow> rx" where
  "rx_opt r = Alt r Eps"

text \<open>\<open>r{n}\<close> and \<open>r{0,n}\<close>.\<close>

fun rep :: "nat \<Rightarrow> rx \<Rightarrow> rx" where
  "rep 0 r = Eps"
| "rep (Suc n) r = Cat r (rep n r)"

fun upto_times :: "nat \<Rightarrow> rx \<Rightarrow> rx" where
  "upto_times 0 r = Eps"
| "upto_times (Suc n) r = rx_opt (Cat r (upto_times n r))"

section \<open>Languages\<close>

definition conc :: "string set \<Rightarrow> string set \<Rightarrow> string set" where
  "conc A B = {xs @ ys | xs ys. xs \<in> A \<and> ys \<in> B}"

inductive_set star :: "string set \<Rightarrow> string set" for A where
  star_Nil [simp, intro]: "[] \<in> star A"
| star_app [intro]: "xs \<in> A \<Longrightarrow> ys \<in> star A \<Longrightarrow> xs @ ys \<in> star A"

fun lang :: "rx \<Rightarrow> string set" where
  "lang Void = {}"
| "lang Eps = {[]}"
| "lang (Cls pos rs) = {[c] | c. in_class pos rs c}"
| "lang (Cat r q) = conc (lang r) (lang q)"
| "lang (Alt r q) = lang r \<union> lang q"
| "lang (Star r) = star (lang r)"

lemma concI: "xs \<in> A \<Longrightarrow> ys \<in> B \<Longrightarrow> xs @ ys \<in> conc A B"
  by (auto simp: conc_def)

lemma conc_empty [simp]: "conc {} A = {}" "conc {[]} A = A"
  by (auto simp: conc_def)

lemma conc_class: "conc {[c] | c. P c} B = {c # s | c s. P c \<and> s \<in> B}"
proof -
  have "s \<in> conc {[c] | c. P c} B \<longleftrightarrow> (\<exists>c t. s = c # t \<and> P c \<and> t \<in> B)" for s
    unfolding conc_def by (auto, metis append.simps)
  then show ?thesis by blast
qed

lemma nullable_lang: "nullable r \<longleftrightarrow> [] \<in> lang r"
  by (induction r) (auto simp: conc_def)

lemma lang_cat [simp]: "lang (cat r q) = conc (lang r) (lang q)"
  by (cases "(r, q)" rule: cat.cases) auto

lemma lang_alt [simp]: "lang (alt r q) = lang r \<union> lang q"
  by (cases "(r, q)" rule: alt.cases) auto

lemma star_Cons: "c # s \<in> star A \<Longrightarrow> \<exists>xs ys. s = xs @ ys \<and> c # xs \<in> A \<and> ys \<in> star A"
proof (induction "c # s" arbitrary: s rule: star.induct)
  case (star_app xs ys)
  then show ?case by (cases xs) auto
qed

lemma conc_Cons:
  "c # s \<in> conc A B \<longleftrightarrow>
     (\<exists>xs ys. s = xs @ ys \<and> c # xs \<in> A \<and> ys \<in> B) \<or> ([] \<in> A \<and> c # s \<in> B)"
    (is "?L \<longleftrightarrow> ?R")
proof
  assume ?L
  then obtain xs ys where "c # s = xs @ ys" "xs \<in> A" "ys \<in> B"
    by (auto simp: conc_def)
  then show ?R by (cases xs) auto
next
  assume ?R
  then show ?L
  proof
    assume "\<exists>xs ys. s = xs @ ys \<and> c # xs \<in> A \<and> ys \<in> B"
    then obtain xs ys where "s = xs @ ys" "c # xs \<in> A" "ys \<in> B" by blast
    then show ?L using concI [of "c # xs" A ys B] by simp
  next
    assume "[] \<in> A \<and> c # s \<in> B"
    then show ?L using concI [of "[]" A "c # s" B] by simp
  qed
qed

lemma star_Cons_iff:
  "c # s \<in> star A \<longleftrightarrow> (\<exists>xs ys. s = xs @ ys \<and> c # xs \<in> A \<and> ys \<in> star A)"
proof
  show "\<exists>xs ys. s = xs @ ys \<and> c # xs \<in> A \<and> ys \<in> star A \<Longrightarrow> c # s \<in> star A"
    by (metis append_Cons star.star_app)
qed (rule star_Cons)

lemma lang_deriv: "s \<in> lang (deriv c r) \<longleftrightarrow> c # s \<in> lang r"
proof (induction r arbitrary: s)
  case (Cat r q)
  have "s \<in> conc (lang (deriv c r)) (lang q) \<longleftrightarrow>
      (\<exists>xs ys. s = xs @ ys \<and> c # xs \<in> lang r \<and> ys \<in> lang q)" for s
    by (auto simp: conc_def Cat.IH(1))
  then show ?case
    by (auto simp: conc_Cons nullable_lang Cat.IH(2))
next
  case (Star r)
  show ?case by (auto simp: star_Cons_iff conc_def Star.IH)
qed auto

lemma matches_lang: "matches r s \<longleftrightarrow> s \<in> lang r"
  by (induction s arbitrary: r) (auto simp: nullable_lang lang_deriv)

lemma lang_lit [simp]: "lang (lit c) = {[c]}"
  by (auto simp: lit_def in_class_def in_ranges_def)

lemma lang_lits [simp]: "lang (lits s) = {s}"
  by (induction s) (auto simp: conc_def)

lemma lang_opt [simp]: "lang (rx_opt r) = insert [] (lang r)"
  by (auto simp: rx_opt_def)

lemma lang_rep_Cls:
  "lang (rep n (Cls pos rs)) = {s. length s = n \<and> (\<forall>c \<in> set s. in_class pos rs c)}"
proof (induction n)
  case (Suc n)
  have "s \<in> lang (rep (Suc n) (Cls pos rs)) \<longleftrightarrow>
      length s = Suc n \<and> (\<forall>c \<in> set s. in_class pos rs c)" for s
    by (cases s) (auto simp: conc_class Suc.IH)
  then show ?case by blast
qed auto

lemma lang_upto_Cls:
  "lang (upto_times n (Cls pos rs)) = {s. length s \<le> n \<and> (\<forall>c \<in> set s. in_class pos rs c)}"
proof (induction n)
  case (Suc n)
  have "s \<in> lang (upto_times (Suc n) (Cls pos rs)) \<longleftrightarrow>
      length s \<le> Suc n \<and> (\<forall>c \<in> set s. in_class pos rs c)" for s
    by (cases s) (auto simp: conc_class Suc.IH)
  then show ?case by blast
qed auto

lemma star_Cls: "star {[c] | c. P c} = {s. \<forall>c \<in> set s. P c}"
proof (intro equalityI subsetI)
  fix s assume "s \<in> star {[c] | c. P c}"
  then show "s \<in> {s. \<forall>c \<in> set s. P c}" by induction auto
next
  fix s assume "s \<in> {s. \<forall>c \<in> set s. P c}"
  then show "s \<in> star {[c] | c. P c}"
  proof (induction s)
    case (Cons c s)
    then have "[c] @ s \<in> star {[c] | c. P c}" by (intro star.star_app) auto
    then show ?case by simp
  qed auto
qed

lemma lang_Star_Cls: "lang (Star (Cls pos rs)) = {s. \<forall>c \<in> set s. in_class pos rs c}"
  by (simp add: star_Cls)

text \<open>Every character of a match comes from a class of the pattern.\<close>

fun alphabet :: "rx \<Rightarrow> char \<Rightarrow> bool" where
  "alphabet Void _ = False"
| "alphabet Eps _ = False"
| "alphabet (Cls pos rs) c = in_class pos rs c"
| "alphabet (Cat r q) c = (alphabet r c \<or> alphabet q c)"
| "alphabet (Alt r q) c = (alphabet r c \<or> alphabet q c)"
| "alphabet (Star r) c = alphabet r c"

lemma lang_alphabet: "s \<in> lang r \<Longrightarrow> c \<in> set s \<Longrightarrow> alphabet r c"
proof (induction r arbitrary: s)
  case (Star r)
  from Star.prems(1) have "s \<in> star (lang r)" by simp
  then show ?case using Star.prems(2) by induction (auto intro: Star.IH)
qed (fastforce simp: conc_def)+

lemma matches_alphabet: "matches r s \<Longrightarrow> c \<in> set s \<Longrightarrow> alphabet r c"
  by (auto simp: matches_lang intro: lang_alphabet)

end
