(* ===== verification/FileSystem.thy ===== *)
theory FileSystem
  imports Prelude "HOL-Library.AList" "HOL-Library.Sublist" "HOL-Library.Char_ord" "HOL-Library.List_Lexorder"
begin

unbundle bit_operations_syntax

text \<open>
  The operating system calls the program makes on its data directory, on a model of the file
  system: a finite list of absolute paths (lists of components) with their nodes, and the set of
  paths some process holds an exclusive \<open>flock\<close> on. Each call returns an error or a result with
  the new file system; failures of the device itself are added where the calls run (theory World).
\<close>

type_synonym path = "string list"

datatype ftype = Regular | Directory | Symlink | Special

record node =
  node_type :: ftype
  node_perm :: nat
  node_data :: string

record fs =
  entries :: "(path \<times> node) list"
  locks :: "path list"

definition fs_get :: "path \<Rightarrow> fs \<Rightarrow> node option" where
  "fs_get p f = map_of (entries f) p"

definition fs_put :: "path \<Rightarrow> node \<Rightarrow> fs \<Rightarrow> fs" where
  "fs_put p n f = f\<lparr>entries := AList.update p n (entries f)\<rparr>"

definition fs_del :: "path \<Rightarrow> fs \<Rightarrow> fs" where
  "fs_del p f = f\<lparr>entries := AList.delete p (entries f)\<rparr>"

definition fs_del_tree :: "path \<Rightarrow> fs \<Rightarrow> fs" where
  "fs_del_tree p f = f\<lparr>entries := filter (\<lambda>(q, _). \<not> prefix p q) (entries f)\<rparr>"

definition children :: "path \<Rightarrow> fs \<Rightarrow> string list" where
  "children p f = sort (remdups (map (last \<circ> fst)
     (filter (\<lambda>(q, _). q \<noteq> [] \<and> butlast q = p) (entries f))))"

definition file_node :: "nat \<Rightarrow> string \<Rightarrow> node" where
  "file_node perm s = \<lparr>node_type = Regular, node_perm = perm, node_data = s\<rparr>"

definition dir_node :: "nat \<Rightarrow> node" where
  "dir_node perm = \<lparr>node_type = Directory, node_perm = perm, node_data = ''''\<rparr>"

text \<open>\<open>mode.Perm() & 0077 != 0\<close>: the node is accessible to other users.\<close>

definition exposed :: "node \<Rightarrow> bool" where
  "exposed n \<longleftrightarrow> node_perm n AND 63 \<noteq> 0"

definition private_regular :: "node \<Rightarrow> bool" where
  "private_regular n \<longleftrightarrow> node_type n = Regular \<and> \<not> exposed n"

type_synonym 'a syscall = "fs \<Rightarrow> go_error + ('a \<times> fs)"

definition os_Lstat :: "path \<Rightarrow> node syscall" where
  "os_Lstat p f = (case fs_get p f of None \<Rightarrow> Inl ErrNotExist | Some n \<Rightarrow> Inr (n, f))"

definition is_dir :: "path \<Rightarrow> fs \<Rightarrow> bool" where
  "is_dir p f \<longleftrightarrow> p = [] \<or> (case fs_get p f of None \<Rightarrow> False | Some n \<Rightarrow> node_type n = Directory)"

definition os_Mkdir :: "path \<Rightarrow> nat \<Rightarrow> unit syscall" where
  "os_Mkdir p perm f =
     (if fs_get p f \<noteq> None then Inl ErrIO
      else if \<not> is_dir (butlast p) f then Inl ErrNotExist
      else Inr ((), fs_put p (dir_node perm) f))"

text \<open>\<open>os.MkdirAll\<close>: every missing prefix of the path is created.\<close>

fun mkdir_prefixes :: "path list \<Rightarrow> nat \<Rightarrow> unit syscall" where
  "mkdir_prefixes [] perm f = Inr ((), f)"
| "mkdir_prefixes (p # ps) perm f =
     (if is_dir p f then mkdir_prefixes ps perm f
      else case os_Mkdir p perm f of Inl e \<Rightarrow> Inl e | Inr (_, f') \<Rightarrow> mkdir_prefixes ps perm f')"

definition os_MkdirAll :: "path \<Rightarrow> nat \<Rightarrow> unit syscall" where
  "os_MkdirAll p perm = mkdir_prefixes (tl (prefixes p)) perm"

definition os_Remove :: "path \<Rightarrow> unit syscall" where
  "os_Remove p f =
     (case fs_get p f of
        None \<Rightarrow> Inl ErrNotExist
      | Some n \<Rightarrow> if node_type n = Directory \<and> children p f \<noteq> [] then Inl ErrIO
                 else Inr ((), fs_del p f))"

definition os_RemoveAll :: "path \<Rightarrow> unit syscall" where
  "os_RemoveAll p f = Inr ((), fs_del_tree p f)"

text \<open>\<open>os.Rename\<close> of a file; an existing file at the target is replaced.\<close>

definition os_Rename :: "path \<Rightarrow> path \<Rightarrow> unit syscall" where
  "os_Rename p q f =
     (case fs_get p f of
        None \<Rightarrow> Inl ErrNotExist
      | Some n \<Rightarrow>
          if node_type n = Directory \<or> is_dir q f then Inl ErrIO
          else if \<not> is_dir (butlast q) f then Inl ErrNotExist
          else Inr ((), fs_put q n (fs_del p f)))"

definition os_Chmod :: "path \<Rightarrow> nat \<Rightarrow> unit syscall" where
  "os_Chmod p perm f =
     (case fs_get p f of None \<Rightarrow> Inl ErrNotExist | Some n \<Rightarrow> Inr ((), fs_put p (n\<lparr>node_perm := perm\<rparr>) f))"

definition os_ReadFile :: "path \<Rightarrow> string syscall" where
  "os_ReadFile p f =
     (case fs_get p f of
        None \<Rightarrow> Inl ErrNotExist
      | Some n \<Rightarrow> if node_type n = Regular then Inr (node_data n, f) else Inl ErrIO)"

text \<open>\<open>os.OpenFile(p, O_CREATE|O_EXCL|O_WRONLY, perm)\<close>: an empty new file.\<close>

definition os_CreateExcl :: "path \<Rightarrow> nat \<Rightarrow> unit syscall" where
  "os_CreateExcl p perm f =
     (if fs_get p f \<noteq> None then Inl ErrIO
      else if \<not> is_dir (butlast p) f then Inl ErrNotExist
      else Inr ((), fs_put p (file_node perm '''') f))"

text \<open>Writing the content of an open regular file.\<close>

definition os_Write :: "path \<Rightarrow> string \<Rightarrow> unit syscall" where
  "os_Write p s f =
     (case fs_get p f of
        None \<Rightarrow> Inl ErrNotExist
      | Some n \<Rightarrow> if node_type n = Regular then Inr ((), fs_put p (n\<lparr>node_data := s\<rparr>) f) else Inl ErrIO)"

text \<open>\<open>os.OpenFile(p, O_CREATE|O_RDWR, perm)\<close>: opens the file, creating it when missing.\<close>

definition os_OpenCreate :: "path \<Rightarrow> nat \<Rightarrow> unit syscall" where
  "os_OpenCreate p perm f =
     (case fs_get p f of
        Some n \<Rightarrow> if node_type n = Directory then Inl ErrIO else Inr ((), f)
      | None \<Rightarrow> if is_dir (butlast p) f then Inr ((), fs_put p (file_node perm '''') f) else Inl ErrNotExist)"

text \<open>\<open>os.ReadDir\<close>: the names in order, each with its node.\<close>

definition os_ReadDir :: "path \<Rightarrow> (string \<times> node) list syscall" where
  "os_ReadDir p f =
     (if \<not> is_dir p f then Inl ErrNotExist
      else Inr (concat (map (\<lambda>c. case fs_get (p @ [c]) f of None \<Rightarrow> [] | Some n \<Rightarrow> [(c, n)]) (children p f)), f))"

text \<open>\<open>syscall.Flock(fd, LOCK_EX|LOCK_NB)\<close>\<close>

definition os_Flock :: "path \<Rightarrow> unit syscall" where
  "os_Flock p f = (if p \<in> set (locks f) then Inl ErrIO else Inr ((), f\<lparr>locks := p # locks f\<rparr>))"

definition os_Unlock :: "path \<Rightarrow> fs \<Rightarrow> fs" where
  "os_Unlock p f = f\<lparr>locks := removeAll p (locks f)\<rparr>"

section \<open>Reading back\<close>

lemma fs_get_put [simp]: "fs_get q (fs_put p n f) = (if q = p then Some n else fs_get q f)"
  by (simp add: fs_get_def fs_put_def update_conv')

lemma fs_get_del [simp]: "fs_get q (fs_del p f) = (if q = p then None else fs_get q f)"
  by (simp add: fs_get_def fs_del_def delete_conv')

lemma fs_get_del_tree [simp]:
  "fs_get q (fs_del_tree p f) = (if prefix p q then None else fs_get q f)"
proof -
  have "map_of (filter (\<lambda>(q, _). \<not> prefix p q) xs) q = (if prefix p q then None else map_of xs q)" for xs :: "(path \<times> node) list"
    by (induction xs) auto
  then show ?thesis by (simp add: fs_get_def fs_del_tree_def)
qed

lemma fs_get_locks [simp]: "fs_get p (f\<lparr>locks := ls\<rparr>) = fs_get p f"
  by (simp add: fs_get_def)

lemma fs_get_Some: "fs_get p f = Some n \<Longrightarrow> (p, n) \<in> set (entries f)"
  by (auto simp: fs_get_def dest: map_of_SomeD)

lemma fs_get_None: "fs_get p f = None \<longleftrightarrow> p \<notin> fst ` set (entries f)"
  by (simp add: fs_get_def map_of_eq_None_iff)

lemma set_children: "set (children p f) = {c. fs_get (p @ [c]) f \<noteq> None}"
proof -
  have "c \<in> set (children p f) \<longleftrightarrow> p @ [c] \<in> fst ` set (entries f)" for c
  proof
    assume "c \<in> set (children p f)"
    then obtain q n where "(q, n) \<in> set (entries f)" "q \<noteq> []" "butlast q = p" "last q = c"
      by (auto simp: children_def)
    then show "p @ [c] \<in> fst ` set (entries f)"
      by (metis append_butlast_last_id fst_conv image_eqI)
  qed (force simp: children_def)
  then show ?thesis by (auto simp: fs_get_None)
qed

end
