(* ===== verification/Layout.thy ===== *)
theory Layout
  imports GoRegexp FileSystem JobStore
begin

text \<open>
  Names in the private data directory (\<open>internal/storage/storage.go\<close>): the pattern of opaque
  identifiers, \<open>ValidID\<close>, the paths \<open>Store.Path\<close> builds and the generated names the temporary
  directory may hold. The two facts that matter to the rest of the program are that identifiers
  made by \<open>NewID\<close> are valid and that a path built by \<open>Path\<close> is the directory, one of three fixed
  kinds and one component without separators or dots.
\<close>

section \<open>Identifiers\<close>

text \<open>\<open>^[a-f0-9]{32}$\<close>\<close>

definition idPattern :: rx where
  "idPattern = rep 32 (Cls True [(CHR ''a'', CHR ''f''), (CHR ''0'', CHR ''9'')])"

definition ValidID :: "string \<Rightarrow> bool" where
  "ValidID i = matches idPattern i"

definition lower_hex :: "char \<Rightarrow> bool" where
  "lower_hex c \<longleftrightarrow> c \<in> set ''0123456789abcdef''"

lemma in_class_hex: "in_class True [(CHR ''a'', CHR ''f''), (CHR ''0'', CHR ''9'')] c = lower_hex c"
proof -
  have "expand_ranges [(CHR ''a'', CHR ''f''), (CHR ''0'', CHR ''9'')] = ''abcdef0123456789''"
    by code_simp
  then show ?thesis by (auto simp: in_class_def in_ranges_expand lower_hex_def)
qed

lemma ValidID_iff: "ValidID i \<longleftrightarrow> length i = 32 \<and> (\<forall>c \<in> set i. lower_hex c)"
  by (simp add: ValidID_def idPattern_def matches_lang lang_rep_Cls in_class_hex del: rep.simps)

lemma hex_digit_lower: "lower_hex (hex_digit n)"
proof -
  have "n mod 16 < length ''0123456789abcdef''" by simp
  then show ?thesis unfolding lower_hex_def hex_digit_def by (rule nth_mem)
qed

lemma length_hex_encode: "length (hex_encode bs) = 2 * length bs"
  by (induction bs) (auto simp: hex_encode_def)

lemma lower_hex_encode: "c \<in> set (hex_encode bs) \<Longrightarrow> lower_hex c"
  by (auto simp: hex_encode_def hex_digit_lower)

lemma ValidID_NewID: "ValidID (NewID r)"
  by (auto simp: ValidID_iff NewID_def random_bytes_def length_hex_encode lower_hex_encode
      simp del: upt.simps)

lemma ValidID_nonempty: "ValidID i \<Longrightarrow> i \<noteq> ''''"
  by (auto simp: ValidID_iff)

section \<open>Paths\<close>

text \<open>\<open>Store.Path\<close>\<close>

definition Path :: "path \<Rightarrow> string \<Rightarrow> string \<Rightarrow> go_error + path" where
  "Path root kind i =
     (if \<not> ValidID i then Inl (ErrText ''invalid opaque ID'')
      else if kind \<notin> {''work'', ''inputs'', ''artifacts''} then Inl (ErrText ''invalid storage kind'')
      else Inr (root @ [kind, i]))"

lemma Path_Inr: "Path root kind i = Inr p \<longleftrightarrow>
    ValidID i \<and> kind \<in> {''work'', ''inputs'', ''artifacts''} \<and> p = root @ [kind, i]"
  by (auto simp: Path_def)

section \<open>Temporary files of the library\<close>

text \<open>\<open>^ipadecrypt-patched-[0-9]+\.ipa$\<close>\<close>

definition tmpPattern :: rx where
  "tmpPattern = Cat (lits ''ipadecrypt-patched-'')
     (Cat (rx_plus (Cls True [(CHR ''0'', CHR ''9'')])) (lits ''.ipa''))"

definition allowed_tmp :: "string \<Rightarrow> bool" where
  "allowed_tmp n = matches tmpPattern n"

end
