(* ===== verification/Slot.thy ===== *)
theory Slot
  imports Prelude
begin

text \<open>
  A slot with room for one holder, as the 2FA broker and the HTTP job scope both are. The locale
  \<open>exclusive_slot\<close> states the contract of its two operations; theories Broker and Transport interpret
  it, and what follows from the contract for any sequence of calls is proved here once.
\<close>

datatype 'k slot_op = Acquire 'k | Release

text \<open>A sequence of calls: the keys that were let in, in order, and the final state.\<close>

fun slot_run ::
  "('k \<Rightarrow> 's \<Rightarrow> go_error + 's) \<Rightarrow> ('s \<Rightarrow> 's) \<Rightarrow> 'k slot_op list \<Rightarrow> 's \<Rightarrow> 'k list \<times> 's" where
  "slot_run acq rel [] s = ([], s)"
| "slot_run acq rel (Acquire k # ops) s =
     (case acq k s of
        Inl _ \<Rightarrow> slot_run acq rel ops s
      | Inr s' \<Rightarrow> (case slot_run acq rel ops s' of (ks, t) \<Rightarrow> (k # ks, t)))"
| "slot_run acq rel (Release # ops) s = slot_run acq rel ops (rel s)"

lemma slot_run_append:
  "slot_run acq rel (xs @ ys) s =
     (case slot_run acq rel xs s of (ks, t) \<Rightarrow> (case slot_run acq rel ys t of (js, u) \<Rightarrow> (ks @ js, u)))"
proof (induction xs arbitrary: s)
  case (Cons op xs)
  then show ?case by (cases op) (auto split: sum.split prod.split)
qed (simp split: prod.split)

locale exclusive_slot =
  fixes acquire :: "'k \<Rightarrow> 's \<Rightarrow> go_error + 's" and release :: "'s \<Rightarrow> 's" and held :: "'s \<Rightarrow> 'k option"
  assumes acquire_free: "held s = None \<Longrightarrow> \<exists>s'. acquire k s = Inr s' \<and> held s' = Some k"
    and acquire_held: "held s = Some j \<Longrightarrow> \<exists>e. acquire k s = Inl e"
    and release_free: "held (release s) = None"
begin

lemma acquire_iff: "(\<exists>s'. acquire k s = Inr s') \<longleftrightarrow> held s = None"
  using acquire_free [of s k] acquire_held [of s _ k] by (cases "held s") auto

lemma acquire_holds: "acquire k s = Inr s' \<Longrightarrow> held s = None \<and> held s' = Some k"
  using acquire_free [of s k] acquire_held [of s _ k] by (cases "held s") auto

lemma acquire_refused: "held s = Some j \<Longrightarrow> acquire k s \<noteq> Inr s'"
  using acquire_holds [of k s s'] by auto

text \<open>Until the holder releases the slot nobody else is let in.\<close>

lemma nobody_else:
  "held s = Some j \<Longrightarrow> Release \<notin> set ops \<Longrightarrow> slot_run acquire release ops s = ([], s)"
proof (induction ops)
  case (Cons op ops)
  then show ?case by (cases op) (auto split: sum.split simp: acquire_refused)
qed simp

text \<open>However the calls are ordered, those let in are at most one more than the releases.\<close>

lemma bounded_by_releases:
  "slot_run acquire release ops s = (ks, t) \<Longrightarrow>
   length ks + (if held s = None then 0 else 1) \<le> length (filter (\<lambda>op. op = Release) ops) + (if held t = None then 0 else 1)"
proof (induction ops arbitrary: s ks)
  case (Cons op ops)
  show ?case
  proof (cases op)
    case (Acquire k)
    show ?thesis
    proof (cases "acquire k s")
      case (Inl e)
      then show ?thesis using Cons Acquire by auto
    next
      case (Inr s')
      then obtain js where "slot_run acquire release ops s' = (js, t)" "ks = k # js"
        using Cons.prems Acquire by (auto split: prod.splits)
      then show ?thesis
        using Cons.IH [of s' js] acquire_holds [OF Inr] Acquire by auto
    qed
  next
    case Release
    then show ?thesis using Cons.IH [of "release s" ks] Cons.prems release_free [of s] by auto
  qed
qed simp

text \<open>A release lets the next caller in.\<close>

lemma release_lets_in: "\<exists>u. slot_run acquire release [Release, Acquire k] s = ([k], u) \<and> held u = Some k"
  using acquire_free [OF release_free, of k s] by auto

end

end
