(* ===== verification/Broker.thy ===== *)
theory Broker
  imports Slot GoRegexp
begin

text \<open>
  The 2FA broker of \<open>internal/secrets/store.go\<close>: at most one challenge at a time, a channel of
  capacity one that carries the operator's code to it. \<open>Request\<close> blocks, so it is modelled by its
  three atomic parts (the locked prologue, the receive of its \<open>select\<close>, the deferred reset); the
  step relation \<open>broker_step\<close> interleaves them with any number of \<open>Submit\<close> calls.
\<close>

text \<open>\<open>br_ch\<close>: \<open>None\<close> is the nil channel, \<open>Some None\<close> an empty one, \<open>Some (Some c)\<close> holds a code.\<close>

record broker =
  br_job :: string
  br_ch :: "string option option"

definition idle_broker :: broker where
  "idle_broker = \<lparr>br_job = '''', br_ch = None\<rparr>"

definition Pending :: "broker \<Rightarrow> string" where
  "Pending b = br_job b"

text \<open>\<open>Broker.Request\<close>: the locked prologue.\<close>

definition Request_begin :: "string \<Rightarrow> broker \<Rightarrow> go_error + broker" where
  "Request_begin i b =
     (case br_ch b of
        Some _ \<Rightarrow> Inl (ErrText ''authentication already pending'')
      | None \<Rightarrow> Inr (b\<lparr>br_job := i, br_ch := Some None\<rparr>))"

text \<open>The branch \<open>case code := <-ch\<close> of its \<open>select\<close>, when it is ready.\<close>

definition Request_receive :: "broker \<Rightarrow> (string \<times> broker) option" where
  "Request_receive b =
     (case br_ch b of Some (Some c) \<Rightarrow> Some (c, b\<lparr>br_ch := Some None\<rparr>) | _ \<Rightarrow> None)"

text \<open>The deferred reset.\<close>

definition Request_end :: "broker \<Rightarrow> broker" where
  "Request_end b = b\<lparr>br_job := '''', br_ch := None\<rparr>"

definition digit :: "char \<Rightarrow> bool" where
  "digit c \<longleftrightarrow> \<not> (of_char c < (of_char CHR ''0'' :: nat) \<or> (of_char CHR ''9'' :: nat) < of_char c)"

definition Submit :: "string \<Rightarrow> string \<Rightarrow> broker \<Rightarrow> go_error + broker" where
  "Submit i code b =
     (if br_job b \<noteq> i then Inl (ErrText ''no matching challenge'')
      else case br_ch b of
        None \<Rightarrow> Inl (ErrText ''no matching challenge'')
      | Some slot \<Rightarrow>
          if length code \<noteq> 6 then Inl (ErrText ''code must contain six digits'')
          else if \<not> list_all digit code then Inl (ErrText ''code must contain six digits'')
          else case slot of
            None \<Rightarrow> Inr (b\<lparr>br_ch := Some (Some code)\<rparr>)
          | Some _ \<Rightarrow> Inl (ErrText ''code already submitted''))"

lemma digit_iff: "digit c \<longleftrightarrow> c \<in> set ''0123456789''"
proof -
  have "digit c \<longleftrightarrow> in_ranges [(CHR ''0'', CHR ''9'')] c"
    by (auto simp: digit_def in_ranges_def)
  also have "\<dots> \<longleftrightarrow> c \<in> set (expand_ranges [(CHR ''0'', CHR ''9'')])" by (rule in_ranges_expand)
  also have "expand_ranges [(CHR ''0'', CHR ''9'')] = ''0123456789''" by code_simp
  finally show ?thesis .
qed

lemma Submit_Inr: "Submit i code b = Inr b' \<longleftrightarrow>
    br_job b = i \<and> br_ch b = Some None \<and> length code = 6 \<and> list_all digit code
    \<and> b' = b\<lparr>br_ch := Some (Some code)\<rparr>"
  by (auto simp: Submit_def split: option.splits)

text \<open>The challenge as an exclusive slot: the job that is waiting for a code.\<close>

definition challenged :: "broker \<Rightarrow> string option" where
  "challenged b = (case br_ch b of None \<Rightarrow> None | Some _ \<Rightarrow> Some (br_job b))"

interpretation challenge_slot: exclusive_slot Request_begin Request_end challenged
  by unfold_locales
    (auto simp: challenged_def Request_begin_def Request_end_def split: option.splits)

section \<open>Interleavings\<close>

text \<open>
  The system of the broker and its request: \<open>pc\<close> is where the one call that got past the prologue
  stands; \<open>accepted\<close> and \<open>delivered\<close> are the histories of codes \<open>Submit\<close> accepted and of codes
  handed to a request, each with the job it was for. Between the receive and the reset the
  channel is still installed, so \<open>Submit\<close> can run there too.
\<close>

datatype request_pc = Idle | Waiting string | Returning string

record challenge =
  br :: broker
  pc :: request_pc
  accepted :: "(string \<times> string) list"
  delivered :: "(string \<times> string) list"

inductive broker_step :: "challenge \<Rightarrow> challenge \<Rightarrow> bool" where
  request: "Request_begin i (br s) = Inr b \<Longrightarrow> broker_step s (s\<lparr>br := b, pc := Waiting i\<rparr>)"
| refused: "Request_begin i (br s) = Inl e \<Longrightarrow> broker_step s s"
| submit: "Submit i code (br s) = Inr b \<Longrightarrow>
     broker_step s (s\<lparr>br := b, accepted := (i, code) # accepted s\<rparr>)"
| rejected: "Submit i code (br s) = Inl e \<Longrightarrow> broker_step s s"
| receive: "pc s = Waiting i \<Longrightarrow> Request_receive (br s) = Some (code, b) \<Longrightarrow>
     broker_step s (s\<lparr>br := b, pc := Returning i, delivered := (i, code) # delivered s\<rparr>)"
| cancelled: "pc s = Waiting i \<Longrightarrow> broker_step s (s\<lparr>pc := Returning i\<rparr>)"
| reset: "pc s = Returning i \<Longrightarrow> broker_step s (s\<lparr>br := Request_end (br s), pc := Idle\<rparr>)"

definition broker_init :: challenge where
  "broker_init = \<lparr>br = idle_broker, pc = Idle, accepted = [], delivered = []\<rparr>"

inductive broker_reachable :: "challenge \<Rightarrow> bool" where
  init: "broker_reachable broker_init"
| step: "broker_reachable s \<Longrightarrow> broker_step s t \<Longrightarrow> broker_reachable t"

text \<open>The channel belongs to the call in progress, and holds only a code accepted for its job.\<close>

definition channel_ok :: "challenge \<Rightarrow> bool" where
  "channel_ok s \<longleftrightarrow>
     (case pc s of
        Idle \<Rightarrow> br s = idle_broker
      | Waiting i \<Rightarrow> br_job (br s) = i \<and> br_ch (br s) \<noteq> None
      | Returning i \<Rightarrow> br_job (br s) = i \<and> br_ch (br s) \<noteq> None)
     \<and> (\<forall>c. br_ch (br s) = Some (Some c) \<longrightarrow> (br_job (br s), c) \<in> set (accepted s))"

definition codes_ok :: "challenge \<Rightarrow> bool" where
  "codes_ok s \<longleftrightarrow> set (delivered s) \<subseteq> set (accepted s)
     \<and> (\<forall>(i, c) \<in> set (accepted s). length c = 6 \<and> list_all digit c)"

lemmas broker_defs = channel_ok_def codes_ok_def Request_begin_def Request_receive_def
  Request_end_def idle_broker_def Submit_Inr

lemma broker_step_inv:
  "broker_step s t \<Longrightarrow> channel_ok s \<and> codes_ok s \<Longrightarrow> channel_ok t \<and> codes_ok t"
  by (induction rule: broker_step.induct)
    (auto simp: broker_defs split: option.splits request_pc.splits)

lemma broker_reachable_inv: "broker_reachable s \<Longrightarrow> channel_ok s \<and> codes_ok s"
proof (induction rule: broker_reachable.induct)
  case init
  show ?case by (simp add: broker_init_def broker_defs)
next
  case (step s t)
  show ?case by (rule broker_step_inv [OF step.hyps(2) step.IH])
qed

section \<open>Properties\<close>

text \<open>
  C26. However \<open>Request\<close>, \<open>Submit\<close> and cancellations interleave, a code handed to a request was
  submitted for that request's job and consists of six digits; a submitted code waits only for the
  job that is pending; while a job is pending no other request gets in, and a code for any other job is
  refused.
\<close>

theorem challenge_codes:
  assumes "broker_reachable s"
  shows "(\<forall>(i, c) \<in> set (delivered s). (i, c) \<in> set (accepted s) \<and> length c = 6 \<and> list_all digit c)
    \<and> (br_ch (br s) = Some (Some c) \<longrightarrow> (Pending (br s), c) \<in> set (accepted s))
    \<and> (pc s \<noteq> Idle \<longrightarrow> (\<exists>e. Request_begin i (br s) = Inl e))
    \<and> (pc s = Idle \<longrightarrow> Pending (br s) = '''')
    \<and> (i \<noteq> Pending (br s) \<longrightarrow> (\<exists>e. Submit i code (br s) = Inl e))"
proof -
  have ok: "channel_ok s" "codes_ok s" using broker_reachable_inv [OF assms] by auto
  have busy: "\<exists>e. Request_begin i (br s) = Inl e" if pc: "pc s \<noteq> Idle"
  proof -
    obtain j where "challenged (br s) = Some j"
      using ok(1) pc
      by (cases "pc s"; cases "br_ch (br s)") (auto simp: channel_ok_def challenged_def)
    then show ?thesis by (rule challenge_slot.acquire_held)
  qed
  show ?thesis
    using ok busy
    by (auto simp: codes_ok_def channel_ok_def Pending_def idle_broker_def Submit_def)
qed

theorem challenge_codes_witness:
  "\<exists>s. broker_reachable s \<and> delivered s = [(''job'', ''123456'')]
    \<and> (''job'', ''123456'') \<in> set (accepted s)"
proof -
  let ?b = "\<lparr>br_job = ''job'', br_ch = Some None\<rparr>"
  let ?s1 = "broker_init\<lparr>br := ?b, pc := Waiting ''job''\<rparr>"
  let ?s2 = "?s1\<lparr>br := ?b\<lparr>br_ch := Some (Some ''123456'')\<rparr>, accepted := [(''job'', ''123456'')]\<rparr>"
  let ?s3 = "?s2\<lparr>br := ?b, pc := Returning ''job'', delivered := [(''job'', ''123456'')]\<rparr>"
  have r1: "broker_reachable ?s1"
    using broker_reachable.step [OF broker_reachable.init broker_step.request [of "''job''" broker_init ?b]]
    by (simp add: broker_init_def Request_begin_def idle_broker_def)
  have "Submit ''job'' ''123456'' (br ?s1) = Inr (?b\<lparr>br_ch := Some (Some ''123456'')\<rparr>)"
    by (simp add: Submit_Inr digit_def)
  from broker_reachable.step [OF r1 broker_step.submit [OF this]]
  have r2: "broker_reachable ?s2" by (simp add: broker_init_def)
  have "Request_receive (br ?s2) = Some (''123456'', ?b)" by (simp add: Request_receive_def)
  from broker_reachable.step [OF r2 broker_step.receive [OF _ this]]
  have r3: "broker_reachable ?s3" by (simp add: broker_init_def)
  have "(''job'', ''123456'') \<in> set (accepted ?s3)"
    using challenge_codes [OF r3, of "''123456''" "''x''" "''''"] by simp
  then show ?thesis using r3 by (intro exI [of _ ?s3]) simp
qed

end
