(* ===== verification/Transport.thy ===== *)
theory Transport
  imports Slot
begin

text \<open>
  The HTTP transport that binds the library's requests to the running job
  (\<open>internal/engine/transport.go\<close>). \<open>'c\<close> is the type of job contexts. A request is followed from the
  moment \<open>RoundTrip\<close> found an active scope: the \<open>AfterFunc\<close> hook that cancels it when the job ends, the
  call of the base transport, and the response body that releases the hook when it is exhausted,
  broken or closed. Every function runs under the mutex or touches one request only.
\<close>

datatype http_phase = InBase | Broken | BodyOpen

record 'c http_request =
  hr_job :: 'c
  hr_hooked :: bool
  hr_cancelled :: bool
  hr_phase :: http_phase
  hr_once :: bool
  hr_releases :: nat

record 'c transport =
  tr_active :: "'c option"
  tr_requests :: "'c http_request list"

definition idle_transport :: "'c transport" where
  "idle_transport = \<lparr>tr_active = None, tr_requests = []\<rparr>"

definition Scope :: "'c \<Rightarrow> 'c transport \<Rightarrow> go_error + 'c transport" where
  "Scope c t =
     (case tr_active t of
        Some _ \<Rightarrow> Inl (ErrText ''HTTP job scope already active'')
      | None \<Rightarrow> Inr (t\<lparr>tr_active := Some c\<rparr>))"

text \<open>The function \<open>Scope\<close> returns.\<close>

definition Scope_release :: "'c transport \<Rightarrow> 'c transport" where
  "Scope_release t = t\<lparr>tr_active := None\<rparr>"

text \<open>\<open>release := func() { stop(); cancel() }\<close>\<close>

definition hook_release :: "'c http_request \<Rightarrow> 'c http_request" where
  "hook_release r = r\<lparr>hr_hooked := False, hr_cancelled := True, hr_releases := hr_releases r + 1\<rparr>"

text \<open>The hook's goroutine, once the job's context is done.\<close>

definition hook_fires :: "'c http_request \<Rightarrow> 'c http_request" where
  "hook_fires r = (if hr_hooked r then r\<lparr>hr_hooked := False, hr_cancelled := True\<rparr> else r)"

text \<open>\<open>RoundTrip\<close> up to the call of the base transport; the result is the index of the request.\<close>

definition RoundTrip_begin ::
  "bool \<Rightarrow> ('c \<Rightarrow> bool) \<Rightarrow> 'c transport \<Rightarrow> (go_error + nat) \<times> 'c transport" where
  "RoundTrip_begin has_base job_done t =
     (case tr_active t of
        None \<Rightarrow> (Inl (ErrText ''HTTP request outside an active job''), t)
      | Some job \<Rightarrow>
          let r = \<lparr>hr_job = job, hr_hooked = True, hr_cancelled = job_done job, hr_phase = InBase,
                   hr_once = False, hr_releases = 0\<rparr>
          in if \<not> has_base
             then (Inl (ErrText ''missing base transport''),
                   t\<lparr>tr_requests := tr_requests t @ [hook_release (r\<lparr>hr_phase := Broken\<rparr>)]\<rparr>)
             else (Inr (length (tr_requests t)), t\<lparr>tr_requests := tr_requests t @ [r]\<rparr>))"

text \<open>\<open>RoundTrip\<close> after it: an error releases the hook, a response hands it to the body.\<close>

definition RoundTrip_end :: "bool \<Rightarrow> 'c http_request \<Rightarrow> 'c http_request" where
  "RoundTrip_end failed r = (if failed then hook_release (r\<lparr>hr_phase := Broken\<rparr>) else r\<lparr>hr_phase := BodyOpen\<rparr>)"

text \<open>\<open>b.once.Do(b.release)\<close>\<close>

definition body_once :: "'c http_request \<Rightarrow> 'c http_request" where
  "body_once r = (if hr_once r then r else (hook_release r)\<lparr>hr_once := True\<rparr>)"

definition body_Read :: "nat \<times> error \<Rightarrow> 'c http_request \<Rightarrow> (nat \<times> error) \<times> 'c http_request" where
  "body_Read res r = (res, if snd res \<noteq> None then body_once r else r)"

definition body_Close :: "error \<Rightarrow> 'c http_request \<Rightarrow> error \<times> 'c http_request" where
  "body_Close e r = (e, body_once r)"

section \<open>The scope as an exclusive slot\<close>

interpretation scope: exclusive_slot Scope Scope_release tr_active
  by unfold_locales (auto simp: Scope_def Scope_release_def)

section \<open>Requests under any interleaving\<close>

text \<open>
  \<open>granted\<close>: the contexts that ever got the scope; \<open>ended\<close>: those that are done; \<open>seen_ends\<close>: the requests the
  library has seen the end of, as they came: a failed \<open>RoundTrip\<close>, a \<open>Read\<close> that reported an error or the end of
  the body, a \<open>Close\<close>. None of the three is read or written by the code. Several jobs follow one another;
  requests of an earlier one may still be open while a later one holds the scope.
\<close>

record 'c http_system =
  tp :: "'c transport"
  granted :: "'c list"
  ended :: "'c list"
  seen_ends :: "nat list"

definition on_request :: "nat \<Rightarrow> ('c http_request \<Rightarrow> 'c http_request) \<Rightarrow> 'c http_system \<Rightarrow> 'c http_system" where
  "on_request i f s =
     s\<lparr>tp := (tp s)\<lparr>tr_requests := (tr_requests (tp s))[i := f (tr_requests (tp s) ! i)]\<rparr>\<rparr>"

definition in_phase :: "http_phase \<Rightarrow> nat \<Rightarrow> 'c http_system \<Rightarrow> bool" where
  "in_phase p i s \<longleftrightarrow> i < length (tr_requests (tp s)) \<and> hr_phase (tr_requests (tp s) ! i) = p"

text \<open>The history: request \<open>i\<close> is seen to end in this step, when \<open>b\<close>.\<close>

definition seen_over :: "nat \<Rightarrow> bool \<Rightarrow> 'c http_system \<Rightarrow> 'c http_system" where
  "seen_over i b s = (if b then s\<lparr>seen_ends := i # seen_ends s\<rparr> else s)"

inductive http_step :: "'c http_system \<Rightarrow> 'c http_system \<Rightarrow> bool" where
  scope: "Scope c (tp s) = Inr t \<Longrightarrow> http_step s (s\<lparr>tp := t, granted := c # granted s\<rparr>)"
| unscope: "http_step s (s\<lparr>tp := Scope_release (tp s)\<rparr>)"
| job_ends: "http_step s (s\<lparr>ended := c # ended s\<rparr>)"
| request: "RoundTrip_begin b (\<lambda>c. c \<in> set (ended s)) (tp s) = (Inr i, t) \<Longrightarrow> http_step s (s\<lparr>tp := t\<rparr>)"
| refused: "RoundTrip_begin b (\<lambda>c. c \<in> set (ended s)) (tp s) = (Inl e, t) \<Longrightarrow>
     http_step s (s\<lparr>tp := t, seen_ends := [length (tr_requests (tp s)) ..< length (tr_requests t)] @ seen_ends s\<rparr>)"
| answer: "in_phase InBase i s \<Longrightarrow> http_step s (seen_over i failed (on_request i (RoundTrip_end failed) s))"
| read: "in_phase BodyOpen i s \<Longrightarrow>
     http_step s (seen_over i (snd res \<noteq> None) (on_request i (\<lambda>r. snd (body_Read res r)) s))"
| close: "in_phase BodyOpen i s \<Longrightarrow> http_step s (seen_over i True (on_request i (\<lambda>r. snd (body_Close e r)) s))"
| hook: "i < length (tr_requests (tp s)) \<Longrightarrow> hr_job (tr_requests (tp s) ! i) \<in> set (ended s) \<Longrightarrow>
     http_step s (on_request i hook_fires s)"

definition http_init :: "'c http_system" where
  "http_init = \<lparr>tp = idle_transport, granted = [], ended = [], seen_ends = []\<rparr>"

inductive http_reachable :: "'c http_system \<Rightarrow> bool" where
  init: "http_reachable http_init"
| step: "http_reachable s \<Longrightarrow> http_step s t \<Longrightarrow> http_reachable t"

inductive_cases http_stepE: "http_step s t"

text \<open>
  A request and whether its end was seen: its hook is released exactly when it was, and then once; until
  then the hook is armed unless it has already cancelled the request.
\<close>

definition request_ok :: "bool \<Rightarrow> 'c http_request \<Rightarrow> bool" where
  "request_ok fin r \<longleftrightarrow> hr_releases r = (if fin then 1 else 0)
     \<and> (hr_hooked r \<or> hr_cancelled r) \<and> (fin \<longrightarrow> \<not> hr_hooked r)
     \<and> (hr_phase r = InBase \<longrightarrow> \<not> fin) \<and> (hr_phase r = Broken \<longrightarrow> fin)
     \<and> hr_once r = (fin \<and> hr_phase r = BodyOpen)"

definition http_ok :: "'c http_system \<Rightarrow> bool" where
  "http_ok s \<longleftrightarrow> (\<forall>i < length (tr_requests (tp s)). request_ok (i \<in> set (seen_ends s)) (tr_requests (tp s) ! i)
       \<and> hr_job (tr_requests (tp s) ! i) \<in> set (granted s))
     \<and> (\<forall>i \<in> set (seen_ends s). i < length (tr_requests (tp s)))
     \<and> (\<forall>c. tr_active (tp s) = Some c \<longrightarrow> c \<in> set (granted s))"

lemmas request_defs = request_ok_def hook_release_def hook_fires_def RoundTrip_end_def
  body_once_def body_Read_def body_Close_def

lemma request_ok_step:
  assumes "request_ok fin r"
  shows "hr_phase r = InBase \<Longrightarrow> request_ok (fin \<or> failed) (RoundTrip_end failed r)"
    and "hr_phase r = BodyOpen \<Longrightarrow> request_ok (fin \<or> snd res \<noteq> None) (snd (body_Read res r))"
    and "hr_phase r = BodyOpen \<Longrightarrow> request_ok (fin \<or> True) (snd (body_Close e r))"
    and "request_ok fin (hook_fires r)"
  using assms by (auto simp: request_defs split: if_splits)

lemma request_job [simp]:
  "hr_job (RoundTrip_end failed r) = hr_job r" "hr_job (snd (body_Read res r)) = hr_job r"
  "hr_job (snd (body_Close e r)) = hr_job r" "hr_job (hook_fires r) = hr_job r"
  by (simp_all add: request_defs)

lemma on_request_ok:
  assumes "http_ok s" "i < length (tr_requests (tp s))"
    "request_ok (i \<in> set (seen_ends s) \<or> b) (f (tr_requests (tp s) ! i))" "\<And>r. hr_job (f r) = hr_job r"
  shows "http_ok (seen_over i b (on_request i f s))"
  using assms unfolding http_ok_def on_request_def seen_over_def
  by (cases b) (auto simp: nth_list_update)

lemma http_ok_nth:
  "http_ok s \<Longrightarrow> i < length (tr_requests (tp s)) \<Longrightarrow> request_ok (i \<in> set (seen_ends s)) (tr_requests (tp s) ! i)"
  by (simp add: http_ok_def)

lemma seen_over_False [simp]: "seen_over i False s = s"
  by (simp add: seen_over_def)

text \<open>A new request: one more at the end, over at once exactly when it was refused.\<close>

lemma new_request:
  assumes "http_ok s" "tr_active (tp s) = Some c" "request_ok fin r" "hr_job r = c"
  shows "http_ok (s\<lparr>tp := (tp s)\<lparr>tr_requests := tr_requests (tp s) @ [r]\<rparr>,
    seen_ends := (if fin then [length (tr_requests (tp s))] else []) @ seen_ends s\<rparr>)"
proof -
  have "length (tr_requests (tp s)) \<notin> set (seen_ends s)" using assms(1) by (auto simp: http_ok_def)
  then show ?thesis
    using assms by (auto simp: http_ok_def nth_append less_Suc_eq)
qed

lemma begin_ok:
  assumes "http_ok s" "RoundTrip_begin b done (tp s) = (x, t)"
  shows "http_ok (s\<lparr>tp := t, seen_ends := (case x of Inl _ \<Rightarrow> [length (tr_requests (tp s)) ..< length (tr_requests t)]
     | Inr _ \<Rightarrow> []) @ seen_ends s\<rparr>)"
proof (cases "tr_active (tp s)")
  case None
  then show ?thesis using assms by (auto simp: RoundTrip_begin_def)
next
  case (Some c)
  let ?r = "\<lparr>hr_job = c, hr_hooked = True, hr_cancelled = done c, hr_phase = InBase, hr_once = False, hr_releases = 0\<rparr>"
  have "request_ok False ?r" "request_ok True (hook_release (?r\<lparr>hr_phase := Broken\<rparr>))"
    by (simp_all add: request_defs)
  from new_request [OF assms(1) Some this(1)] new_request [OF assms(1) Some this(2)]
  show ?thesis
    using assms(2) Some by (auto simp: RoundTrip_begin_def Let_def hook_release_def split: if_splits)
qed

lemma http_step_ok: "http_step s t \<Longrightarrow> http_ok s \<Longrightarrow> http_ok t"
proof (induction rule: http_step.induct)
  case (scope c s t)
  then show ?case by (auto simp: http_ok_def Scope_def split: option.splits)
next
  case (request b s i t)
  then show ?case using begin_ok [OF request(2,1)] by simp
next
  case (refused b s e t)
  then show ?case using begin_ok [OF refused(2,1)] by simp
next
  case (answer i s failed)
  then show ?case
    by (intro on_request_ok request_ok_step(1) http_ok_nth) (simp_all add: in_phase_def)
next
  case (read i s res)
  then show ?case
    by (intro on_request_ok request_ok_step(2) http_ok_nth) (simp_all add: in_phase_def)
next
  case (close i s e)
  then show ?case
    by (intro on_request_ok request_ok_step(3) http_ok_nth) (simp_all add: in_phase_def)
next
  case (hook i s)
  then have "http_ok (seen_over i False (on_request i hook_fires s))"
    by (intro on_request_ok) (simp_all add: request_ok_step(4) http_ok_nth)
  then show ?case by simp
qed (auto simp: http_ok_def Scope_release_def)

lemma http_reachable_ok: "http_reachable s \<Longrightarrow> http_ok s"
proof (induction rule: http_reachable.induct)
  case init
  show ?case by (simp add: http_init_def http_ok_def idle_transport_def)
next
  case (step s t)
  show ?case by (rule http_step_ok [OF step.hyps(2) step.IH])
qed

section \<open>Properties\<close>

text \<open>
  C27. Under any interleaving of scopes, requests, responses, reads and closes: every request belongs to a
  job that was granted the scope. Its cancellation hook is released exactly once if the library has seen its
  end (an error of the round trip, an error or the end of the body on a read, or a close), however many
  of these came, and then it is disarmed and the request's context cancelled; before that it is not released,
  and it is armed unless the end of the job has already cancelled the request. While a job holds the scope no
  other job gets it, and releasing it lets the next one in.
\<close>

theorem transport_scoped:
  assumes "http_reachable s" "i < length (tr_requests (tp s))" "r = tr_requests (tp s) ! i"
  shows "hr_job r \<in> set (granted s)
    \<and> (if i \<in> set (seen_ends s) then hr_releases r = 1 \<and> \<not> hr_hooked r \<and> hr_cancelled r
       else hr_releases r = 0 \<and> (hr_hooked r \<or> hr_cancelled r))
    \<and> hr_cancelled (hook_fires r)
    \<and> (\<forall>ops j. tr_active (tp s) = Some j \<longrightarrow> Release \<notin> set ops \<longrightarrow>
         slot_run Scope Scope_release ops (tp s) = ([], tp s))
    \<and> (\<exists>t. Scope c (Scope_release (tp s)) = Inr t \<and> tr_active t = Some c)"
proof -
  have "request_ok (i \<in> set (seen_ends s)) r" "hr_job r \<in> set (granted s)"
    using http_reachable_ok [OF assms(1)] assms(2,3) by (auto simp: http_ok_def)
  then show ?thesis
    using scope.nobody_else scope.acquire_free [OF scope.release_free]
    by (auto simp: request_ok_def hook_fires_def)
qed

text \<open>A job whose request is answered, read to the end of its body and then closed.\<close>

definition opened_system :: "nat http_system" where
  "opened_system = http_init\<lparr>tp := idle_transport\<lparr>tr_active := Some 7, tr_requests :=
     [\<lparr>hr_job = 7, hr_hooked = True, hr_cancelled = False, hr_phase = BodyOpen, hr_once = False, hr_releases = 0\<rparr>]\<rparr>,
     granted := [7]\<rparr>"

definition sample_system :: "nat http_system" where
  "sample_system = seen_over 0 True (on_request 0 (\<lambda>r. snd (body_Close None r))
     (seen_over 0 True (on_request 0 (\<lambda>r. snd (body_Read (0, Some (ErrText ''EOF'')) r)) opened_system)))"

lemma opened_reachable: "http_reachable opened_system"
proof -
  let ?a = "http_init\<lparr>tp := idle_transport\<lparr>tr_active := Some 7\<rparr>, granted := [7]\<rparr> :: nat http_system"
  let ?r = "\<lparr>hr_job = 7, hr_hooked = True, hr_cancelled = False, hr_phase = InBase, hr_once = False, hr_releases = 0\<rparr>"
  have a: "http_reachable ?a"
    using http_reachable.step [OF http_reachable.init http_step.scope [of 7 http_init]]
    by (simp add: Scope_def http_init_def idle_transport_def)
  have b: "http_reachable (?a\<lparr>tp := idle_transport\<lparr>tr_active := Some 7, tr_requests := [?r]\<rparr>\<rparr>)"
    using http_reachable.step [OF a http_step.request [of True ?a 0]]
    by (simp add: http_init_def RoundTrip_begin_def idle_transport_def)
  show ?thesis
    using http_reachable.step [OF b http_step.answer [of 0 _ False]]
    by (simp add: opened_system_def in_phase_def on_request_def http_init_def RoundTrip_end_def idle_transport_def)
qed

lemma sample_reachable: "http_reachable sample_system"
proof -
  have a: "http_reachable (seen_over 0 True (on_request 0 (\<lambda>r. snd (body_Read (0, Some (ErrText ''EOF'')) r)) opened_system))"
    using http_reachable.step [OF opened_reachable http_step.read [of 0 _ "(0, Some (ErrText ''EOF''))"]]
    by (simp add: opened_system_def in_phase_def)
  show ?thesis
    unfolding sample_system_def
    by (rule http_reachable.step [OF a http_step.close])
      (simp add: opened_system_def in_phase_def on_request_def seen_over_def idle_transport_def body_Read_def
        body_once_def hook_release_def)
qed

theorem transport_scoped_witness:
  "\<exists>r. tr_requests (tp sample_system) = [r] \<and> seen_ends sample_system = [0, 0]
     \<and> hr_releases r = 1 \<and> \<not> hr_hooked r \<and> hr_cancelled r"
proof -
  obtain r where r: "tr_requests (tp sample_system) = [r]"
    by (simp add: sample_system_def opened_system_def on_request_def seen_over_def idle_transport_def)
  have f: "seen_ends sample_system = [0, 0]"
    by (simp add: sample_system_def opened_system_def on_request_def seen_over_def http_init_def)
  have "0 < length (tr_requests (tp sample_system))" "r = tr_requests (tp sample_system) ! 0" using r by simp_all
  from transport_scoped [OF sample_reachable this, of 3] r f show ?thesis by simp
qed

end
