(* ===== verification/World.thy ===== *)
theory World
  imports JobInvariants Layout Broker Transport
begin

text \<open>
  The process and its environment. A \<open>world\<close> holds everything the goroutines of the service share:
  the database, the data directory, the clock, the 2FA broker, the progress channel of the running
  job, the flags of its context, and whether the process has the database open. A program of the model is a state transformer on worlds; it
  touches the database only through \<open>db_tx\<close> (one SQLite transaction) and the directory only through
  \<open>sys\<close> (one system call).

  Each such call first consumes one \<open>slot\<close> of the \<open>script\<close>: the actions other goroutines and the
  environment take before the call runs (\<open>acts\<close>), the random number the call may read, and
  whether the call succeeds, fails, or the process dies there. A theorem about an arbitrary script is
  therefore a theorem about every interleaving with the HTTP handlers and the job monitor, every
  combination of persistence failures and every crash point. After a crash the world is frozen: calls
  fail and change nothing. A finished script means no further interference and no failures.
\<close>

section \<open>Actions of the environment\<close>

record progress =
  pr_phase :: string
  pr_current :: int
  pr_total :: int

text \<open>
  \<open>Advance\<close>: time passes; \<open>Shutdown\<close>: the process context is cancelled; \<open>MonitorTick f g\<close>: the job
  monitor's ticker fires (\<open>f\<close>, \<open>g\<close>: its two database calls fail). The others are the atomic steps of
  the HTTP handlers: admission, cancellation, the transaction of an operator's confirmation and the
  file removals and expiry updates that precede it, a submitted code, an upload's file. \<open>DrainHelper\<close>: the
  writer goroutine takes one record off the queue of helper diagnostics.
\<close>

datatype action =
    Advance nat
  | Shutdown
  | MonitorTick bool bool
  | ApiEnqueue nat string string int
  | ApiCancel string
  | ApiConfirm string
  | ApiClearFiles string
  | ApiClearTmp
  | ApiExpireFile string
  | ApiExpireMark string bool
  | ApiSubmit string string
  | ApiUpload nat string
  | ApiDropUpload nat
  | DrainHelper

datatype outcome = Succeed | Fail | Crash

record slot =
  acts :: "action list"
  random :: nat
  outcome :: outcome

definition idle_slot :: slot where
  "idle_slot = \<lparr>acts = [], random = 0, outcome = Succeed\<rparr>"

definition dead_slot :: slot where
  "dead_slot = \<lparr>acts = [], random = 0, outcome = Crash\<rparr>"

text \<open>
  The context of a job is derived from the process context with a deadline and is cancelled by the
  monitor; the context of a device cleanup is derived from the background context and has only its
  deadline.
\<close>

datatype ctx = JobCtx int | CleanupCtx int

text \<open>A record in the queue of helper diagnostics: a line with its level, or a flush marker.\<close>

datatype helper_record = HelperLine string "string list" | HelperFlush

record world =
  store :: db
  data_root :: path
  files :: fs
  clock :: int
  script :: "slot list"
  crashed :: bool
  shutdown :: bool
  cancelled :: bool
  progress_ch :: "progress option"
  monitor :: "string option"
  monitor_err :: error
  broker :: broker
  transport :: "ctx transport"
  helper_logs :: "helper_record list option"
  uploading :: bool
  db_open :: bool

type_synonym 'a io = "(world, 'a) state"

definition put_store :: "db \<Rightarrow> world \<Rightarrow> world" where
  "put_store d w = w\<lparr>store := d\<rparr>"

text \<open>A transaction by another goroutine: committed, or without effect when it returns an error.\<close>

definition commit :: "'a tx \<Rightarrow> world \<Rightarrow> world" where
  "commit t w = (case t (store w) of Inl _ \<Rightarrow> w | Inr (_, d) \<Rightarrow> w\<lparr>store := d\<rparr>)"

section \<open>The job monitor\<close>

text \<open>
  One tick of the goroutine in \<open>Worker.Run\<close> (worker.go, lines 65 to 83): it reads the job, cancels
  the job context when cancellation was requested, and persists at most one coalesced progress
  record. A failing database call is recorded, cancels the context and ends the goroutine.
\<close>

definition monitor_stop :: "go_error \<Rightarrow> world \<Rightarrow> world" where
  "monitor_stop e w = w\<lparr>monitor_err := Some e, cancelled := True, monitor := None\<rparr>"

definition monitor_tick :: "bool \<Rightarrow> bool \<Rightarrow> world \<Rightarrow> world" where
  "monitor_tick get_fails progress_fails w =
     (case monitor w of
        None \<Rightarrow> w
      | Some i \<Rightarrow>
          if get_fails then monitor_stop ErrDatabase w
          else case find_job i (store w) of
            None \<Rightarrow> monitor_stop ErrRecordNotFound w
          | Some j \<Rightarrow>
              let w1 = (if cancel_requested j then w\<lparr>cancelled := True\<rparr> else w)
              in case progress_ch w1 of
                None \<Rightarrow> w1
              | Some p \<Rightarrow>
                  let w2 = w1\<lparr>progress_ch := None\<rparr>
                  in if progress_fails then monitor_stop ErrDatabase w2
                     else commit (store_Progress (clock w2) i (pr_phase p) (pr_current p) (pr_total p)) w2)"

section \<open>The other actions\<close>

text \<open>An artifact whose retention has elapsed, as \<open>Expire\<close> decides it.\<close>

definition expire_due :: "int \<Rightarrow> job \<Rightarrow> bool" where
  "expire_due now j \<longleftrightarrow>
     (case expires_at j of None \<Rightarrow> False | Some t \<Rightarrow> \<not> artifact_expired j \<and> \<not> now < t)"

definition expire_fields :: "bool \<Rightarrow> assign list" where
  "expire_fields cleaning =
     SetArtifactExpired True #
       (if cleaning then [SetPendingState Failed, SetErrorCode ''artifact_expired'',
          SetErrorMessage ''Artifact retention elapsed during cleanup review.''] else [])"

definition job_sat :: "(job \<Rightarrow> bool) \<Rightarrow> string \<Rightarrow> world \<Rightarrow> bool" where
  "job_sat P i w \<longleftrightarrow> (case find_job i (store w) of None \<Rightarrow> False | Some j \<Rightarrow> P j)"

definition input_path :: "nat \<Rightarrow> world \<Rightarrow> path" where
  "input_path r w = data_root w @ [''inputs'', NewID r]"

fun act :: "action \<Rightarrow> world \<Rightarrow> world" where
  "act (Advance n) w = w\<lparr>clock := clock w + int n\<rparr>"
| "act Shutdown w = w\<lparr>shutdown := True\<rparr>"
| "act (MonitorTick f g) w = monitor_tick f g w"
| "act (ApiEnqueue r t s limit) w = commit (store_Enqueue (clock w) (new_job (NewID r) t s) limit) w"
| "act (ApiCancel i) w = commit (store_Cancel (clock w) i) w"
| "act (ApiConfirm i) w = commit (store_Resolve (clock w) i) w"
| "act (ApiClearFiles i) w =
     (if job_sat (\<lambda>j. needs_review j \<or> Terminal (job_state j)) i w
      then w\<lparr>files := fs_del (data_root w @ [''inputs'', i])
                       (fs_del_tree (data_root w @ [''work'', i]) (files w))\<rparr>
      else w)"
| "act ApiClearTmp w =
     w\<lparr>files := fold (\<lambda>n. fs_del (data_root w @ [''tmp'', n]))
        (filter allowed_tmp (children (data_root w @ [''tmp'']) (files w))) (files w)\<rparr>"
| "act (ApiExpireFile i) w =
     (if job_sat (expire_due (clock w)) i w
      then w\<lparr>files := fs_del (data_root w @ [''artifacts'', i]) (files w)\<rparr> else w)"
| "act (ApiExpireMark i cleaning) w =
     (if job_sat (expire_due (clock w)) i w \<and> fs_get (data_root w @ [''artifacts'', i]) (files w) = None
      then commit (store_Metadata (clock w) i (expire_fields cleaning)) w else w)"
| "act (ApiSubmit i code) w =
     (case Submit i code (broker w) of Inl _ \<Rightarrow> w | Inr b \<Rightarrow> w\<lparr>broker := b\<rparr>)"
| "act (ApiUpload r s) w =
     (if fs_get (input_path r w) (files w) = None
      then w\<lparr>files := fs_put (input_path r w) (file_node 384 s) (files w)\<rparr> else w)"
| "act (ApiDropUpload r) w =
     (if find_job (NewID r) (store w) = None
      then w\<lparr>files := fs_del (input_path r w) (files w)\<rparr> else w)"
| "act DrainHelper w = w\<lparr>helper_logs := map_option tl (helper_logs w)\<rparr>"

section \<open>Calls\<close>

definition next_slot :: "world \<Rightarrow> slot \<times> world" where
  "next_slot w = (case script w of [] \<Rightarrow> (idle_slot, w) | s # r \<Rightarrow> (s, w\<lparr>script := r\<rparr>))"

definition env_step :: "slot io" where
  "env_step = State (\<lambda>w.
     if crashed w then (dead_slot, w)
     else case next_slot w of (s, w1) \<Rightarrow>
       let w2 = fold act (acts s) w1
       in (s, if outcome s = Crash then w2\<lparr>crashed := True\<rparr> else w2))"

text \<open>
  One transaction of the job store, given the time and a random number. An SQLite failure rolls it
  back and returns \<open>ErrDatabase\<close>.
\<close>

definition db_tx :: "(int \<Rightarrow> nat \<Rightarrow> 'a tx) \<Rightarrow> (go_error + 'a) io" where
  "db_tx t = do {
     s \<leftarrow> env_step;
     State (\<lambda>w.
       if outcome s \<noteq> Succeed then (Inl ErrDatabase, w)
       else case t (clock w) (random s) (store w) of
         Inl e \<Rightarrow> (Inl e, w)
       | Inr (a, d) \<Rightarrow> (Inr a, put_store d w))
   }"

text \<open>One system call on the data directory.\<close>

definition sys :: "'a syscall \<Rightarrow> (go_error + 'a) io" where
  "sys c = do {
     s \<leftarrow> env_step;
     State (\<lambda>w.
       if outcome s \<noteq> Succeed then (Inl ErrIO, w)
       else case c (files w) of
         Inl e \<Rightarrow> (Inl e, w)
       | Inr (a, f) \<Rightarrow> (Inr a, w\<lparr>files := f\<rparr>))
   }"

text \<open>\<open>time.Now()\<close>\<close>

definition time_now :: "int io" where
  "time_now = do { env_step; State (\<lambda>w. (clock w, w)) }"

section \<open>Contexts\<close>

fun ctx_done :: "ctx \<Rightarrow> world \<Rightarrow> bool" where
  "ctx_done (JobCtx deadline) w = (cancelled w \<or> shutdown w \<or> deadline \<le> clock w)"
| "ctx_done (CleanupCtx deadline) w = (deadline \<le> clock w)"

text \<open>\<open>ctx.Err()\<close>: \<open>Canceled\<close> or \<open>DeadlineExceeded\<close>.\<close>

fun ctx_error :: "ctx \<Rightarrow> world \<Rightarrow> error" where
  "ctx_error (JobCtx deadline) w =
     (if cancelled w \<or> shutdown w then Some ErrCanceled
      else if deadline \<le> clock w then Some ErrDeadlineExceeded else None)"
| "ctx_error (CleanupCtx deadline) w =
     (if deadline \<le> clock w then Some ErrDeadlineExceeded else None)"

definition ctx_Err :: "ctx \<Rightarrow> error io" where
  "ctx_Err c = do { env_step; State (\<lambda>w. (ctx_error c w, w)) }"

lemma ctx_error_None: "ctx_error c w = None \<longleftrightarrow> \<not> ctx_done c w"
  by (cases c) auto

definition gets :: "(world \<Rightarrow> 'a) \<Rightarrow> 'a io" where
  "gets f = State (\<lambda>w. (f w, w))"

definition modify :: "(world \<Rightarrow> world) \<Rightarrow> unit io" where
  "modify f = State (\<lambda>w. ((), f w))"

section \<open>The methods of the job store, as calls\<close>

abbreviation "Jobs_Get i \<equiv> db_tx (\<lambda>now r. store_Get i)"
abbreviation "Jobs_Device \<equiv> db_tx (\<lambda>now r. store_Device)"
abbreviation "Jobs_All \<equiv> db_tx (\<lambda>now r. store_All)"
abbreviation "Jobs_List \<equiv> db_tx (\<lambda>now r. store_List)"
abbreviation "Jobs_Operations i \<equiv> db_tx (\<lambda>now r. store_Operations i)"
abbreviation "Jobs_Enqueue j limit \<equiv> db_tx (\<lambda>now r. store_Enqueue now j limit)"
abbreviation "Jobs_Claim \<equiv> db_tx (\<lambda>now r. store_Claim now)"
abbreviation "Jobs_Release i \<equiv> db_tx (\<lambda>now r. store_Release i)"
abbreviation "Jobs_Change i s cs \<equiv> db_tx (\<lambda>now r. store_Change now i s cs)"
abbreviation "Jobs_Cancel i \<equiv> db_tx (\<lambda>now r. store_Cancel now i)"
abbreviation "Jobs_Retry i \<equiv> db_tx (\<lambda>now r. store_Retry now i)"
abbreviation "Jobs_Metadata i cs \<equiv> db_tx (\<lambda>now r. store_Metadata now i cs)"
abbreviation "Jobs_BeginCleanup i s c m \<equiv> db_tx (\<lambda>now r. store_BeginCleanup now i s c m)"
abbreviation "Jobs_StartOperation i \<equiv> db_tx (\<lambda>now r. store_StartOperation now (NewID r) i)"
abbreviation "Jobs_Quarantine i why s \<equiv> db_tx (\<lambda>now r. store_Quarantine now i why s)"
abbreviation "Jobs_Resolve i \<equiv> db_tx (\<lambda>now r. store_Resolve now i)"
abbreviation "Jobs_ResolveAutomatic i \<equiv> db_tx (\<lambda>now r. store_ResolveAutomatic now i)"
abbreviation "Jobs_Recover \<equiv> db_tx (\<lambda>now r. store_Recover now)"

section \<open>Predicates stable under the environment\<close>

text \<open>A transaction another goroutine may commit between two calls.\<close>

inductive api_tx :: "db \<Rightarrow> db \<Rightarrow> bool" where
  progress: "store_Progress now i ph cur tot d = Inr (u, d') \<Longrightarrow> api_tx d d'"
| enqueue: "store_Enqueue now (new_job (NewID r) t s) limit d = Inr (j, d') \<Longrightarrow> api_tx d d'"
| cancel: "store_Cancel now i d = Inr (u, d') \<Longrightarrow> api_tx d d'"
| confirm: "store_Resolve now i d = Inr (u, d') \<Longrightarrow> api_tx d d'"
| expire: "store_Metadata now i (expire_fields b) d = Inr (u, d') \<Longrightarrow> api_tx d d'"

definition db_stable :: "(db \<Rightarrow> bool) \<Rightarrow> bool" where
  "db_stable p \<longleftrightarrow> (\<forall>d d'. api_tx d d' \<longrightarrow> p d \<longrightarrow> p d')"

definition env_stable :: "(world \<Rightarrow> bool) \<Rightarrow> bool" where
  "env_stable P \<longleftrightarrow> (\<forall>a w. P w \<longrightarrow> P (act a w)) \<and> (\<forall>w ss. P w \<longrightarrow> P (w\<lparr>script := ss\<rparr>))
     \<and> (\<forall>w. P w \<longrightarrow> P (w\<lparr>crashed := True\<rparr>))"

lemma commit_store: "store (commit t w) = store w \<or> (\<exists>a. t (store w) = Inr (a, store (commit t w)))"
  by (auto simp: commit_def split: sum.split)

lemma store_monitor_stop [simp]: "store (monitor_stop e w) = store w"
  by (simp add: monitor_stop_def)

lemma act_store: "store (act a w) = store w \<or> api_tx (store w) (store (act a w))"
proof (cases a)
  case (MonitorTick f g)
  have "store (commit (store_Progress n i p c t) v) = store w \<or>
      api_tx (store w) (store (commit (store_Progress n i p c t) v))" if "store v = store w" for n i p c t v
    using commit_store [of "store_Progress n i p c t" v] that by (auto intro: api_tx.progress)
  then show ?thesis
    using MonitorTick by (auto simp: monitor_tick_def Let_def split: option.split)
next
  case (ApiEnqueue r t s l)
  then show ?thesis
    using commit_store [of "store_Enqueue (clock w) (new_job (NewID r) t s) l" w]
    by (auto intro: api_tx.enqueue)
next
  case (ApiCancel i)
  then show ?thesis
    using commit_store [of "store_Cancel (clock w) i" w] by (auto intro: api_tx.cancel)
next
  case (ApiConfirm i)
  then show ?thesis
    using commit_store [of "store_Resolve (clock w) i" w] by (auto intro: api_tx.confirm)
next
  case (ApiExpireMark i b)
  then show ?thesis
    using commit_store [of "store_Metadata (clock w) i (expire_fields b)" w]
    by (auto intro: api_tx.expire)
qed (auto split: sum.split)

lemma stable_store: "db_stable p \<Longrightarrow> env_stable (\<lambda>w. p (store w))"
  unfolding env_stable_def db_stable_def
proof (intro conjI allI impI)
  fix a :: action and w :: world assume "\<forall>d d'. api_tx d d' \<longrightarrow> p d \<longrightarrow> p d'" "p (store w)"
  then show "p (store (act a w))" using act_store [of a w] by auto
qed auto

lemma db_stable_conj: "db_stable p \<Longrightarrow> db_stable q \<Longrightarrow> db_stable (\<lambda>d. p d \<and> q d)"
  by (auto simp: db_stable_def)

lemma stable_conj: "env_stable P \<Longrightarrow> env_stable Q \<Longrightarrow> env_stable (\<lambda>w. P w \<and> Q w)"
  by (auto simp: env_stable_def)

lemma stable_const [simp]: "env_stable (\<lambda>_. b)"
  by (simp add: env_stable_def)

lemma db_stable_const [simp]: "db_stable (\<lambda>_. b)"
  by (simp add: db_stable_def)

section \<open>Rules for calls\<close>

lemma stable_acts: "env_stable P \<Longrightarrow> P w \<Longrightarrow> P (fold act as w)"
  by (induction "as" arbitrary: w) (auto simp: env_stable_def)

lemma holds_env_step [prog_rules]: "env_stable P \<Longrightarrow> holds P env_step (\<lambda>_. P)"
  by (rule holdsI)
    (auto simp: env_step_def next_slot_def Let_def stable_acts env_stable_def split: if_splits list.splits)

lemma holds_db_tx:
  assumes "env_stable P"
    and "\<And>w. P w \<Longrightarrow> Q (Inl ErrDatabase) w"
    and "\<And>w r e. P w \<Longrightarrow> t (clock w) r (store w) = Inl e \<Longrightarrow> Q (Inl e) w"
    and "\<And>w r a d. P w \<Longrightarrow> t (clock w) r (store w) = Inr (a, d) \<Longrightarrow> Q (Inr a) (put_store d w)"
  shows "holds P (db_tx t) Q"
  unfolding db_tx_def
  by (rule holds_bind [OF holds_env_step [OF assms(1)]])
    (use assms(2-4) in \<open>auto simp: holds_def split: sum.split prod.split\<close>)

lemma holds_sys:
  assumes "env_stable P"
    and "\<And>w. P w \<Longrightarrow> Q (Inl ErrIO) w"
    and "\<And>w e. P w \<Longrightarrow> c (files w) = Inl e \<Longrightarrow> Q (Inl e) w"
    and "\<And>w a f. P w \<Longrightarrow> c (files w) = Inr (a, f) \<Longrightarrow> Q (Inr a) (w\<lparr>files := f\<rparr>)"
  shows "holds P (sys c) Q"
  unfolding sys_def
  by (rule holds_bind [OF holds_env_step [OF assms(1)]])
    (use assms(2-4) in \<open>auto simp: holds_def split: sum.split prod.split\<close>)

lemma store_put_store [simp]: "store (put_store d w) = d"
  by (simp add: put_store_def)

text \<open>A predicate of the database, through a transaction and through everything else.\<close>

lemma holds_tx:
  assumes "db_stable p"
    and "q (Inl ErrDatabase) = p"
    and "\<And>d now r e. p d \<Longrightarrow> t now r d = Inl e \<Longrightarrow> q (Inl e) d"
    and "\<And>d now r a d'. p d \<Longrightarrow> t now r d = Inr (a, d') \<Longrightarrow> q (Inr a) d'"
  shows "holds (\<lambda>w. p (store w)) (db_tx t) (\<lambda>x w. q x (store w))"
  by (rule holds_db_tx [OF stable_store [OF assms(1)]]) (use assms(2-4) in auto)

lemma keeps_tx:
  assumes "db_stable p" and "\<And>d now r a d'. p d \<Longrightarrow> t now r d = Inr (a, d') \<Longrightarrow> p d'"
  shows "keeps (\<lambda>w. p (store w)) (db_tx t)"
  unfolding keeps_def by (rule holds_tx) (use assms in auto)

lemma keeps_sys [keeps_rules]: "db_stable p \<Longrightarrow> keeps (\<lambda>w. p (store w)) (sys c)"
  unfolding keeps_def by (rule holds_sys [OF stable_store]) auto

lemma keeps_env_step [keeps_rules]: "db_stable p \<Longrightarrow> keeps (\<lambda>w. p (store w)) env_step"
  unfolding keeps_def by (rule holds_env_step [OF stable_store])

lemma keeps_time_now [keeps_rules]: "db_stable p \<Longrightarrow> keeps (\<lambda>w. p (store w)) time_now"
  unfolding time_now_def by (intro keeps_bind keeps_env_step) (auto simp: keeps_def holds_def)

lemma keeps_ctx_Err [keeps_rules]: "db_stable p \<Longrightarrow> keeps (\<lambda>w. p (store w)) (ctx_Err c)"
  unfolding ctx_Err_def by (intro keeps_bind keeps_env_step) (auto simp: keeps_def holds_def)

lemma keeps_gets [keeps_rules]: "keeps I (gets f)"
  by (simp add: keeps_def holds_def gets_def)

lemma keeps_modify [keeps_rules]:
  "(\<And>w. store (f w) = store w) \<Longrightarrow> keeps (\<lambda>w. p (store w)) (modify f)"
  by (simp add: keeps_def holds_def modify_def)

section \<open>The invariants are stable\<close>

lemma expire_fields_ok [simp]: "list_all assign_ok (expire_fields b)"
  by (simp add: expire_fields_def)

lemma new_job_simps [simp]:
  "job_id (new_job i t s) = i" "cleanup_error (new_job i t s) = ''''"
  by (simp_all add: new_job_def)

lemma NewID_nonempty [simp]: "NewID r \<noteq> ''''"
  using ValidID_NewID ValidID_nonempty by blast

text \<open>The transactions of other goroutines, as quiet updates, admissions and confirmations.\<close>

lemma api_tx_cases:
  assumes "inv_store d" "api_tx d d'"
  obtains (quiet) now P f where "quiet P f" "d' = update_jobs now P f d"
      "\<And>j. P j \<Longrightarrow> job_state (f j) = job_state j
          \<and> pending_state (f j) \<in> {pending_state j, Failed}
          \<and> (cancel_requested (f j) \<noteq> cancel_requested j \<longrightarrow> cancel_requested (f j) \<and> job_state j \<noteq> Cleaning)"
  | (enqueue) now r t s limit j where "store_Enqueue now (new_job (NewID r) t s) limit d = Inr (j, d')"
  | (confirm) now i where "store_Resolve now i d = Inr ((), d')"
  using assms(2)
proof (cases rule: api_tx.cases)
  case (progress now i ph cur tot u)
  then show thesis
    by (intro quiet [OF quiet_progress]) (auto simp: store_Progress_def)
next
  case (cancel now i u)
  have "distinct_ids d" using assms(1) by (simp add: inv_store_def)
  note eq = cancel_eq [OF this cancel]
  show thesis
    by (rule quiet [OF quiet_cancel eq]) auto
next
  case (expire now i b u)
  then show thesis
    by (intro quiet [OF quiet_assign [OF expire_fields_ok]])
      (use pending_assign_all [OF expire_fields_ok] in \<open>auto simp: store_Metadata_def\<close>)
qed (auto intro: enqueue confirm)

lemma api_tx_inv:
  assumes "inv_store d" "api_tx d d'"
  shows "inv_store d'" "lease d \<Longrightarrow> lease d'"
proof -
  have "inv_store d' \<and> (lease d \<longrightarrow> lease d')"
    using assms
  proof (cases rule: api_tx_cases)
    case quiet
    then show ?thesis using assms(1) by (simp add: quiet_inv quiet_lease)
  next
    case enqueue
    from enqueue_inv [OF assms(1) this] show ?thesis by simp
  next
    case (confirm now i)
    from resolve_inv [OF assms(1) confirm [unfolded store_Resolve_def]] show ?thesis by simp
  qed
  then show "inv_store d'" "lease d \<Longrightarrow> lease d'" by auto
qed

lemma enqueue_find:
  assumes "store_Enqueue now j limit d = Inr (r, d')" "find_job i d = Some k"
  shows "find_job i d' = Some k" "device d' = device d"
  using assms by (auto simp: store_Enqueue_def find_job_def row_append Let_def split: if_splits)

lemma confirm_not_in_flight:
  assumes "inv_store d" "find_job i d = Some j" "in_flight j"
  shows "store_resolve now k ph d \<noteq> Inr x"
proof
  assume "store_resolve now k ph d = Inr x"
  then obtain j' where "find_job k d = Some j'" "needs_review j'"
    by (cases x) (auto elim: resolve_cases)
  then show False
    using others_not_in_flight(2) [OF assms] find_job_Some by blast
qed

text \<open>What other goroutines can do to the job in flight.\<close>

lemma api_tx_in_flight:
  assumes "inv_store d" "api_tx d d'" "find_job i d = Some j" "in_flight j"
  shows "device d' = device d"
    and "\<exists>j'. find_job i d' = Some j' \<and> job_state j' = job_state j \<and> in_flight j'
      \<and> pending_state j' \<in> {pending_state j, Failed}
      \<and> (cancel_requested j' \<noteq> cancel_requested j \<longrightarrow> cancel_requested j' \<and> job_state j \<noteq> Cleaning)"
proof -
  have "device d' = device d \<and> (\<exists>j'. find_job i d' = Some j' \<and> job_state j' = job_state j \<and> in_flight j'
      \<and> pending_state j' \<in> {pending_state j, Failed}
      \<and> (cancel_requested j' \<noteq> cancel_requested j \<longrightarrow> cancel_requested j' \<and> job_state j \<noteq> Cleaning))"
    using assms(1,2)
  proof (cases rule: api_tx_cases)
    case (quiet now P f)
    then have "find_job i d' = Some (if P j then (f j)\<lparr>updated_at := now\<rparr> else j)"
      by (simp add: find_update_jobs quiet_def assms(3))
    then show ?thesis using quiet(1) quiet(3) [of j] assms(4) by (auto simp: quiet(2) quiet_def)
  next
    case enqueue
    then show ?thesis using enqueue_find [OF enqueue assms(3)] assms(4) by auto
  next
    case (confirm now k)
    then show ?thesis using confirm_not_in_flight [OF assms(1,3,4)] by (simp add: store_Resolve_def)
  qed
  then show "device d' = device d"
    "\<exists>j'. find_job i d' = Some j' \<and> job_state j' = job_state j \<and> in_flight j'
      \<and> pending_state j' \<in> {pending_state j, Failed}
      \<and> (cancel_requested j' \<noteq> cancel_requested j \<longrightarrow> cancel_requested j' \<and> job_state j \<noteq> Cleaning)"
    by auto
qed

lemma stable_inv [simp]: "db_stable inv_store"
  by (auto simp: db_stable_def intro: api_tx_inv)

lemma stable_inv_lease [simp]: "db_stable (\<lambda>d. inv_store d \<and> lease d)"
  by (auto simp: db_stable_def intro: api_tx_inv)

lemma stable_holder [simp]: "db_stable (holder i S)"
  unfolding db_stable_def
proof (intro allI impI)
  fix d d' assume tx: "api_tx d d'" and h: "holder i S d"
  obtain j where j: "find_job i d = Some j" "job_state j \<in> S" "in_flight j"
    using h by (rule holder_job)
  have inv: "inv_store d" "lease d" using h by (simp_all add: holder_def)
  show "holder i S d'"
    using api_tx_in_flight [OF inv(1) tx j(1,3)] api_tx_inv [OF inv(1) tx] inv(2) j h
    unfolding holder_def by auto
qed

text \<open>Job \<open>i\<close> is being cleaned up, and \<open>s\<close> is an outcome it may end with.\<close>

definition may_end :: "string \<Rightarrow> jstate \<Rightarrow> db \<Rightarrow> bool" where
  "may_end i s d \<longleftrightarrow> holder i {Cleaning} d \<and> Terminal s
     \<and> (\<forall>j. find_job i d = Some j \<longrightarrow> Terminal (pending_state j) \<and> (cancel_requested j \<longrightarrow> s \<noteq> Completed))"

lemma stable_may_end [simp]: "db_stable (may_end i s)"
  unfolding db_stable_def
proof (intro allI impI)
  fix d d' assume tx: "api_tx d d'" and h: "may_end i s d"
  then have hold: "holder i {Cleaning} d" by (simp add: may_end_def)
  then obtain j where j: "find_job i d = Some j" "job_state j = Cleaning" "in_flight j"
    by (auto elim: holder_job)
  have "inv_store d" using hold by (rule holder_inv)
  moreover have "holder i {Cleaning} d'"
    using stable_holder [of i "{Cleaning}"] tx hold by (auto simp: db_stable_def)
  ultimately show "may_end i s d'"
    using api_tx_in_flight(2) [OF _ tx j(1,3)] h j by (auto simp: may_end_def Terminal_def)
qed

text \<open>Nothing is in flight.\<close>

definition settled :: "db \<Rightarrow> bool" where
  "settled d \<longleftrightarrow> inv_store d \<and> (\<forall>j \<in> set (jobs d). \<not> in_flight j)"

lemma settled_lease: "settled d \<Longrightarrow> inv_store d \<and> lease d"
  by (auto simp: settled_def lease_def)

lemma stable_settled [simp]: "db_stable settled"
  unfolding db_stable_def
proof (intro allI impI)
  fix d d' assume tx: "api_tx d d'" and s: "settled d"
  then have inv: "inv_store d" by (simp add: settled_def)
  have "\<forall>j \<in> set (jobs d'). \<not> in_flight j"
    using inv tx
  proof (cases rule: api_tx_cases)
    case (quiet now P f)
    then show ?thesis using s by (auto simp: settled_def quiet_def)
  next
    case (enqueue now r t s' limit j)
    then show ?thesis using s
      by (auto simp: store_Enqueue_def settled_def Let_def in_flight_def split: if_splits)
  next
    case (confirm now i)
    then show ?thesis using resolve_inv(3) [OF inv confirm [unfolded store_Resolve_def]] by blast
  qed
  then show "settled d'" using api_tx_inv(1) [OF inv tx] by (simp add: settled_def)
qed

section \<open>Waiting\<close>

text \<open>
  A goroutine that waits in a \<open>select\<close> until something is \<open>ready\<close> or the clock reaches \<open>t\<close>: others act
  meanwhile, and when nobody acts any more the clock runs to \<open>t\<close>. The fuel is the number of slots
  left, so waiting always ends; the result is a random number, for the choice among ready cases.
\<close>

fun block :: "nat \<Rightarrow> (world \<Rightarrow> bool) \<Rightarrow> int \<Rightarrow> nat io" where
  "block 0 ready t =
     State (\<lambda>w. (0, if crashed w \<or> ready w then w else w\<lparr>clock := max (clock w) t\<rparr>))"
| "block (Suc n) ready t = do {
     s \<leftarrow> env_step;
     b \<leftarrow> gets (\<lambda>w. ready w \<or> t \<le> clock w);
     if b then ret (random s) else block n ready t }"

definition wait_for :: "(world \<Rightarrow> bool) \<Rightarrow> int \<Rightarrow> nat io" where
  "wait_for ready t = do { n \<leftarrow> gets (\<lambda>w. length (script w)); block (Suc n) ready t }"

fun ctx_deadline :: "ctx \<Rightarrow> int" where
  "ctx_deadline (JobCtx t) = t"
| "ctx_deadline (CleanupCtx t) = t"

lemma keeps_block: "db_stable p \<Longrightarrow> keeps (\<lambda>w. p (store w)) (block n ready t)"
proof (induction n)
  case 0
  then show ?case by (auto simp: keeps_def holds_def)
next
  case (Suc n)
  then show ?case by (auto intro!: keeps_rules)
qed

lemma keeps_wait_for [keeps_rules]: "db_stable p \<Longrightarrow> keeps (\<lambda>w. p (store w)) (wait_for ready t)"
  unfolding wait_for_def by (intro keeps_rules keeps_block)

text \<open>Waiting always ends, and unless the process died or the time came, because something was ready.\<close>

lemma crashed_env_step: "crashed w \<Longrightarrow> run_state env_step w = (dead_slot, w)"
  by (simp add: env_step_def)

lemma block_ready:
  "run_state (block n ready t) w = (r, w') \<Longrightarrow> crashed w' \<or> ready w' \<or> t \<le> clock w'"
proof (induction n arbitrary: w)
  case (Suc n)
  then show ?case by (auto simp: gets_def split: prod.splits if_splits)
qed auto

end
