(* ===== verification/JobLifecycle.thy ===== *)
theory JobLifecycle
  imports JobInvariants Layout
begin

text \<open>
  Runs of the transactions of the job store, in any order and with any arguments: every row
  evolves along \<open>CanTransition\<close> and is never removed, only \<open>Enqueue\<close> adds rows, and \<open>Claim\<close> takes
  the first claimable row. The properties of theory JobContract rest on these lemmas.
\<close>

section \<open>Runs of transactions\<close>

inductive store_step :: "db \<Rightarrow> db \<Rightarrow> bool" where
  enqueue: "store_Enqueue now (new_job (NewID r) t s) limit d = Inr (j, d') \<Longrightarrow> store_step d d'"
| claim: "store_Claim now d = Inr (c, d') \<Longrightarrow> store_step d d'"
| release: "store_Release i d = Inr (u, d') \<Longrightarrow> store_step d d'"
| change: "store_Change now i to cols d = Inr (u, d') \<Longrightarrow> store_step d d'"
| progress: "store_Progress now i ph cur tot d = Inr (u, d') \<Longrightarrow> store_step d d'"
| cancel: "store_Cancel now i d = Inr (u, d') \<Longrightarrow> store_step d d'"
| retry: "store_Retry now i d = Inr (u, d') \<Longrightarrow> store_step d d'"
| metadata: "store_Metadata now i cols d = Inr (u, d') \<Longrightarrow> store_step d d'"
| begin_cleanup: "store_BeginCleanup now i s c m d = Inr (p, d') \<Longrightarrow> store_step d d'"
| start_operation: "store_StartOperation now op i d = Inr (u, d') \<Longrightarrow> store_step d d'"
| quarantine: "store_Quarantine now i why s d = Inr (u, d') \<Longrightarrow> store_step d d'"
| resolve: "store_resolve now i ph d = Inr (u, d') \<Longrightarrow> store_step d d'"
| recover: "store_Recover now d = Inr (u, d') \<Longrightarrow> store_step d d'"

definition empty_db :: db where
  "empty_db = \<lparr>jobs = [], device = empty_device, operations = []\<rparr>"

lemma empty_db_inv: "inv_store empty_db"
  by (simp add: empty_db_def empty_device_def inv_store_def inv_parts)

text \<open>
  What one transaction may do to one job: stay or move along \<open>CanTransition\<close>, keep its identity,
  its target, its source and its time of creation, never withdraw a cancellation and never lose
  count of an attempt.
\<close>

definition evolves :: "job \<Rightarrow> job \<Rightarrow> bool" where
  "evolves a b \<longleftrightarrow> job_id b = job_id a \<and> job_target b = job_target a \<and> job_source b = job_source a
     \<and> created_at b = created_at a \<and> attempts a \<le> attempts b
     \<and> (cancel_requested a \<longrightarrow> cancel_requested b)
     \<and> (job_state b = job_state a \<or> CanTransition (job_state a) (job_state b))"

lemma evolves_refl [simp]: "evolves j j"
  by (simp add: evolves_def)

lemma evolves_updated_at [simp]: "evolves a (b\<lparr>updated_at := t\<rparr>) = evolves a b"
  by (simp add: evolves_def)

lemma evolves_set_field: "evolves a b \<Longrightarrow> evolves a (set_field f b)"
  by (cases f) (auto simp: evolves_def)

lemma evolves_assign_all: "evolves a b \<Longrightarrow> evolves a (assign_all fs b)"
  by (induction fs arbitrary: b) (auto simp: assign_all_def evolves_set_field)

text \<open>The general shape of a transaction: rows evolve in place, new rows come at the end.\<close>

definition rows_evolve :: "db \<Rightarrow> db \<Rightarrow> bool" where
  "rows_evolve d d' \<longleftrightarrow> (\<exists>g new. (\<forall>j \<in> set (jobs d). evolves j (g j)) \<and> jobs d' = map g (jobs d) @ new)"

lemma rows_evolve_refl: "jobs d' = jobs d \<Longrightarrow> rows_evolve d d'"
  unfolding rows_evolve_def by (intro exI [of _ id] exI [of _ "[]"]) simp

lemma rows_evolve_append: "jobs d' = jobs d @ new \<Longrightarrow> rows_evolve d d'"
  unfolding rows_evolve_def by (intro exI [of _ id] exI [of _ new]) simp

lemma rows_evolve_update:
  assumes "jobs d' = jobs (update_jobs now P f d)" "\<And>j. j \<in> set (jobs d) \<Longrightarrow> P j \<Longrightarrow> evolves j (f j)"
  shows "rows_evolve d d'"
  unfolding rows_evolve_def assms(1) jobs_update_jobs
  by (intro exI [of _ "\<lambda>j. if P j then (f j)\<lparr>updated_at := now\<rparr> else j"] exI [of _ "[]"])
    (simp add: assms(2))

lemma rows_evolve_find:
  assumes "rows_evolve d d'" "find_job i d = Some j"
  shows "\<exists>j'. find_job i d' = Some j' \<and> evolves j j'"
proof -
  obtain g new where g: "\<forall>j \<in> set (jobs d). evolves j (g j)" and d': "jobs d' = map g (jobs d) @ new"
    using assms(1) by (auto simp: rows_evolve_def)
  have "row job_id i (map g rs @ new) = Some (g j)"
    if "row job_id i rs = Some j" "\<forall>j \<in> set rs. evolves j (g j)" for rs
    using that by (induction rs) (auto simp: evolves_def split: if_splits)
  then have "find_job i d' = Some (g j)"
    using assms(2) g by (simp add: find_job_def d')
  then show ?thesis using g find_job_Some [OF assms(2)] by auto
qed

lemma change_row:
  assumes "distinct_ids d" "find_job i d = Some j" "evolves j (f j)"
  shows "rows_evolve d (update_device g (update_jobs now (by_id i) f d))"
  by (rule rows_evolve_update [OF jobs_update_device(1)])
    (use assms by_id_row [OF assms(1,2)] in auto)

lemmas change_row_only = change_row [where g = "\<lambda>v. v", simplified]

lemma step_rows: "store_step d d' \<Longrightarrow> distinct_ids d \<Longrightarrow> rows_evolve d d'"
proof (induction rule: store_step.induct)
  case (enqueue now r t s limit d j d')
  then show ?case
    by (auto simp: store_Enqueue_def Let_def split: if_splits intro: rows_evolve_append)
next
  case (claim now d c d')
  from claim.hyps show ?case
  proof (cases rule: claim_cases)
    case none
    then show ?thesis by (simp add: rows_evolve_refl)
  next
    case (claimed j)
    then show ?thesis
      using change_row [OF claim.prems find_job_eq [OF claim.prems claimed(2)]]
      by (simp add: evolves_def start_job_def claimable_def)
  qed
next
  case (release i d u d')
  then show ?case by (auto simp: store_Release_def intro: rows_evolve_refl)
next
  case (change now i to cols d u d')
  then obtain j where j: "find_job i d = Some j"
    by (auto simp: store_Change_def split: option.splits)
  note eq = change_eq [OF change.prems j change.hyps]
  show ?case
    unfolding eq(2) using eq(1) evolves_assign_all [OF evolves_refl, of j cols]
    by (intro change_row_only [OF change.prems j]) (simp add: evolves_def)
next
  case (progress now i ph cur tot d u d')
  then show ?case
    by (auto simp: store_Progress_def evolves_def intro!: rows_evolve_update [OF refl])
next
  case (cancel now i d u d')
  show ?case
    unfolding cancel_eq [OF cancel.prems cancel.hyps]
    by (rule rows_evolve_update [OF refl]) (simp add: evolves_def)
next
  case (retry now i d u d')
  then show ?case
    by (auto simp: store_Retry_def evolves_def intro!: rows_evolve_update [OF refl])
next
  case (metadata now i cols d u d')
  then show ?case
    by (auto simp: store_Metadata_def evolves_assign_all intro!: rows_evolve_update [OF refl])
next
  case (begin_cleanup now i s c m d p d')
  from begin_cleanup.hyps show ?case
  proof (rule begin_cleanup_cases)
    fix j assume j: "find_job i d = Some j" "CanTransition (job_state j) Cleaning"
      "d' = update_jobs now (by_id i) (\<lambda>k. k\<lparr>job_state := Cleaning, job_phase := ''cleaning'',
          pending_state := p, error_code := (if cancel_requested j then ''cancelled'' else c),
          error_message := (if cancel_requested j then ''The job was cancelled.'' else m),
          failure_reason := (if cancel_requested j then ''cancelled'' else c)\<rparr>) d"
    then show ?thesis
      unfolding j(3) by (intro change_row_only [OF begin_cleanup.prems j(1)]) (simp add: evolves_def)
  qed
next
  case (start_operation now op i d u d')
  then show ?case using start_operation_frame(1) by (intro rows_evolve_refl)
next
  case (quarantine now i why s d u d')
  then have "d' = update_device (\<lambda>v. v\<lparr>dev_quarantined := True, dev_reason := why, dev_owner := ''''\<rparr>)
      (update_jobs now (by_id i) (\<lambda>j. j\<lparr>cleanup_error := why, pending_state := s\<rparr>) d)"
    by (simp add: store_Quarantine_def)
  then show ?case
    by (intro rows_evolve_update [where P = "by_id i"]) (auto simp: evolves_def)
next
  case (resolve now i ph d u d')
  from resolve.hyps show ?case
  proof (rule resolve_cases)
    fix j d1 assume j: "find_job i d = Some j" "needs_review j" "Terminal (pending_state j)"
      and d1: "d1 = update_jobs now (by_id i) (\<lambda>k. k\<lparr>cleanup_error := '''',
        job_state := pending_state j, pending_state := NoState, job_phase := ph\<rparr>) d"
      and d': "d' = (if \<exists>k\<in>set (jobs d1). needs_review k then d1 else update_device
        (\<lambda>v. v\<lparr>dev_quarantined := False, dev_reason := '''', dev_owner := ''''\<rparr>) d1)"
    have "rows_evolve d d1"
      unfolding d1 using j by (intro change_row_only [OF resolve.prems j(1)])
        (simp add: evolves_def needs_review_def)
    then show ?thesis by (auto simp: d' rows_evolve_def)
  qed
next
  case (recover now d u d')
  then have jobs: "jobs d' = jobs (update_jobs now (\<lambda>j. active j \<and> \<not> needs_review j) recover_job d)"
    by (auto simp: store_Recover_def Let_def split: if_splits)
  show ?case
    by (rule rows_evolve_update [OF jobs]) (auto simp: evolves_def recover_job_def active_def)
qed

lemma distinct_evolve:
  assumes "rows_evolve d d'" "distinct_ids d" "length (jobs d') = length (jobs d)"
  shows "distinct_ids d'"
proof -
  obtain g where g: "\<forall>j \<in> set (jobs d). evolves j (g j)" "jobs d' = map g (jobs d)"
    using assms(1,3) by (auto simp: rows_evolve_def)
  then have "map job_id (jobs d') = map job_id (jobs d)" by (auto simp: evolves_def)
  then show ?thesis using assms(2) by (simp only: distinct_ids_def)
qed

lemma step_length:
  assumes "store_step d d'"
  shows "length (jobs d') = length (jobs d)
    \<or> (\<exists>now r t s limit j. store_Enqueue now (new_job (NewID r) t s) limit d = Inr (j, d'))"
  using assms
proof (cases rule: store_step.cases)
  case (claim now c)
  then show ?thesis by (cases rule: claim_cases) auto
next
  case (begin_cleanup now i s c m p)
  then show ?thesis by (auto elim!: begin_cleanup_cases)
next
  case (resolve now i ph u)
  then show ?thesis by (auto elim!: resolve_cases)
qed (auto simp: store_Release_def store_Change_def store_Progress_def store_Cancel_def
    store_Retry_def store_Metadata_def store_StartOperation_def store_Quarantine_def
    store_Recover_def Let_def split: option.splits if_splits)

lemma enqueue_distinct:
  "distinct_ids d \<Longrightarrow> store_Enqueue now j limit d = Inr (r, d') \<Longrightarrow> distinct_ids d'"
  unfolding store_Enqueue_def Let_def distinct_ids_def find_job_None
  by (simp split: if_splits) force

lemma step_distinct:
  assumes "store_step d d'" "distinct_ids d"
  shows "distinct_ids d'"
  using step_length [OF assms(1)] step_rows [OF assms] assms(2)
  by (auto intro: distinct_evolve enqueue_distinct)

section \<open>Life cycle\<close>

definition lifecycle :: "job \<Rightarrow> job \<Rightarrow> bool" where
  "lifecycle a b \<longleftrightarrow> job_id b = job_id a \<and> job_target b = job_target a \<and> job_source b = job_source a
     \<and> created_at b = created_at a \<and> attempts a \<le> attempts b
     \<and> (cancel_requested a \<longrightarrow> cancel_requested b)
     \<and> CanTransition\<^sup>*\<^sup>* (job_state a) (job_state b)"

lemma lifecycle_step: "lifecycle a b \<Longrightarrow> evolves b c \<Longrightarrow> lifecycle a c"
  unfolding lifecycle_def evolves_def by (auto intro: rtranclp.rtrancl_into_rtrancl)

lemma run_lifecycle:
  assumes "store_step\<^sup>*\<^sup>* d d'" "distinct_ids d" "find_job i d = Some j"
  shows "distinct_ids d' \<and> (\<exists>j'. find_job i d' = Some j' \<and> lifecycle j j')"
  using assms(1)
proof (induction rule: rtranclp_induct)
  case base
  then show ?case using assms by (auto simp: lifecycle_def)
next
  case (step y z)
  then obtain j' where j': "find_job i y = Some j'" "lifecycle j j'" "distinct_ids y" by auto
  from rows_evolve_find [OF step_rows [OF step.hyps(2) j'(3)] j'(1)] j'(2)
  obtain j'' where "find_job i z = Some j''" "lifecycle j j''"
    by (auto intro: lifecycle_step)
  then show ?case using step_distinct [OF step.hyps(2) j'(3)] by blast
qed

lemma Terminal_stuck: "Terminal s \<Longrightarrow> \<not> CanTransition s t"
  by (auto simp: Terminal_def)

lemma Terminal_absorbing: "CanTransition\<^sup>*\<^sup>* s t \<Longrightarrow> Terminal s \<Longrightarrow> t = s"
  by (induction rule: converse_rtranclp_induct) (auto simp: Terminal_stuck)

text \<open>How far a job has come.\<close>

fun rank :: "jstate \<Rightarrow> nat" where
  "rank NoState = 0"
| "rank Queued = 0"
| "rank Running = 1"
| "rank Verifying = 2"
| "rank Cleaning = 3"
| "rank _ = 4"

lemma rank_mono: "CanTransition a b \<Longrightarrow> rank a < rank b"
  by (cases a) (auto simp: Terminal_def)

lemma rank_le: "CanTransition\<^sup>*\<^sup>* a b \<Longrightarrow> rank a \<le> rank b"
  by (induction rule: rtranclp_induct) (auto dest: rank_mono)

section \<open>Admission\<close>

definition occupancy :: "db \<Rightarrow> nat" where
  "occupancy d = length (filter occupying (jobs d))"

lemma evolves_occupying: "evolves a b \<Longrightarrow> occupying b \<Longrightarrow> occupying a"
  by (cases "job_state a") (auto simp: evolves_def occupying_def)

lemma occupancy_evolve:
  assumes "rows_evolve d d'" "length (jobs d') = length (jobs d)"
  shows "occupancy d' \<le> occupancy d"
proof -
  obtain g where g: "\<forall>j \<in> set (jobs d). evolves j (g j)" "jobs d' = map g (jobs d)"
    using assms by (auto simp: rows_evolve_def)
  have "length (filter occupying (map g js)) \<le> length (filter occupying js)"
    if "\<forall>j \<in> set js. evolves j (g j)" for js
    using that by (induction js) (auto dest: evolves_occupying)
  then show ?thesis using g by (simp add: occupancy_def)
qed

lemma occupancy_enqueue:
  assumes "store_Enqueue now j limit d = Inr (r, d')"
  shows "occupancy d' = Suc (occupancy d)" "int (occupancy d') \<le> limit"
  using assms by (auto simp: store_Enqueue_def Let_def occupancy_def occupying_def split: if_splits)

section \<open>The choice of Claim\<close>

lemma before_trans: "before a b \<Longrightarrow> before b c \<Longrightarrow> before a c"
  by (auto simp: before_def)

lemma before_total: "job_id a \<noteq> job_id b \<Longrightarrow> before a b \<or> before b a"
  by (auto simp: before_def)

lemma first_in_order_min:
  assumes "first_in_order js = Some q" "distinct (map job_id js)" "k \<in> set js" "k \<noteq> q"
  shows "before q k"
  using assms
proof (induction js arbitrary: q)
  case (Cons a js)
  show ?case
  proof (cases "first_in_order js")
    case None
    then show ?thesis using Cons.prems by simp
  next
    case (Some m)
    then have m: "m \<in> set js" by (rule first_in_order_Some)
    then have "job_id m \<in> set (map job_id js)" by simp
    moreover have "job_id a \<notin> set (map job_id js)" using Cons.prems(2) by simp
    ultimately have "job_id m \<noteq> job_id a" by metis
    then have "before m a \<or> before a m" by (rule before_total)
    moreover have "before m k" if "k \<in> set js" "k \<noteq> m"
      using Cons.IH [OF Some] that Cons.prems(2) by simp
    ultimately show ?thesis
      using Cons.prems Some by (auto split: if_splits intro: before_trans)
  qed
qed simp

lemma claim_none: "store_Claim now d = Inr (None, d') \<Longrightarrow>
    d' = d \<and> (dev_quarantined (device d) \<or> dev_owner (device d) \<noteq> '''' \<or> (\<forall>k \<in> set (jobs d). \<not> claimable now k))"
  by (auto simp: store_Claim_def filter_empty_conv split: if_splits option.splits)

lemma claim_first:
  assumes "store_Claim now d = Inr (Some j, d')" "distinct_ids d"
  shows "\<exists>q \<in> set (jobs d). claimable now q \<and> j = (start_job q)\<lparr>updated_at := now\<rparr>
    \<and> \<not> dev_quarantined (device d) \<and> dev_owner (device d) = ''''
    \<and> d' = update_device (\<lambda>v. v\<lparr>dev_owner := job_id q\<rparr>)
              (update_jobs now (by_id (job_id q)) (\<lambda>_. start_job q) d)
    \<and> (\<forall>k \<in> set (jobs d). claimable now k \<longrightarrow> k = q \<or> before q k)"
proof -
  let ?c = "filter (claimable now) (jobs d)"
  obtain q where q: "first_in_order ?c = Some q" "\<not> dev_quarantined (device d)"
      "dev_owner (device d) = ''''" "j = (start_job q)\<lparr>updated_at := now\<rparr>"
      "d' = update_device (\<lambda>v. v\<lparr>dev_owner := job_id q\<rparr>)
              (update_jobs now (by_id (job_id q)) (\<lambda>_. start_job q) d)"
    using assms(1) by (auto simp: store_Claim_def split: if_splits option.splits)
  have "distinct (map job_id ?c)"
    using assms(2) by (simp add: distinct_ids_def distinct_map_filter)
  then have "\<forall>k \<in> set ?c. k = q \<or> before q k"
    using first_in_order_min [OF q(1)] by blast
  then show ?thesis using q first_in_order_Some [OF q(1)] by auto
qed

end
