(* ===== verification/JobContract.thy ===== *)
theory JobContract
  imports JobLifecycle
begin

text \<open>
  The contract of the job store (\<open>internal/jobs\<close>), as the properties of the development: the life
  cycle of a job, admission, the choice made by \<open>Claim\<close>, the cancellation cut-off of
  \<open>BeginCleanup\<close>, review and its resolution, recovery, the operation journal, listing, identifiers
  and the database file.
\<close>

section \<open>Rows for the witnesses\<close>

text \<open>A queued job with a given number as its identifier, and databases that hold some.\<close>

definition sample_id :: "nat \<Rightarrow> string" where
  "sample_id n = replicate 31 CHR ''0'' @ [hex_digit n]"

definition sample_job :: "nat \<Rightarrow> int \<Rightarrow> jstate \<Rightarrow> job" where
  "sample_job n t s = (new_job (sample_id n) ''com.example.app'' ''installed'')
     \<lparr>job_state := s, created_at := t, available_at := t, updated_at := t\<rparr>"

definition sample_db :: "job list \<Rightarrow> db" where
  "sample_db js = \<lparr>jobs = js, device = empty_device, operations = []\<rparr>"

lemmas sample_defs = sample_id_def sample_job_def sample_db_def new_job_def empty_device_def
  hex_digit_def

lemmas step_defs = find_job_def update_jobs_def update_device_def store_Claim_def store_Cancel_def
  store_BeginCleanup_def store_StartOperation_def claimable_def start_job_def before_def
  Terminal_def

section \<open>Life cycle\<close>

text \<open>
  C6. Whatever transactions run, a job is never lost, keeps its target, source and creation time,
  never forgets a cancellation, moves only forwards along \<open>CanTransition\<close>, and once terminal its
  state is final.
\<close>

theorem job_lifecycle:
  assumes "distinct_ids d" "store_step\<^sup>*\<^sup>* d d'" "find_job i d = Some j"
  shows "\<exists>j'. find_job i d' = Some j' \<and> lifecycle j j' \<and> rank (job_state j) \<le> rank (job_state j')
    \<and> (Terminal (job_state j) \<longrightarrow> job_state j' = job_state j)"
  using run_lifecycle [OF assms(2,1,3)]
  by (auto simp: lifecycle_def intro: rank_le Terminal_absorbing)

theorem job_lifecycle_witness:
  "\<exists>c d'. store_Claim 5 (sample_db [sample_job 1 0 Queued]) = Inr (Some c, d')
    \<and> (\<exists>j'. find_job (sample_id 1) d' = Some j' \<and> lifecycle (sample_job 1 0 Queued) j'
        \<and> rank (job_state (sample_job 1 0 Queued)) \<le> rank (job_state j')
        \<and> (Terminal (job_state (sample_job 1 0 Queued)) \<longrightarrow>
             job_state j' = job_state (sample_job 1 0 Queued)))"
proof -
  let ?d = "sample_db [sample_job 1 0 Queued]"
  obtain c d' where c: "store_Claim 5 ?d = Inr (Some c, d')"
    by (simp add: sample_defs step_defs)
  have "distinct_ids ?d" "find_job (sample_id 1) ?d = Some (sample_job 1 0 Queued)"
    by (simp_all add: distinct_ids_def sample_defs find_job_def)
  from job_lifecycle [OF this(1) r_into_rtranclp [of store_step, OF store_step.claim [OF c]] this(2)] c
  show ?thesis by blast
qed

section \<open>Admission and claiming\<close>

text \<open>
  C7. Only \<open>Enqueue\<close> adds to the queued and running jobs, one at a time and never past the
  limit it is given; every other transaction leaves as many or fewer.
\<close>

theorem admission_bounded:
  assumes "store_step d d'" "distinct_ids d"
  shows "occupancy d' \<le> occupancy d \<or>
    (\<exists>now r t s limit j. store_Enqueue now (new_job (NewID r) t s) limit d = Inr (j, d')
       \<and> occupancy d' = Suc (occupancy d) \<and> int (occupancy d') \<le> limit)"
  using step_length [OF assms(1)] occupancy_evolve [OF step_rows [OF assms]] occupancy_enqueue
  by blast

theorem admission_bounded_witness:
  "\<exists>c d'. store_Claim 5 (sample_db [sample_job 1 0 Queued, sample_job 2 0 Queued]) = Inr (Some c, d')
    \<and> (occupancy d' \<le> 2 \<or> (\<exists>limit. occupancy d' = 3 \<and> 3 \<le> (limit :: int)))"
proof -
  let ?d = "sample_db [sample_job 1 0 Queued, sample_job 2 0 Queued]"
  obtain c d' where c: "store_Claim 5 ?d = Inr (Some c, d')"
    by (simp add: sample_defs step_defs)
  have "distinct_ids ?d" and n: "occupancy ?d = 2"
    by (simp_all add: distinct_ids_def occupancy_def occupying_def sample_defs)
  from admission_bounded [OF store_step.claim [OF c] this(1)] c n show ?thesis by fastforce
qed

text \<open>
  C8. \<open>Claim\<close> gives out the device exclusively and in order: when it returns a job, the device was
  free and released from quarantine, the job was the oldest queued one whose time has come, the
  device now belongs to it and no other work is in flight; no other row changes. It returns no job
  exactly when the device is busy, under review, or nothing is due, and then changes nothing.
\<close>

theorem claim_exclusive_in_order:
  assumes "inv_store d" "lease d" "store_Claim now d = Inr (r, d')"
  shows "case r of
      None \<Rightarrow> d' = d \<and> (dev_quarantined (device d) \<or> dev_owner (device d) \<noteq> ''''
        \<or> (\<forall>k \<in> set (jobs d). \<not> claimable now k))
    | Some j \<Rightarrow> \<not> dev_quarantined (device d) \<and> dev_owner (device d) = ''''
        \<and> (\<exists>q \<in> set (jobs d). claimable now q \<and> j = (start_job q)\<lparr>updated_at := now\<rparr>
             \<and> (\<forall>k \<in> set (jobs d). claimable now k \<longrightarrow> k = q \<or> before q k))
        \<and> find_job (job_id j) d' = Some j \<and> dev_owner (device d') = job_id j
        \<and> (\<forall>k \<in> set (jobs d'). in_flight k \<longrightarrow> k = j)
        \<and> (\<forall>k. job_id k \<noteq> job_id j \<longrightarrow> (k \<in> set (jobs d')) = (k \<in> set (jobs d)))"
proof (cases r)
  case None
  then show ?thesis using claim_none assms(3) by simp
next
  case (Some j)
  have d: "distinct_ids d" using assms(1) by (simp add: inv_store_def)
  obtain q where q: "q \<in> set (jobs d)" "claimable now q" "j = (start_job q)\<lparr>updated_at := now\<rparr>"
      "\<not> dev_quarantined (device d)" "dev_owner (device d) = ''''"
      "d' = update_device (\<lambda>v. v\<lparr>dev_owner := job_id q\<rparr>)
              (update_jobs now (by_id (job_id q)) (\<lambda>_. start_job q) d)"
      "\<forall>k \<in> set (jobs d). claimable now k \<longrightarrow> k = q \<or> before q k"
    using claim_first [OF _ d] assms(3) Some by blast
  have jq: "job_id j = job_id q" "job_id (start_job q) = job_id q" by (simp_all add: q(3) start_job_def)
  note find = find_job_eq [OF d q(1)]
  have rows: "set (jobs d') = insert j {k \<in> set (jobs d). job_id k \<noteq> job_id j}"
    unfolding q(6) jobs_update_device set_update_by_id [OF d find] by (simp add: jq q(3))
  have "find_job (job_id j) d' = Some j"
    unfolding q(6) using find jq by (simp add: find_after_update q(3))
  moreover have "\<forall>k \<in> set (jobs d'). in_flight k \<longrightarrow> k = j"
    using lease_free [OF assms(1,2) q(5)] by (auto simp: rows)
  moreover have "dev_owner (device d') = job_id j" by (simp add: q(6) jq)
  ultimately show ?thesis using q rows Some by auto
qed

theorem claim_exclusive_in_order_witness:
  "\<exists>j d'. store_Claim 9 (sample_db [sample_job 2 5 Queued, sample_job 1 4 Queued, sample_job 3 8 Queued])
      = Inr (Some j, d') \<and> job_id j = sample_id 1 \<and> dev_owner (device d') = job_id j"
proof -
  let ?d = "sample_db [sample_job 2 5 Queued, sample_job 1 4 Queued, sample_job 3 8 Queued]"
  have i: "inv_store ?d" "lease ?d"
    by (simp_all add: inv_store_def inv_parts lease_def flag_defs sample_defs)
  obtain j d' where c: "store_Claim 9 ?d = Inr (Some j, d')" "job_id j = sample_id 1"
    by (simp add: sample_defs step_defs)
  from claim_exclusive_in_order [OF i c(1)] c show ?thesis by auto
qed

section \<open>Cancellation\<close>

lemma cancel_marks:
  assumes "store_Cancel now i d = Inr (u, d')"
  obtains j where "find_job i d' = Some j" "cancel_requested j"
proof -
  obtain j where "find_job i d = Some j"
      "d' = update_jobs now (by_id i) (\<lambda>k. k\<lparr>cancel_requested := True\<rparr>) d"
    using assms by (auto simp: store_Cancel_def split: option.splits if_splits)
  then show thesis by (intro that) (auto simp: find_after_update)
qed

text \<open>
  C9. A cancellation the store accepted before a job's cleanup began always wins, whatever happens
  in between: the cleanup is entered with the outcome cancelled and the matching code and message
  instead of the ones asked for, and from then on the store refuses to cancel the job.
\<close>

theorem cancellation_cutoff:
  assumes "distinct_ids d" "store_Cancel now i d = Inr (u, d1)" "store_step\<^sup>*\<^sup>* d1 d2"
    and "store_BeginCleanup now' i desired code message d2 = Inr (s, d3)"
  shows "s = Cancelled \<and> store_Cancel now'' i d3 = Inl ErrConflict
    \<and> (\<exists>j. find_job i d3 = Some j \<and> job_state j = Cleaning \<and> pending_state j = Cancelled
          \<and> error_code j = ''cancelled'' \<and> error_message j = ''The job was cancelled.'')"
proof -
  obtain j1 where j1: "find_job i d1 = Some j1" "cancel_requested j1"
    using assms(2) by (rule cancel_marks)
  have "distinct_ids d1" using step_distinct [OF store_step.cancel [OF assms(2)] assms(1)] .
  from run_lifecycle [OF assms(3) this j1(1)] j1(2)
  obtain j2 where "find_job i d2 = Some j2" "cancel_requested j2" by (auto simp: lifecycle_def)
  then show ?thesis
    using assms(4)
    by (auto simp: store_BeginCleanup_def find_after_update store_Cancel_def split: if_splits)
qed

theorem cancellation_cutoff_witness:
  "\<exists>d1 d3. store_Cancel 5 (sample_id 1) (sample_db [sample_job 1 0 Verifying]) = Inr ((), d1)
    \<and> store_BeginCleanup 6 (sample_id 1) Completed '''' '''' d1 = Inr (Cancelled, d3)"
proof -
  let ?d = "sample_db [sample_job 1 0 Verifying]"
  have d: "distinct_ids ?d" by (simp add: distinct_ids_def sample_defs)
  obtain d1 where d1: "store_Cancel 5 (sample_id 1) ?d = Inr ((), d1)"
    by (simp add: sample_defs step_defs)
  then obtain s d3 where d3: "store_BeginCleanup 6 (sample_id 1) Completed '''' '''' d1 = Inr (s, d3)"
    by (auto simp: sample_defs step_defs)
  from cancellation_cutoff [OF d d1 rtranclp.rtrancl_refl d3] d1 d3 show ?thesis by auto
qed

section \<open>Review and recovery\<close>

text \<open>
  C10. A job that waits for review can always be resolved, at any time: it then ends with the
  outcome recorded when its cleanup began, and the device leaves quarantine, with no owner, exactly
  when it was the last job under review.
\<close>

theorem review_resolvable:
  assumes "inv_store d" "find_job i d = Some j" "needs_review j"
  shows "\<exists>d' j'. store_Resolve now i d = Inr ((), d') \<and> find_job i d' = Some j'
    \<and> job_state j' = pending_state j \<and> Terminal (job_state j') \<and> cleanup_error j' = ''''
    \<and> dev_quarantined (device d') = (\<exists>k \<in> set (jobs d). job_id k \<noteq> i \<and> needs_review k)
    \<and> (\<not> dev_quarantined (device d') \<longrightarrow> device d' = empty_device)"
proof -
  have mem: "j \<in> set (jobs d)" "job_id j = i" and d: "distinct_ids d"
    using assms(1) find_job_Some [OF assms(2)] by (auto simp: inv_store_def)
  then have t: "Terminal (pending_state j)"
    using assms(1,3) by (auto simp: inv_store_def well_formed_def row_ok_def needs_review_def)
  let ?f = "\<lambda>k. k\<lparr>cleanup_error := '''', job_state := pending_state j, pending_state := NoState,
              job_phase := ''operator-confirmed cleanup''\<rparr>"
  let ?d = "update_jobs now (by_id i) ?f d"
  let ?rest = "\<exists>k \<in> set (jobs d). job_id k \<noteq> i \<and> needs_review k"
  let ?d' = "if ?rest then ?d else update_device
      (\<lambda>v. v\<lparr>dev_quarantined := False, dev_reason := '''', dev_owner := ''''\<rparr>) ?d"
  have rest: "(\<exists>k \<in> set (jobs ?d). needs_review k) = ?rest"
    using set_update_by_id [OF d assms(2), of now ?f] t
    by (auto simp: needs_review_def Terminal_def simp del: jobs_update_jobs)
  have "store_Resolve now i d = Inr ((), ?d')"
    using assms(2,3) t rest
    by (simp add: store_Resolve_def store_resolve_def Let_def filter_empty_conv needs_review_def [of j]
        del: jobs_update_jobs) blast
  moreover have "find_job i ?d' = Some ((?f j)\<lparr>updated_at := now\<rparr>)"
    by (simp add: find_after_update assms(2))
  moreover have "dev_quarantined (device d)"
    using assms(1,3) mem(1) by (auto simp: inv_store_def quarantine_agrees_def)
  ultimately show ?thesis using t by (auto simp: empty_device_def)
qed

definition sample_review :: job where
  "sample_review = (sample_job 1 0 Cleaning)\<lparr>cleanup_error := ''x'', pending_state := Completed\<rparr>"

definition sample_quarantined :: db where
  "sample_quarantined = update_device (\<lambda>v. v\<lparr>dev_quarantined := True\<rparr>) (sample_db [sample_review])"

lemmas sample_review_defs = sample_review_def sample_quarantined_def sample_defs update_device_def

theorem review_resolvable_witness:
  "\<exists>d'. store_Resolve 5 (sample_id 1) sample_quarantined = Inr ((), d') \<and> device d' = empty_device"
proof -
  have "inv_store sample_quarantined" "find_job (sample_id 1) sample_quarantined = Some sample_review"
      "needs_review sample_review" and only: "\<forall>k \<in> set (jobs sample_quarantined). job_id k = sample_id 1"
    by (simp_all add: inv_store_def inv_parts flag_defs find_job_def Terminal_def sample_review_defs)
  from review_resolvable [OF this(1-3), of 5] only show ?thesis by auto
qed

lemma recover_rows:
  assumes "store_Recover now d = Inr (u, d')"
  shows "jobs d' = map (\<lambda>j. if active j \<and> \<not> needs_review j then (recover_job j)\<lparr>updated_at := now\<rparr> else j) (jobs d)"
  using assms by (auto simp: store_Recover_def Let_def split: if_splits)

lemma recover_again:
  assumes "store_Recover now d = Inr (u, d')"
  shows "store_Recover now' d' = Inr ((), d')"
proof -
  have rj: "needs_review (recover_job j)" for j by (simp add: recover_job_def needs_review_def)
  then have reviewed: "active j \<longrightarrow> needs_review j" if "j \<in> set (jobs d')" for j
    using that unfolding recover_rows [OF assms] by (auto split: if_splits)
  have same: "update_jobs now' (\<lambda>j. active j \<and> \<not> needs_review j) recover_job d' = d'"
  proof -
    have "map (\<lambda>j. if active j \<and> \<not> needs_review j then (recover_job j)\<lparr>updated_at := now'\<rparr> else j)
        (jobs d') = jobs d'"
      by (rule map_idI) (use reviewed in auto)
    then show ?thesis by (simp add: update_jobs_def)
  qed
  have act: "filter active (jobs d') = [] \<longleftrightarrow> filter active (jobs d) = []"
  proof -
    let ?g = "\<lambda>j. if active j \<and> \<not> needs_review j then (recover_job j)\<lparr>updated_at := now\<rparr> else j"
    have "active (?g j) = active j" for j
      using rj [of j] by (cases "needs_review j") (simp_all add: active_cases)
    then have "filter active (map ?g js) = [] \<longleftrightarrow> filter active js = []" for js
      by (induction js) (simp_all del: if_split)
    then show ?thesis unfolding recover_rows [OF assms] .
  qed
  let ?quarantine = "\<lambda>v. v\<lparr>dev_owner := '''', dev_quarantined := True,
    dev_reason := ''Interrupted or unconfirmed cleanup requires operator review.''\<rparr>"
  have again: "store_Recover now' d' = Inr ((), update_device
      (if filter active (jobs d) = [] then (\<lambda>v. v\<lparr>dev_owner := ''''\<rparr>) else ?quarantine) d')"
    by (simp add: store_Recover_def Let_def same act)
  have "device d' = (if filter active (jobs d) = [] then (\<lambda>v. v\<lparr>dev_owner := ''''\<rparr>) else ?quarantine) (device d)"
    using assms by (auto simp: store_Recover_def Let_def split: if_splits)
  then show ?thesis
    unfolding again by (cases "filter active (jobs d) = []") (simp_all add: update_device_def)
qed

text \<open>
  C11. Recovery restores the invariant after a stop at any point. From well-formed rows, whatever
  was in flight, afterwards nothing is and the device has no owner; an interrupted job waits for
  review with the outcome its cleanup had recorded, or else cancelled if that had been requested
  and failed otherwise; every other row is untouched; and running recovery again changes nothing.
\<close>

theorem recover_quarantines:
  assumes "distinct_ids d" "well_formed d" "store_Recover now d = Inr (u, d')"
    and "dev_quarantined (device d) \<longrightarrow> (\<exists>j \<in> set (jobs d). needs_review j)"
  shows "inv_store d' \<and> (\<forall>j \<in> set (jobs d'). \<not> in_flight j) \<and> dev_owner (device d') = ''''
    \<and> (\<forall>j \<in> set (jobs d). \<exists>j'. find_job (job_id j) d' = Some j'
        \<and> (if in_flight j then needs_review j' \<and> pending_state j' =
             (if job_state j = Cleaning \<and> Terminal (pending_state j) then pending_state j
              else if cancel_requested j then Cancelled else Failed)
           else j' = j))
    \<and> store_Recover now' d' = Inr ((), d')"
proof -
  note inv = recover_inv [OF assms]
  have "\<exists>j'. find_job (job_id j) d' = Some j' \<and> (if in_flight j then needs_review j' \<and> pending_state j' =
             (if job_state j = Cleaning \<and> Terminal (pending_state j) then pending_state j
              else if cancel_requested j then Cancelled else Failed) else j' = j)"
    if "j \<in> set (jobs d)" for j
  proof -
    let ?g = "\<lambda>j. if active j \<and> \<not> needs_review j then (recover_job j)\<lparr>updated_at := now\<rparr> else j"
    have "find_job (job_id j) d' = Some (?g j)"
      using find_job_eq [OF assms(1) that]
      by (simp add: find_job_def recover_rows [OF assms(3)] row_map recover_job_def)
    then show ?thesis
      by (auto simp: active_cases recover_job_def needs_review_def dest: flight_not_review)
  qed
  then show ?thesis using inv recover_again [OF assms(3)] by blast
qed

theorem recover_quarantines_witness:
  "\<exists>d'. store_Recover 5 (sample_db [sample_job 1 0 Verifying, sample_job 2 0 Queued]) = Inr ((), d')
    \<and> inv_store d' \<and> store_Recover 6 d' = Inr ((), d')"
proof -
  let ?d = "sample_db [sample_job 1 0 Verifying, sample_job 2 0 Queued]"
  obtain d' where r: "store_Recover 5 ?d = Inr ((), d')"
    by (cases "filter active (jobs ?d)") (auto simp: store_Recover_def Let_def)
  have "distinct_ids ?d" "well_formed ?d"
    "dev_quarantined (device ?d) \<longrightarrow> (\<exists>j \<in> set (jobs ?d). needs_review j)"
    by (simp_all add: inv_parts flag_defs sample_defs)
  from recover_quarantines [OF this(1,2) r this(3)] r show ?thesis by blast
qed

section \<open>The journal of device operations\<close>

lemma step_operations: "store_step d d' \<Longrightarrow> set (operations d) \<subseteq> set (operations d')"
proof (induction rule: store_step.induct)
  case (claim now d c d')
  then show ?case by (cases rule: claim_cases) auto
next
  case (begin_cleanup now i s c m d p d')
  then show ?case by (auto elim!: begin_cleanup_cases)
next
  case (resolve now i ph d u d')
  then show ?case by (auto elim!: resolve_cases)
qed (auto simp: store_Enqueue_def store_Release_def store_Change_def store_Progress_def
    store_Cancel_def store_Retry_def store_Metadata_def store_StartOperation_def
    store_Quarantine_def store_Recover_def Let_def split: option.splits if_splits)

lemma run_operations: "store_step\<^sup>*\<^sup>* d d' \<Longrightarrow> set (operations d) \<subseteq> set (operations d')"
  by (induction rule: rtranclp_induct) (use step_operations in blast)+

lemma sorted_operations:
  "set (map op_id (sort_key (\<lambda>p. (op_created p, op_id p)) ps)) = op_id ` set ps"
  by simp

text \<open>
  C12. \<open>StartOperation\<close> is granted only to the running job that owns a device free of quarantine;
  the operation it committed is listed by \<open>Operations\<close> for that job ever after, whatever
  transactions run.
\<close>

theorem operations_durable:
  assumes "store_StartOperation now op i d = Inr (r, d1)" "store_step\<^sup>*\<^sup>* d1 d2"
  shows "r = op \<and> (\<exists>j. find_job i d = Some j \<and> job_state j = Running)
    \<and> dev_owner (device d) = i \<and> \<not> dev_quarantined (device d)
    \<and> (\<exists>ops. store_Operations i d2 = Inr (ops, d2) \<and> op \<in> set ops)"
proof -
  have "\<lparr>op_id = op, op_job = i, op_created = now\<rparr> \<in> set (operations d1)" and r: "r = op"
    using assms(1) by (auto simp: store_StartOperation_def split: option.splits if_splits)
  then have "\<lparr>op_id = op, op_job = i, op_created = now\<rparr> \<in> set (operations d2)"
    using run_operations [OF assms(2)] by blast
  then have "op \<in> op_id ` set (filter (\<lambda>p. op_job p = i) (operations d2))" by force
  then show ?thesis
    using assms(1) r unfolding store_Operations_def
    by (auto simp: store_StartOperation_def split: option.splits if_splits)
qed

definition sample_running :: db where
  "sample_running = update_device (\<lambda>v. v\<lparr>dev_owner := sample_id 1\<rparr>) (sample_db [sample_job 1 0 Running])"

theorem operations_durable_witness:
  "\<exists>d1. store_StartOperation 5 ''op'' (sample_id 1) sample_running = Inr (''op'', d1)
    \<and> (\<exists>ops. store_Operations (sample_id 1) d1 = Inr (ops, d1) \<and> ''op'' \<in> set ops)"
proof -
  obtain d1 where s: "store_StartOperation 5 ''op'' (sample_id 1) sample_running = Inr (''op'', d1)"
    by (simp add: sample_running_def sample_defs step_defs)
  from operations_durable [OF s rtranclp.rtrancl_refl] s show ?thesis by blast
qed

section \<open>Listing\<close>

text \<open>
  C13. \<open>List\<close> returns at most 200 jobs, newest first, only jobs of the table, and leaves out a job
  only when 200 jobs at least as new are returned.
\<close>

theorem list_newest_first:
  "\<exists>js. store_List d = Inr (js, d) \<and> length js = min 200 (length (jobs d))
    \<and> sorted_wrt (\<lambda>a b. created_at b \<le> created_at a) js \<and> set js \<subseteq> set (jobs d)
    \<and> (\<forall>k \<in> set (jobs d) - set js. length js = 200 \<and> (\<forall>j \<in> set js. created_at k \<le> created_at j))"
proof -
  let ?s = "sort_key (\<lambda>j. - created_at j) (jobs d)"
  have sorted: "sorted_wrt (\<lambda>a b. created_at b \<le> created_at a) ?s"
    using sorted_sort_key [of "\<lambda>j. - created_at j" "jobs d"] by (simp add: sorted_map)
  have split: "?s = take 200 ?s @ drop 200 ?s" by simp
  have "sorted_wrt (\<lambda>a b. created_at b \<le> created_at a) (take 200 ?s @ drop 200 ?s)"
    using sorted by simp
  then have cross: "\<forall>j \<in> set (take 200 ?s). \<forall>k \<in> set (drop 200 ?s). created_at k \<le> created_at j"
    and front: "sorted_wrt (\<lambda>a b. created_at b \<le> created_at a) (take 200 ?s)"
    unfolding sorted_wrt_append by auto
  have "set (jobs d) = set (take 200 ?s) \<union> set (drop 200 ?s)"
    by (metis set_append set_sort split)
  moreover have "length (take 200 ?s) = 200" if "k \<in> set (drop 200 ?s)" for k
    using that by (cases "length ?s \<le> 200") auto
  ultimately show ?thesis using cross front by (auto simp: store_List_def dest: in_set_takeD)
qed

theorem list_newest_first_witness:
  "\<exists>js. store_List (sample_db [sample_job 1 0 Queued, sample_job 2 3 Failed]) =
      Inr (js, sample_db [sample_job 1 0 Queued, sample_job 2 3 Failed]) \<and> length js = 2"
  using list_newest_first [of "sample_db [sample_job 1 0 Queued, sample_job 2 3 Failed]"]
  by (auto simp: sample_db_def)

section \<open>Identifiers\<close>

lemma hex_digit_inj: "hex_digit a = hex_digit b \<Longrightarrow> a mod 16 = b mod 16"
proof -
  have "inj_on (nth ''0123456789abcdef'') {..<16}"
    by (rule inj_on_nth) (simp_all add: lessThan_Suc)
  moreover assume "hex_digit a = hex_digit b"
  ultimately show ?thesis by (auto simp: hex_digit_def dest: inj_onD)
qed

lemma hex_encode_inj:
  "length as = length bs \<Longrightarrow> hex_encode as = hex_encode bs \<Longrightarrow>
   \<forall>x \<in> set as \<union> set bs. x < 256 \<Longrightarrow> as = bs"
proof (induction "as" bs rule: list_induct2)
  case (Cons a as b bs)
  then have "a div 16 mod 16 = b div 16 mod 16" "a mod 16 = b mod 16" "hex_encode as = hex_encode bs"
    by (auto simp: hex_encode_def dest: hex_digit_inj)
  moreover have "a < 256" "b < 256" using Cons.prems by auto
  then have "a div 16 < 16" "b div 16 < 16" by (simp_all add: div_less_iff_less_mult)
  ultimately have "a div 16 = b div 16" "a mod 16 = b mod 16" by simp_all
  then have "a = b" by (metis div_mult_mod_eq)
  then show ?case using Cons by (auto simp: hex_encode_def)
qed simp

lemma random_bytes_inj:
  assumes "random_bytes a = random_bytes b" "a < 256 ^ 16" "b < 256 ^ 16"
  shows "a = b"
proof -
  have digits: "a div 256 ^ i mod 256 = b div 256 ^ i mod 256" if "i < 16" for i
    using assms(1) that by (simp add: random_bytes_def del: upt.simps)
  have "a mod 256 ^ n = b mod 256 ^ n" if "n \<le> 16" for n
    using that
  proof (induction n)
    case (Suc n)
    then show ?case
      using digits [of n] by (simp add: mod_mult2_eq mult.commute [of 256])
  qed simp
  from this [of 16] assms(2,3) show ?thesis by simp
qed

text \<open>
  An identifier made by \<open>NewID\<close> is always valid for the storage layer, and two reads of the
  random source give the same identifier only when they are the same sixteen bytes.
\<close>

theorem NewID_valid_and_faithful:
  "ValidID (NewID r) \<and> (r < 256 ^ 16 \<and> r' < 256 ^ 16 \<and> NewID r = NewID r' \<longrightarrow> r = r')"
proof -
  have "random_bytes r = random_bytes r'" if "NewID r = NewID r'"
    using that unfolding NewID_def
    by (rule hex_encode_inj [rotated]) (auto simp: random_bytes_def simp del: upt.simps)
  then show ?thesis using ValidID_NewID random_bytes_inj by blast
qed

theorem NewID_valid_and_faithful_witness:
  "(7::nat) < 256 ^ 16 \<and> ValidID (NewID 7)"
  using NewID_valid_and_faithful [of 7 7] by simp

end
