(* ===== verification/Storage.thy ===== *)
theory Storage
  imports World JobContract
begin

text \<open>
  The private data directory (\<open>internal/storage/storage.go\<close>): opening it under an exclusive lock,
  workspaces, removal, publication of a verified artifact and reconciliation of the library's
  temporary files. Every system call may fail or be the last one before a crash, as theory World
  describes; \<open>root\<close> is \<open>Store.Root\<close>. Proofs about files assume that no other goroutine acts
  (\<open>solo\<close>), with failures and crashes still arbitrary.
\<close>

section \<open>Operations\<close>

definition perm_dir :: nat where "perm_dir = 448"
definition perm_file :: nat where "perm_file = 384"

definition lock_path :: "path \<Rightarrow> path" where
  "lock_path root = root @ [''service.lock'']"

text \<open>
  \<open>Store.Close\<close>: closing the lock file releases its lock, also when the call reports an error (the file
  descriptor is gone either way).
\<close>

definition storage_Close :: "path \<Rightarrow> (go_error + unit) io" where
  "storage_Close root = do {
     s \<leftarrow> env_step;
     State (\<lambda>w.
       if outcome s = Crash then (Inl ErrIO, w)
       else (if outcome s = Succeed then Inr () else Inl ErrIO,
             w\<lparr>files := os_Unlock (lock_path root) (files w)\<rparr>)) }"

definition storage_dirs :: "string list" where
  "storage_dirs = [''work'', ''inputs'', ''artifacts'', ''secrets'', ''tmp'', ''device-journal'']"

text \<open>One iteration of the loop over the directories; the lock is given back on every error.\<close>

definition open_dir :: "path \<Rightarrow> string \<Rightarrow> (go_error + unit) io" where
  "open_dir root name = do {
     r \<leftarrow> sys (os_MkdirAll (root @ [name]) perm_dir);
     case r of
       Inl e \<Rightarrow> do { storage_Close root; ret (Inl e) }
     | Inr _ \<Rightarrow> do {
         i \<leftarrow> sys (os_Lstat (root @ [name]));
         case i of
           Inl e \<Rightarrow> do { storage_Close root; ret (Inl (ErrText ''unsafe storage directory'')) }
         | Inr n \<Rightarrow>
             if node_type n \<noteq> Directory \<or> exposed n
             then do { storage_Close root; ret (Inl (ErrText ''unsafe storage directory'')) }
             else ret (Inr ()) }
   }"

text \<open>An existing lock file must be a private regular file.\<close>

definition lock_guard :: "path \<Rightarrow> (go_error + unit) io" where
  "lock_guard root = do {
     l \<leftarrow> sys (os_Lstat (lock_path root));
     case l of
       Inr n \<Rightarrow>
         if \<not> private_regular n
         then ret (Inl (ErrText ''service lock must be a private regular file''))
         else ret (Inr ())
     | Inl e \<Rightarrow> if errors_is e ErrNotExist then ret (Inr ()) else ret (Inl e)
   }"

definition storage_Open :: "path \<Rightarrow> (go_error + unit) io" where
  "storage_Open root =
     check (sys (os_MkdirAll root perm_dir)) (\<lambda>_.
     check (sys (os_Lstat root)) (\<lambda>info.
     if node_type info \<noteq> Directory \<or> exposed info
     then ret (Inl (ErrText ''data directory must be a real directory with mode 0700''))
     else
     check (lock_guard root) (\<lambda>_.
     check (sys (os_OpenCreate (lock_path root) perm_file)) (\<lambda>_. do {
       k \<leftarrow> sys (os_Flock (lock_path root));
       case k of
         Inl e \<Rightarrow> ret (Inl (ErrText ''data directory is already in use''))
       | Inr _ \<Rightarrow> for_each (open_dir root) storage_dirs
     }))))"

definition Workspace :: "path \<Rightarrow> string \<Rightarrow> (go_error + path) io" where
  "Workspace root i =
     (case Path root ''work'' i of
        Inl e \<Rightarrow> ret (Inl e)
      | Inr p \<Rightarrow> check (sys (os_Mkdir p perm_dir)) (\<lambda>_. ret (Inr p)))"

definition Remove :: "path \<Rightarrow> string \<Rightarrow> string \<Rightarrow> error io" where
  "Remove root kind i =
     (case Path root kind i of
        Inl e \<Rightarrow> ret (Some e)
      | Inr p \<Rightarrow>
          if kind = ''work'' then do { r \<leftarrow> sys (os_RemoveAll p); ret (error_of r) }
          else do {
            r \<leftarrow> sys (os_Remove p);
            case r of
              Inr _ \<Rightarrow> ret None
            | Inl e \<Rightarrow> ret (if errors_is e ErrNotExist then None else Some e) })"

text \<open>\<open>Sync\<close> on an open file or directory.\<close>

definition os_Sync :: "path \<Rightarrow> unit syscall" where
  "os_Sync p f = (if p = [] \<or> fs_get p f \<noteq> None then Inr ((), f) else Inl ErrNotExist)"

text \<open>\<open>os.Open\<close> or \<open>os.OpenFile\<close> without creation.\<close>

definition os_Open :: "path \<Rightarrow> node syscall" where
  "os_Open p f = (case fs_get p f of None \<Rightarrow> Inl ErrNotExist | Some n \<Rightarrow> Inr (n, f))"

text \<open>
  \<open>Publish\<close>: the digest of SHA-256 is a parameter. \<open>io.Copy\<close> reads the whole file into the hash.
\<close>

definition publish_content ::
  "(string \<Rightarrow> nat list) \<Rightarrow> path \<Rightarrow> path \<Rightarrow> node \<Rightarrow> (go_error + (int \<times> string)) io" where
  "publish_content sha256 from dest info =
     check (sys (os_ReadFile from)) (\<lambda>content.
     check (sys (os_Sync from)) (\<lambda>_.
     check (sys (os_Chmod from perm_file)) (\<lambda>_.
     check (sys (os_Rename from dest)) (\<lambda>_.
     check (sys (os_Open (butlast dest))) (\<lambda>_.
     check (sys (os_Sync (butlast dest))) (\<lambda>_.
     ret (Inr (int (length (node_data info)), hex_encode (sha256 content)))))))))"

definition Publish ::
  "(string \<Rightarrow> nat list) \<Rightarrow> path \<Rightarrow> string \<Rightarrow> path \<Rightarrow> (go_error + (int \<times> string)) io" where
  "Publish sha256 root i from =
     (case Path root ''artifacts'' i of
        Inl e \<Rightarrow> ret (Inl e)
      | Inr dest \<Rightarrow>
     if from \<noteq> root @ [''work'', i, ''output.ipa'']
     then ret (Inl (ErrText ''output outside workspace''))
     else do {
       source \<leftarrow> sys (os_Lstat from);
       case source of
         Inl e \<Rightarrow> ret (Inl (ErrText ''output must be a regular file''))
       | Inr n \<Rightarrow>
     if node_type n \<noteq> Regular then ret (Inl (ErrText ''output must be a regular file''))
     else check (sys (os_Open from)) (\<lambda>_. do {
       st \<leftarrow> sys (os_Lstat from);
       case st of
         Inl e \<Rightarrow> ret (Inl (ErrText ''invalid output''))
       | Inr info \<Rightarrow>
     if node_type info \<noteq> Regular then ret (Inl (ErrText ''invalid output''))
     else publish_content sha256 from dest info })})"

text \<open>One iteration of the loop of \<open>CleanupTemp\<close>.\<close>

definition remove_tmp :: "path \<Rightarrow> string \<times> node \<Rightarrow> (go_error + unit) io" where
  "remove_tmp root entry =
     (if \<not> allowed_tmp (fst entry) \<or> node_type (snd entry) = Directory
      then ret (Inl (ErrText ''unrecognized private temporary resource''))
      else do {
        r \<leftarrow> sys (os_Remove (root @ [''tmp'', fst entry]));
        case r of
          Inr _ \<Rightarrow> ret (Inr ())
        | Inl e \<Rightarrow> if errors_is e ErrNotExist then ret (Inr ()) else ret (Inl e) })"

definition CleanupTemp :: "path \<Rightarrow> error io" where
  "CleanupTemp root = do {
     r \<leftarrow> check (sys (os_ReadDir (root @ [''tmp'']))) (for_each (remove_tmp root));
     ret (error_of r) }"

definition SyncInputs :: "path \<Rightarrow> error io" where
  "SyncInputs root = do {
     r \<leftarrow> check (sys (os_Open (root @ [''inputs'']))) (\<lambda>_. sys (os_Sync (root @ [''inputs''])));
     ret (error_of r) }"

section \<open>The database does not change\<close>

lemma keeps_Workspace [keeps_rules]: "db_stable p \<Longrightarrow> keeps (\<lambda>w. p (store w)) (Workspace root i)"
  unfolding Workspace_def by (intro keeps_rules)

lemma keeps_Remove [keeps_rules]: "db_stable p \<Longrightarrow> keeps (\<lambda>w. p (store w)) (Remove root kind i)"
  unfolding Remove_def by (intro keeps_rules)

lemma keeps_Publish [keeps_rules]: "db_stable p \<Longrightarrow> keeps (\<lambda>w. p (store w)) (Publish h root i from)"
  unfolding Publish_def publish_content_def by (intro keeps_rules)

lemma keeps_CleanupTemp [keeps_rules]: "db_stable p \<Longrightarrow> keeps (\<lambda>w. p (store w)) (CleanupTemp root)"
  unfolding CleanupTemp_def remove_tmp_def by (intro keeps_rules)

lemma keeps_SyncInputs [keeps_rules]: "db_stable p \<Longrightarrow> keeps (\<lambda>w. p (store w)) (SyncInputs root)"
  unfolding SyncInputs_def by (intro keeps_rules)

lemma keeps_storage_Close [keeps_rules]: "db_stable p \<Longrightarrow> keeps (\<lambda>w. p (store w)) (storage_Close root)"
  unfolding storage_Close_def by (intro keeps_rules) (auto simp: keeps_def holds_def)

text \<open>Closing gives the lock back, unless the process is dead.\<close>

lemma storage_Close_unlocks:
  assumes "run_state (storage_Close root) w = (r, w')"
  shows "crashed w' \<or> lock_path root \<notin> set (locks (files w'))"
proof -
  obtain s w1 where s: "run_state env_step w = (s, w1)" by fastforce
  then have "outcome s = Crash \<longrightarrow> crashed w1"
    by (auto simp: env_step_def dead_slot_def Let_def split: prod.splits if_splits)
  then show ?thesis using assms s by (auto simp: storage_Close_def os_Unlock_def split: if_splits)
qed

lemma keeps_storage_Open [keeps_rules]: "db_stable p \<Longrightarrow> keeps (\<lambda>w. p (store w)) (storage_Open root)"
  unfolding storage_Open_def lock_guard_def open_dir_def by (intro keeps_rules)

section \<open>Files, with nobody else acting\<close>

definition solo :: "world \<Rightarrow> bool" where
  "solo w \<longleftrightarrow> (\<forall>s \<in> set (script w). acts s = [])"

text \<open>\<open>on_files p\<close>: nobody else acts, and \<open>p\<close> holds of the directory.\<close>

definition on_files :: "(fs \<Rightarrow> bool) \<Rightarrow> world \<Rightarrow> bool" where
  "on_files p w \<longleftrightarrow> solo w \<and> p (files w)"

lemma env_step_solo:
  assumes "solo w" "run_state env_step w = (s, w')"
  shows "solo w' \<and> files w' = files w"
proof (cases "crashed w")
  case True
  then show ?thesis using assms by (auto simp: env_step_def)
next
  case False
  then show ?thesis
    using assms by (cases "script w")
      (auto simp: env_step_def next_slot_def solo_def Let_def idle_slot_def split: if_splits)
qed

lemma holds_files:
  assumes "\<And>f. p f \<Longrightarrow> q (Inl ErrIO) f"
    and "\<And>f e. p f \<Longrightarrow> c f = Inl e \<Longrightarrow> q (Inl e) f"
    and "\<And>f a f'. p f \<Longrightarrow> c f = Inr (a, f') \<Longrightarrow> q (Inr a) f'"
  shows "holds (on_files p) (sys c) (\<lambda>r. on_files (q r))"
proof (rule holdsI)
  fix w r w' assume P: "on_files p w" and run: "run_state (sys c) w = (r, w')"
  obtain s w1 where s: "run_state env_step w = (s, w1)" by fastforce
  then have w1: "solo w1" "files w1 = files w" using P env_step_solo by (auto simp: on_files_def)
  have "solo (w1\<lparr>files := f\<rparr>)" for f using w1(1) by (simp add: solo_def)
  then show "on_files (q r) w'"
    using run s w1 P assms
    by (auto simp: sys_def on_files_def split: if_splits sum.splits prod.splits)
qed

lemma holds_files_ret: "(\<And>f. p f \<Longrightarrow> q a f) \<Longrightarrow> holds (on_files p) (ret a) (\<lambda>r. on_files (q r))"
  by (rule holds_ret) (simp add: on_files_def)

lemma holds_files_bind:
  assumes "holds (on_files p) m (\<lambda>r. on_files (q r))"
    and "\<And>a. holds (on_files (q a)) (k a) (\<lambda>r. on_files (u r))"
  shows "holds (on_files p) (State_Monad.bind m k) (\<lambda>r. on_files (u r))"
  by (rule holds_bind [OF assms])

lemma holds_files_check:
  assumes "holds (on_files p) m (\<lambda>r. on_files (q r))" "\<And>e f. q (Inl e) f \<Longrightarrow> u (Inl e) f"
    and "\<And>a. holds (on_files (q (Inr a))) (k a) (\<lambda>r. on_files (u r))"
  shows "holds (on_files p) (check m k) (\<lambda>r. on_files (u r))"
  by (rule holds_check [OF assms(1) _ assms(3)]) (use assms(2) in \<open>auto simp: on_files_def\<close>)

lemma holds_files_for_each:
  assumes "\<And>x. x \<in> set xs \<Longrightarrow> holds (on_files p) (g x) (\<lambda>r. on_files (case r of Inl _ \<Rightarrow> e | Inr _ \<Rightarrow> p))"
  shows "holds (on_files p) (for_each g xs) (\<lambda>r. on_files (case r of Inl _ \<Rightarrow> e | Inr _ \<Rightarrow> p))"
  using assms
proof (induction xs)
  case Nil
  show ?case unfolding for_each.simps by (rule holds_ret) simp
next
  case (Cons x xs)
  show ?case
    unfolding for_each.simps
    by (rule holds_check [OF Cons.prems [of x]]) (use Cons in \<open>auto simp: on_files_def\<close>)
qed

text \<open>Nobody else acts, the process is alive and none of its calls will fail.\<close>

definition undisturbed :: "world \<Rightarrow> bool" where
  "undisturbed w \<longleftrightarrow> solo w \<and> \<not> crashed w \<and> (\<forall>s \<in> set (script w). outcome s = Succeed)"

lemma undisturbed_sys:
  assumes "undisturbed w" "c (files w) = Inr (a, f)"
  shows "\<exists>w'. run_state (sys c) w = (Inr a, w') \<and> undisturbed w' \<and> files w' = f"
  using assms
  by (cases "script w")
    (auto simp: sys_def env_step_def next_slot_def idle_slot_def Let_def undisturbed_def solo_def)

text \<open>One system call, with nobody else acting: it fails and changes nothing, or it does its work.\<close>

lemma run_sys:
  assumes "solo w" "run_state (sys c) w = (r, w')"
  obtains (failed) e where "r = Inl e" "files w' = files w" "solo w'"
      "e = ErrIO \<or> c (files w) = Inl e"
  | (finished) a where "r = Inr a" "c (files w) = Inr (a, files w')" "solo w'"
proof -
  obtain s w1 where s: "run_state env_step w = (s, w1)" by fastforce
  from env_step_solo [OF assms(1) this] have w1: "solo w1" "files w1 = files w" by simp_all
  have sl: "solo (w1\<lparr>files := f\<rparr>)" for f using w1(1) by (simp add: solo_def)
  show thesis
  proof (cases "outcome s = Succeed")
    case True
    show ?thesis
    proof (cases "c (files w)")
      case (Inl e)
      then show ?thesis using assms(2) s w1 True by (intro failed [of e]) (auto simp: sys_def)
    next
      case (Inr x)
      then show ?thesis using assms(2) s w1 True sl
        by (cases x) (auto simp: sys_def intro!: finished)
    qed
  next
    case False
    then show ?thesis using assms(2) s w1 by (intro failed [of ErrIO]) (auto simp: sys_def)
  qed
qed

lemma run_check_Inr:
  assumes "run_state (check m k) w = (Inr b, w'')"
  obtains a w' where "run_state m w = (Inr a, w')" "run_state (k a) w' = (Inr b, w'')"
proof -
  obtain r w' where m: "run_state m w = (r, w')" by fastforce
  then show thesis using assms by (cases r) (auto simp: run_check intro: that)
qed

lemma run_sys_Inr:
  assumes "solo w" "run_state (sys c) w = (Inr a, w')"
  shows "c (files w) = Inr (a, files w')" "solo w'"
  using assms(2) by (cases rule: run_sys [OF assms]; simp)+

text \<open>
  \<open>does m w b w'\<close>: with nobody else acting, the program succeeds with result \<open>b\<close>. The rules take it
  apart call by call.
\<close>

definition does :: "(go_error + 'a) io \<Rightarrow> world \<Rightarrow> 'a \<Rightarrow> world \<Rightarrow> bool" where
  "does m w b w' \<longleftrightarrow> solo w \<and> run_state m w = (Inr b, w')"

lemma does_case:
  assumes "does (sys c \<bind> (\<lambda>r. case r of Inl e \<Rightarrow> ret (Inl (g e)) | Inr a \<Rightarrow> k a)) w b w''"
  obtains a w' where "c (files w) = Inr (a, files w')" "does (k a) w' b w''"
proof -
  have w: "solo w" using assms by (simp add: does_def)
  obtain r w' where m: "run_state (sys c) w = (r, w')" by fastforce
  with assms obtain a where a: "r = Inr a" by (cases r) (auto simp: does_def)
  note call = run_sys_Inr [OF w m [unfolded a]]
  show thesis by (rule that [OF call(1)]) (use assms m a call(2) in \<open>simp add: does_def\<close>)
qed

lemma does_check:
  assumes "does (check (sys c) k) w b w''"
  obtains a w' where "c (files w) = Inr (a, files w')" "does (k a) w' b w''"
  using assms unfolding check_def by (rule does_case) (rule that)

lemma does_guard:
  assumes "does (if p then ret (Inl e) else m) w b w''"
  obtains "\<not> p" "does m w b w''"
  using assms by (cases p) (auto simp: does_def)

lemma does_ret:
  assumes "does (ret r) w b w''"
  obtains "r = Inr b" "w'' = w"
  using assms by (auto simp: does_def)

lemmas does_elims = does_check does_case does_guard does_ret

section \<open>What a call may change\<close>

text \<open>\<open>confined X c\<close>: the call changes nothing outside \<open>X\<close>.\<close>

definition confined :: "(path \<Rightarrow> bool) \<Rightarrow> 'a syscall \<Rightarrow> bool" where
  "confined X c \<longleftrightarrow> (\<forall>f a f' p. c f = Inr (a, f') \<longrightarrow> \<not> X p \<longrightarrow> fs_get p f' = fs_get p f)"

definition agrees :: "(path \<Rightarrow> bool) \<Rightarrow> fs \<Rightarrow> fs \<Rightarrow> bool" where
  "agrees X f f' \<longleftrightarrow> (\<forall>p. \<not> X p \<longrightarrow> fs_get p f' = fs_get p f)"

named_theorems confined_rules \<open>what each system call may change\<close>

lemma keeps_confined: "confined X c \<Longrightarrow> keeps (on_files (agrees X f)) (sys c)"
  unfolding keeps_def by (rule holds_files) (auto simp: confined_def agrees_def)

lemma confined_reads [confined_rules]:
  "confined X (os_Lstat p)" "confined X (os_Open p)" "confined X (os_ReadFile p)"
  "confined X (os_Sync p)" "confined X (os_ReadDir p)"
  by (auto simp: confined_def os_Lstat_def os_Open_def os_ReadFile_def os_Sync_def os_ReadDir_def
      split: option.splits if_splits)

lemma confined_Mkdir [confined_rules]: "X p \<Longrightarrow> confined X (os_Mkdir p perm)"
  by (auto simp: confined_def os_Mkdir_def split: if_splits)

lemma confined_Remove [confined_rules]: "X p \<Longrightarrow> confined X (os_Remove p)"
  by (auto simp: confined_def os_Remove_def split: option.splits if_splits)

lemma confined_RemoveAll [confined_rules]: "(\<And>q. prefix p q \<Longrightarrow> X q) \<Longrightarrow> confined X (os_RemoveAll p)"
  by (auto simp: confined_def os_RemoveAll_def)

lemma confined_Chmod [confined_rules]: "X p \<Longrightarrow> confined X (os_Chmod p perm)"
  by (auto simp: confined_def os_Chmod_def split: option.splits)

lemma confined_Rename [confined_rules]: "X p \<Longrightarrow> X q \<Longrightarrow> confined X (os_Rename p q)"
  by (auto simp: confined_def os_Rename_def split: option.splits if_splits)

lemma keeps_if_cond: "(b \<Longrightarrow> keeps I m) \<Longrightarrow> (\<not> b \<Longrightarrow> keeps I n) \<Longrightarrow> keeps I (if b then m else n)"
  by simp

lemmas keeps_structure = keeps_bind keeps_check keeps_if_cond keeps_option keeps_sum keeps_let
  keeps_for_each keeps_confined

lemma frame_Remove:
  "keeps (on_files (agrees (\<lambda>p. kind \<in> {''work'', ''inputs'', ''artifacts''} \<and> ValidID i
     \<and> prefix (root @ [kind, i]) p) f)) (Remove root kind i)"
proof (cases "Path root kind i")
  case (Inr p)
  show ?thesis
    unfolding Remove_def Inr sum.case using Inr
    by (intro keeps_structure confined_rules keeps_ret) (auto simp: Path_Inr)
qed (simp add: Remove_def keeps_ret)

lemma frame_Workspace:
  "keeps (on_files (agrees (\<lambda>p. ValidID i \<and> p = root @ [''work'', i]) f)) (Workspace root i)"
proof (cases "Path root ''work'' i")
  case (Inr p)
  show ?thesis
    unfolding Workspace_def Inr sum.case using Inr
    by (intro keeps_structure confined_rules keeps_ret) (auto simp: Path_Inr)
qed (simp add: Workspace_def keeps_ret)

lemma frame_Publish:
  "keeps (on_files (agrees (\<lambda>p. ValidID i \<and>
     p \<in> {root @ [''work'', i, ''output.ipa''], root @ [''artifacts'', i]}) f)) (Publish h root i from)"
proof (cases "Path root ''artifacts'' i")
  case (Inr p)
  show ?thesis
    unfolding Publish_def publish_content_def Inr sum.case using Inr
    by (intro keeps_structure confined_rules keeps_ret) (auto simp: Path_Inr)
qed (simp add: Publish_def keeps_ret)

lemma frame_CleanupTemp:
  "keeps (on_files (agrees (\<lambda>p. \<exists>n. allowed_tmp n \<and> p = root @ [''tmp'', n]) f)) (CleanupTemp root)"
  unfolding CleanupTemp_def remove_tmp_def
  by (intro keeps_structure confined_rules keeps_ret) auto

lemma frameD:
  assumes "keeps (on_files (agrees X (files w))) m" "solo w" "run_state m w = (r, w')"
    and "fs_get p (files w') \<noteq> fs_get p (files w)"
  shows "X p"
proof -
  have "on_files (agrees X (files w)) w" using assms(2) by (simp add: on_files_def agrees_def)
  from keepsD [OF assms(1) this assms(3)] assms(4) show ?thesis
    by (auto simp: on_files_def agrees_def)
qed

section \<open>Properties of the storage layer\<close>

definition quiet_world :: "fs \<Rightarrow> world" where
  "quiet_world f = \<lparr>store = empty_db, data_root = [''data''], files = f, clock = 0, script = [],
     crashed = False, shutdown = False, cancelled = False, progress_ch = None, monitor = None,
     monitor_err = None, broker = idle_broker, transport = idle_transport, helper_logs = None, uploading = False,
     db_open = False\<rparr>"

lemma solo_quiet [simp]: "solo (quiet_world f)" and files_quiet [simp]: "files (quiet_world f) = f"
  by (simp_all add: solo_def quiet_world_def)

text \<open>
  C29. Removal, workspace creation, publication and temporary cleanup stay inside the data
  directory: whatever identifier, kind or source path they are given, and whatever fails, the only
  paths they can change are the named kind's entry of a valid identifier (and below it), the output
  of the job's workspace and its artifact, and generated names in the temporary directory.
\<close>

theorem storage_confined:
  assumes "solo w" "fs_get p (files w') \<noteq> fs_get p (files w)"
  shows "(run_state (Remove root kind i) w = (e, w') \<longrightarrow>
           kind \<in> {''work'', ''inputs'', ''artifacts''} \<and> ValidID i \<and> prefix (root @ [kind, i]) p)
    \<and> (run_state (Workspace root i) w = (r, w') \<longrightarrow> ValidID i \<and> p = root @ [''work'', i])
    \<and> (run_state (Publish h root i from) w = (s, w') \<longrightarrow>
           ValidID i \<and> p \<in> {root @ [''work'', i, ''output.ipa''], root @ [''artifacts'', i]})
    \<and> (run_state (CleanupTemp root) w = (e, w') \<longrightarrow> (\<exists>n. allowed_tmp n \<and> p = root @ [''tmp'', n]))"
  using frameD [OF frame_Remove assms(1) _ assms(2)] frameD [OF frame_Workspace assms(1) _ assms(2)]
    frameD [OF frame_Publish assms(1) _ assms(2)] frameD [OF frame_CleanupTemp assms(1) _ assms(2)]
  by blast

definition sample_fs :: fs where
  "sample_fs = \<lparr>entries =
     [([''data''], dir_node 448), ([''data'', ''work''], dir_node 448), ([''data'', ''inputs''], dir_node 448),
      ([''data'', ''artifacts''], dir_node 448), ([''data'', ''tmp''], dir_node 448),
      ([''data'', ''work'', sample_id 1], dir_node 448),
      ([''data'', ''work'', sample_id 1, ''output.ipa''], file_node 420 ''ipa''),
      ([''data'', ''inputs'', sample_id 1], file_node 384 ''in'')], locks = []\<rparr>"

lemma sys_quiet:
  assumes "script w = []" "\<not> crashed w"
  shows "run_state (sys c) w =
    (case c (files w) of Inl e \<Rightarrow> (Inl e, w) | Inr (a, f) \<Rightarrow> (Inr a, w\<lparr>files := f\<rparr>))"
  using assms by (simp add: sys_def env_step_def next_slot_def idle_slot_def Let_def)

lemma ValidID_sample [simp]: "ValidID (sample_id n)"
  using hex_digit_lower [of n] by (auto simp: ValidID_iff sample_id_def lower_hex_def)

theorem storage_confined_witness:
  "\<exists>e w'. run_state (Remove [''data''] ''inputs'' (sample_id 1)) (quiet_world sample_fs) = (e, w')
    \<and> prefix [''data'', ''inputs'', sample_id 1] [''data'', ''inputs'', sample_id 1]
    \<and> fs_get [''data'', ''inputs'', sample_id 1] (files w') = None"
proof -
  let ?p = "[''data'', ''inputs'', sample_id 1]" and ?w = "quiet_world sample_fs"
  obtain e w' where r: "run_state (Remove [''data''] ''inputs'' (sample_id 1)) ?w = (e, w')" by fastforce
  have get: "fs_get ?p sample_fs = Some (file_node 384 ''in'')"
    by (simp add: sample_fs_def fs_get_def)
  then have del: "fs_get ?p (files w') = None"
    using r by (simp add: Remove_def Path_def sys_quiet quiet_world_def os_Remove_def file_node_def)
      (auto simp: file_node_def split: if_splits)
  then have "fs_get ?p (files w') \<noteq> fs_get ?p (files ?w)" using get by simp
  from storage_confined [OF solo_quiet this] r del show ?thesis by fastforce
qed

lemmas fs_reads = os_Lstat_def os_Open_def os_ReadFile_def os_Sync_def

lemma publish_content_correct:
  assumes "solo w" "run_state (publish_content h from dest info) w = (Inr (bytes, digest), w')"
    and "fs_get from (files w) = Some n" "from \<noteq> dest"
  shows "bytes = int (length (node_data info)) \<and> digest = hex_encode (h (node_data n))
    \<and> (\<forall>p. fs_get p (files w') = (if p = dest then Some (n\<lparr>node_perm := perm_file\<rparr>)
          else if p = from then None else fs_get p (files w)))"
proof -
  have "does (publish_content h from dest info) w (bytes, digest) w'"
    using assms(1,2) by (simp add: does_def)
  then obtain w1 w2 w3 w4 w5 w6 :: world and content u2 u3 u4 u5 u6 where calls:
      "os_ReadFile from (files w) = Inr (content, files w1)"
      "os_Sync from (files w1) = Inr (u2, files w2)"
      "os_Chmod from perm_file (files w2) = Inr (u3, files w3)"
      "os_Rename from dest (files w3) = Inr (u4, files w4)"
      "os_Open (butlast dest) (files w4) = Inr (u5, files w5)"
      "os_Sync (butlast dest) (files w5) = Inr (u6, files w6)"
      "Inr (int (length (node_data info)), hex_encode (h content)) = (Inr (bytes, digest) :: go_error + _)"
      "w' = w6"
    unfolding publish_content_def by (elim does_elims) (blast intro: that)
  have read: "files w2 = files w" "content = node_data n"
    using calls(1,2) assms(3) by (auto simp: fs_reads split: if_splits)
  then have "files w3 = fs_put from (n\<lparr>node_perm := perm_file\<rparr>) (files w)"
    using calls(3) assms(3) by (auto simp: os_Chmod_def)
  then have "files w4 = fs_put dest (n\<lparr>node_perm := perm_file\<rparr>) (fs_del from (files w3))"
    and "files w3 = fs_put from (n\<lparr>node_perm := perm_file\<rparr>) (files w)"
    using calls(4) by (auto simp: os_Rename_def split: if_splits)
  moreover have "files w6 = files w4"
    using calls(5,6) by (auto simp: fs_reads split: option.splits if_splits)
  ultimately show ?thesis using calls(7,8) read assms(4) by auto
qed

text \<open>
  C30. A publication that succeeds has moved exactly the job's output: the artifact is the regular
  file the workspace held, readable by its owner only, the reported size and digest are those of
  its content, the workspace no longer holds it and nothing else changed.
\<close>

theorem publish_correct:
  assumes "solo w" "run_state (Publish h root i from) w = (Inr (bytes, digest), w')"
  shows "\<exists>n. from = root @ [''work'', i, ''output.ipa''] \<and> fs_get from (files w) = Some n
    \<and> node_type n = Regular \<and> bytes = int (length (node_data n)) \<and> digest = hex_encode (h (node_data n))
    \<and> (\<forall>p. fs_get p (files w') = (if p = root @ [''artifacts'', i] then Some (n\<lparr>node_perm := perm_file\<rparr>)
          else if p = from then None else fs_get p (files w)))"
proof -
  let ?dest = "root @ [''artifacts'', i]"
  obtain dest where "Path root ''artifacts'' i = Inr dest"
    using assms(2) by (cases "Path root ''artifacts'' i") (auto simp: Publish_def)
  then have p: "Path root ''artifacts'' i = Inr ?dest" by (auto simp: Path_Inr)
  have from': "from = root @ [''work'', i, ''output.ipa'']"
    using assms(2) by (auto simp: Publish_def p split: if_splits)
  have "does (Publish h root i from) w (bytes, digest) w'" using assms by (simp add: does_def)
  then obtain n u m and w1 w2 w3 :: world where reads: "os_Lstat from (files w) = Inr (n, files w1)"
      "node_type n = Regular" "os_Open from (files w1) = Inr (u, files w2)"
      "os_Lstat from (files w2) = Inr (m, files w3)"
    and rest: "does (publish_content h from ?dest m) w3 (bytes, digest) w'"
    unfolding Publish_def p sum.case by (elim does_elims) (blast intro: that)
  then have "fs_get from (files w3) = Some n" "m = n" "files w3 = files w" "fs_get from (files w) = Some n"
    by (auto simp: fs_reads split: option.splits)
  moreover have "from \<noteq> ?dest" by (simp add: from')
  ultimately show ?thesis
    using publish_content_correct [of w3 h "from" ?dest n bytes digest w' n] rest reads(2) from'
    by (auto simp: does_def)
qed

lemma remove_tmp_does:
  assumes "does (remove_tmp root e) w u w'"
  shows "allowed_tmp (fst e)" "node_type (snd e) \<noteq> Directory" "solo w'"
    "\<forall>p. fs_get p (files w') = (if p = root @ [''tmp'', fst e] then None else fs_get p (files w))"
proof -
  have ok: "allowed_tmp (fst e) \<and> node_type (snd e) \<noteq> Directory"
    using assms by (auto simp: does_def remove_tmp_def split: if_splits)
  then show "allowed_tmp (fst e)" "node_type (snd e) \<noteq> Directory" by auto
  have w: "solo w" using assms by (simp add: does_def)
  let ?p = "root @ [''tmp'', fst e]"
  obtain r w1 where call: "run_state (sys (os_Remove ?p)) w = (r, w1)" by fastforce
  have "w1 = w' \<and> (\<forall>x. r = Inl x \<longrightarrow> errors_is x ErrNotExist)"
    using assms call ok by (cases r) (auto simp: does_def remove_tmp_def split: if_splits)
  then have w1: "w1 = w'" "\<And>x. r = Inl x \<Longrightarrow> errors_is x ErrNotExist" by auto
  from w call show "solo w'" unfolding w1 by (cases rule: run_sys) simp_all
  from w call show "\<forall>p. fs_get p (files w') = (if p = ?p then None else fs_get p (files w))"
    unfolding w1(1)
  proof (cases rule: run_sys)
    case (failed x)
    then have "os_Remove ?p (files w) = Inl x" "errors_is x ErrNotExist"
      using w1(2) by (auto simp: errors_is_def)
    then have "fs_get ?p (files w) = None"
      by (auto simp: os_Remove_def errors_is_def split: option.splits if_splits)
    then show ?thesis using failed(2) by auto
  next
    case (finished a)
    then have "files w' = fs_del ?p (files w)"
      by (simp add: os_Remove_def split: option.splits if_splits)
    then show ?thesis by simp
  qed
qed

lemma remove_all_tmp:
  assumes "does (for_each (remove_tmp root) es) w u w'"
  shows "(\<forall>e \<in> set es. allowed_tmp (fst e) \<and> node_type (snd e) \<noteq> Directory)
    \<and> (\<forall>p. fs_get p (files w') =
          (if \<exists>e \<in> set es. p = root @ [''tmp'', fst e] then None else fs_get p (files w)))"
  using assms
proof (induction es arbitrary: w)
  case Nil
  then show ?case by (auto simp: does_def)
next
  case (Cons e es)
  then obtain v w1 where "does (remove_tmp root e) w v w1"
      and rest: "run_state (for_each (remove_tmp root) es) w1 = (Inr u, w')"
    by (auto simp: does_def elim: run_check_Inr)
  note head = remove_tmp_does [OF this(1)]
  have "does (for_each (remove_tmp root) es) w1 u w'" using head(3) rest by (simp add: does_def)
  from Cons.IH [OF this] head show ?case by auto
qed

text \<open>
  C31. Temporary cleanup is all or nothing for the caller: when it reports success the temporary
  directory is empty and everything it held was a generated file name, not a directory; one
  unrecognised entry makes it fail.
\<close>

theorem cleanup_temp_complete:
  assumes "solo w" "run_state (CleanupTemp root) w = (None, w')"
  shows "children (root @ [''tmp'']) (files w') = []
    \<and> (\<forall>n node. fs_get (root @ [''tmp'', n]) (files w) = Some node \<longrightarrow>
         allowed_tmp n \<and> node_type node \<noteq> Directory)"
proof -
  have "does (check (sys (os_ReadDir (root @ [''tmp'']))) (for_each (remove_tmp root))) w () w'"
    using assms by (auto simp: does_def CleanupTemp_def split: prod.splits)
  then obtain es w1 where es: "os_ReadDir (root @ [''tmp'']) (files w) = Inr (es, files w1)"
    and "does (for_each (remove_tmp root) es) w1 () w'"
    by (rule does_check)
  note all = remove_all_tmp [OF this(2)]
  have w1: "files w1 = files w" using es by (auto simp: os_ReadDir_def split: if_splits)
  have mem: "(n, node) \<in> set es" if "fs_get (root @ [''tmp'', n]) (files w) = Some node" for n node
  proof -
    have "n \<in> set (children (root @ [''tmp'']) (files w))" using that by (auto simp: set_children)
    then show ?thesis using es that by (force simp: os_ReadDir_def split: if_splits option.splits)
  qed
  have "fs_get (root @ [''tmp'', n]) (files w') = None" for n
    using all mem [of n] w1 by (cases "fs_get (root @ [''tmp'', n]) (files w)") force+
  then have "set (children (root @ [''tmp'']) (files w')) = {}" by (simp add: set_children)
  then show ?thesis using all mem by (auto simp del: set_children) fastforce+
qed

theorem cleanup_temp_complete_witness:
  "\<exists>w'. run_state (CleanupTemp [''data'']) (quiet_world sample_fs) = (None, w')
    \<and> children [''data'', ''tmp''] (files w') = []"
proof -
  have "children [''data'', ''tmp''] sample_fs = []"
    by (simp add: children_def sample_fs_def)
  then have "run_state (CleanupTemp [''data'']) (quiet_world sample_fs) = (None, quiet_world sample_fs)"
    by (simp add: CleanupTemp_def run_check sys_quiet quiet_world_def os_ReadDir_def is_dir_def
        fs_get_def sample_fs_def dir_node_def)
  from cleanup_temp_complete [OF solo_quiet this] this show ?thesis by auto
qed

theorem publish_correct_witness:
  "\<exists>w'. run_state (Publish (\<lambda>s. [length s]) [''data''] (sample_id 1)
        [''data'', ''work'', sample_id 1, ''output.ipa'']) (quiet_world sample_fs) = (Inr (3, ''03''), w')
    \<and> fs_get [''data'', ''artifacts'', sample_id 1] (files w') = Some (file_node 384 ''ipa'')"
proof -
  obtain w' where "run_state (Publish (\<lambda>s. [length s]) [''data''] (sample_id 1)
        [''data'', ''work'', sample_id 1, ''output.ipa'']) (quiet_world sample_fs) = (Inr (3, ''03''), w')"
    by (simp add: Publish_def publish_content_def Path_def run_check sys_quiet quiet_world_def
        fs_reads os_Chmod_def os_Rename_def is_dir_def fs_get_def sample_fs_def dir_node_def
        file_node_def hex_encode_def hex_digit_def fs_put_def fs_del_def perm_file_def)
  from publish_correct [OF solo_quiet this] this show ?thesis
    by (auto simp: fs_get_def sample_fs_def file_node_def perm_file_def)
qed

lemma mkdir_prefixes_keeps:
  "mkdir_prefixes ps perm f = Inr (u, f') \<Longrightarrow>
   locks f' = locks f \<and> (fs_get p f = Some n \<longrightarrow> fs_get p f' = Some n)"
proof (induction ps arbitrary: f)
  case (Cons q ps)
  show ?case
  proof (cases "is_dir q f")
    case True
    then show ?thesis using Cons by simp
  next
    case False
    then obtain v f1 where "os_Mkdir q perm f = Inr (v, f1)" "mkdir_prefixes ps perm f1 = Inr (u, f')"
      using Cons.prems by (auto split: sum.splits)
    moreover from this(1) have "locks f1 = locks f" "fs_get p f = Some n \<longrightarrow> fs_get p f1 = Some n"
      by (auto simp: os_Mkdir_def fs_put_def fs_get_def update_conv' split: if_splits)
    ultimately show ?thesis using Cons.IH [of f1] by auto
  qed
qed simp

lemma MkdirAll_keeps:
  "os_MkdirAll q perm f = Inr (u, f') \<Longrightarrow>
   locks f' = locks f \<and> (fs_get p f = Some n \<longrightarrow> fs_get p f' = Some n)"
  unfolding os_MkdirAll_def by (rule mkdir_prefixes_keeps)

text \<open>A guard that closes the store before it reports an error.\<close>

lemma does_or_close:
  assumes "does (sys c \<bind> (\<lambda>r. case r of Inl e \<Rightarrow> storage_Close root \<bind> (\<lambda>_. ret (Inl (g e))) | Inr a \<Rightarrow> k a)) w b w''"
  obtains a w' where "c (files w) = Inr (a, files w')" "does (k a) w' b w''"
proof -
  have w: "solo w" using assms by (simp add: does_def)
  obtain r w' where m: "run_state (sys c) w = (r, w')" by fastforce
  with assms obtain a where a: "r = Inr a" by (cases r) (auto simp: does_def split: prod.splits)
  note call = run_sys_Inr [OF w m [unfolded a]]
  show thesis by (rule that [OF call(1)]) (use assms m a call(2) in \<open>simp add: does_def\<close>)
qed

lemma does_guard_close:
  assumes "does (if p then storage_Close root \<bind> (\<lambda>_. ret (Inl e)) else m) w b w''"
  obtains "\<not> p" "does m w b w''"
  using assms by (cases p) (auto simp: does_def split: prod.splits)

definition private_dir :: "path \<Rightarrow> fs \<Rightarrow> bool" where
  "private_dir p f \<longleftrightarrow> (case fs_get p f of None \<Rightarrow> False | Some n \<Rightarrow> node_type n = Directory \<and> \<not> exposed n)"

definition only_adds :: "fs \<Rightarrow> fs \<Rightarrow> bool" where
  "only_adds f f' \<longleftrightarrow> locks f' = locks f \<and> (\<forall>p n. fs_get p f = Some n \<longrightarrow> fs_get p f' = Some n)"

lemma only_adds_private: "only_adds f f' \<Longrightarrow> private_dir p f \<Longrightarrow> private_dir p f'"
  by (auto simp: only_adds_def private_dir_def split: option.splits)

lemma OpenCreate_adds: "os_OpenCreate p perm f = Inr (u, f') \<Longrightarrow> only_adds f f'"
  by (auto simp: os_OpenCreate_def only_adds_def fs_put_def fs_get_def update_conv'
      split: option.splits if_splits)

lemma open_dir_does:
  assumes "does (open_dir root name) w u w'"
  shows "solo w'" "only_adds (files w) (files w')" "private_dir (root @ [name]) (files w')"
proof -
  from assms obtain n v and w1 w2 :: world where
      mk: "os_MkdirAll (root @ [name]) perm_dir (files w) = Inr (v, files w1)"
    and st: "os_Lstat (root @ [name]) (files w1) = Inr (n, files w2)"
    and n: "\<not> (node_type n \<noteq> Directory \<or> exposed n)" and fin: "does (ret (Inr ())) w2 u w'"
    unfolding open_dir_def by (elim does_or_close does_guard_close) (blast intro: that)
  from fin show "solo w'" by (auto simp: does_def)
  have "files w' = files w1" "fs_get (root @ [name]) (files w1) = Some n"
    using st fin by (auto simp: does_def os_Lstat_def split: option.splits)
  then show "only_adds (files w) (files w')" "private_dir (root @ [name]) (files w')"
    using MkdirAll_keeps [OF mk] n by (auto simp: only_adds_def private_dir_def)
qed

lemma open_dirs_do:
  "does (for_each (open_dir root) names) w u w' \<Longrightarrow>
   only_adds (files w) (files w') \<and> (\<forall>name \<in> set names. private_dir (root @ [name]) (files w'))"
proof (induction names arbitrary: w)
  case Nil
  then show ?case by (auto simp: does_def only_adds_def)
next
  case (Cons name names)
  then obtain v w1 where "does (open_dir root name) w v w1"
      and rest: "run_state (for_each (open_dir root) names) w1 = (Inr u, w')"
    by (auto simp: does_def elim: run_check_Inr)
  note head = open_dir_does [OF this(1)]
  have "does (for_each (open_dir root) names) w1 u w'" using head(1) rest by (simp add: does_def)
  from Cons.IH [OF this] head show ?case
    by (auto simp: only_adds_private) (simp add: only_adds_def)
qed

lemma lock_guard_does:
  assumes "does (check (lock_guard root) k) w b w''"
  obtains w' where "files w' = files w" "does (k ()) w' b w''"
proof -
  have w: "solo w" using assms by (simp add: does_def)
  obtain r w' where m: "run_state (sys (os_Lstat (lock_path root))) w = (r, w')" by fastforce
  from w m have same: "files w' = files w" "solo w'"
    by (cases rule: run_sys; auto simp: os_Lstat_def split: option.splits)+
  have "run_state (lock_guard root) w = (Inr (), w')"
    using assms m
    by (auto simp: does_def run_check lock_guard_def split: sum.splits prod.splits if_splits)
  then show thesis
    using assms same by (intro that [of w']) (auto simp: does_def run_check)
qed

lemma open_takes_lock:
  assumes "solo w" "run_state (storage_Open root) w = (Inr u, w')"
  shows "lock_path root \<notin> set (locks (files w)) \<and> lock_path root \<in> set (locks (files w'))
    \<and> private_dir root (files w') \<and> (\<forall>name \<in> set storage_dirs. private_dir (root @ [name]) (files w'))"
proof -
  have "does (storage_Open root) w u w'" using assms(1,2) by (simp add: does_def)
  then obtain n v1 v2 v3 and w1 w2 w3 w4 w5 :: world where
      mk: "os_MkdirAll root perm_dir (files w) = Inr (v1, files w1)"
    and st: "os_Lstat root (files w1) = Inr (n, files w2)"
    and n: "\<not> (node_type n \<noteq> Directory \<or> exposed n)" and same: "files w3 = files w2"
    and cr: "os_OpenCreate (lock_path root) perm_file (files w3) = Inr (v2, files w4)"
    and fl: "os_Flock (lock_path root) (files w4) = Inr (v3, files w5)"
    and dirs: "does (for_each (open_dir root) storage_dirs) w5 u w'"
    unfolding storage_Open_def by (elim does_elims lock_guard_does) (blast intro: that)
  have root: "private_dir root (files w2)" "files w2 = files w1"
    using st n by (auto simp: os_Lstat_def private_dir_def split: option.splits)
  have "only_adds (files w3) (files w4)" using cr by (rule OpenCreate_adds)
  moreover have w5: "lock_path root \<notin> set (locks (files w4))"
      "files w5 = (files w4)\<lparr>locks := lock_path root # locks (files w4)\<rparr>"
    using fl by (auto simp: os_Flock_def split: if_splits)
  moreover have "locks (files w1) = locks (files w)" using MkdirAll_keeps [OF mk] by simp
  ultimately show ?thesis
    using open_dirs_do [OF dirs] only_adds_private [of "files w3" "files w4" root] root same
    by (auto simp: only_adds_def private_dir_def split: option.splits)
qed

text \<open>
  C32. Opening the data directory takes its lock exclusively and leaves it private: it succeeds
  only when nobody holds the lock, and then the lock is held and the root and all six of its
  directories are real directories that only their owner can enter.
\<close>

theorem open_exclusive_private:
  assumes "solo w" "run_state (storage_Open root) w = (Inr u, w')"
  shows "lock_path root \<notin> set (locks (files w)) \<and> lock_path root \<in> set (locks (files w'))
    \<and> private_dir root (files w') \<and> (\<forall>name \<in> set storage_dirs. private_dir (root @ [name]) (files w'))"
  using assms by (rule open_takes_lock)

theorem open_exclusive_private_witness:
  "\<exists>w'. run_state (storage_Open [''data'']) (quiet_world \<lparr>entries = [], locks = []\<rparr>) = (Inr (), w')
    \<and> lock_path [''data''] \<in> set (locks (files w')) \<and> private_dir [''data'', ''secrets''] (files w')"
proof -
  have e: "\<not> exposed (dir_node 448)" by (simp add: exposed_def dir_node_def)
  obtain w' where "run_state (storage_Open [''data'']) (quiet_world \<lparr>entries = [], locks = []\<rparr>) = (Inr (), w')"
    using e by (simp add: storage_Open_def lock_guard_def open_dir_def storage_dirs_def lock_path_def
        run_check sys_quiet quiet_world_def os_MkdirAll_def os_Mkdir_def os_Lstat_def os_OpenCreate_def
        os_Flock_def is_dir_def fs_get_def fs_put_def perm_dir_def dir_node_def file_node_def
        errors_is_def)
  from open_exclusive_private [OF solo_quiet this] this show ?thesis
    by (auto simp: storage_dirs_def)
qed

end
