(* ===== verification/GoStrings.thy ===== *)
theory GoStrings
  imports Prelude "HOL-Library.Sublist" "HOL-Library.Char_ord"
begin

text \<open>
  The functions of the packages \<open>strings\<close> and \<open>path\<close> the program uses, on byte strings: splitting and
  joining, prefixes and suffixes, trimming, case folding and \<open>path.Clean\<close>. Unicode beyond ASCII
  matters to \<open>strings.ToLower\<close> only; there the Unicode table is a parameter (\<open>lower\<close>), and the
  ASCII fast path of the library is defined.
\<close>

section \<open>Splitting and joining\<close>

text \<open>\<open>strings.Split(s, c)\<close> for a separator of one byte.\<close>

fun split_on :: "char \<Rightarrow> string \<Rightarrow> string list" where
  "split_on c [] = [[]]"
| "split_on c (x # xs) =
     (if x = c then [] # split_on c xs
      else case split_on c xs of [] \<Rightarrow> [[x]] | p # ps \<Rightarrow> (x # p) # ps)"

text \<open>\<open>strings.Join\<close>\<close>

fun join_with :: "string \<Rightarrow> string list \<Rightarrow> string" where
  "join_with sep [] = []"
| "join_with sep [p] = p"
| "join_with sep (p # ps) = p @ sep @ join_with sep ps"

lemma split_on_not_Nil [simp]: "split_on c s \<noteq> []"
  by (cases s) (auto split: list.split)

lemma split_on_parts: "p \<in> set (split_on c s) \<Longrightarrow> c \<notin> set p"
  by (induction s arbitrary: p) (auto split: list.splits if_splits)

lemma join_split: "join_with [c] (split_on c s) = s"
proof (induction s)
  case (Cons x xs)
  obtain p ps where "split_on c xs = p # ps" by (cases "split_on c xs") auto
  then show ?case using Cons.IH by (cases ps) auto
qed simp

lemma split_join:
  "ps \<noteq> [] \<Longrightarrow> (\<And>p. p \<in> set ps \<Longrightarrow> c \<notin> set p) \<Longrightarrow> split_on c (join_with [c] ps) = ps"
proof (induction ps)
  case (Cons p ps)
  have one: "split_on c q = [q]" if "c \<notin> set q" for q using that by (induction q) auto
  have more: "split_on c (r @ c # s) = r # split_on c s" if "c \<notin> set r" for r s
    using that by (induction r) auto
  show ?case using Cons one more by (cases ps) auto
qed simp

lemma split_on_no: "c \<notin> set s \<Longrightarrow> split_on c s = [s]"
  by (induction s) auto

lemma set_split_on: "p \<in> set (split_on c s) \<Longrightarrow> set p \<subseteq> set s"
  by (induction s arbitrary: p) (fastforce split: list.splits if_splits)+

section \<open>Prefixes, suffixes and search\<close>

definition HasPrefix :: "string \<Rightarrow> string \<Rightarrow> bool" where
  "HasPrefix s p = (take (length p) s = p)"

definition HasSuffix :: "string \<Rightarrow> string \<Rightarrow> bool" where
  "HasSuffix s p = (length p \<le> length s \<and> drop (length s - length p) s = p)"

definition TrimSuffix :: "string \<Rightarrow> string \<Rightarrow> string" where
  "TrimSuffix s p = (if HasSuffix s p then take (length s - length p) s else s)"

definition ContainsAny :: "string \<Rightarrow> string \<Rightarrow> bool" where
  "ContainsAny s cs = list_ex (\<lambda>c. c \<in> set cs) s"

text \<open>\<open>strings.Contains\<close>\<close>

fun Contains :: "string \<Rightarrow> string \<Rightarrow> bool" where
  "Contains [] p = (p = [])"
| "Contains (c # s) p = (HasPrefix (c # s) p \<or> Contains s p)"

lemma HasPrefix_iff: "HasPrefix s p \<longleftrightarrow> (\<exists>t. s = p @ t)"
  by (metis HasPrefix_def append_eq_conv_conj append_take_drop_id)

lemma HasSuffix_iff: "HasSuffix s p \<longleftrightarrow> (\<exists>t. s = t @ p)"
proof
  assume "HasSuffix s p"
  then have "s = take (length s - length p) s @ p"
    unfolding HasSuffix_def by (metis append_take_drop_id)
  then show "\<exists>t. s = t @ p" by blast
qed (auto simp: HasSuffix_def)

lemma TrimSuffix_append [simp]: "TrimSuffix (t @ p) p = t"
  by (auto simp: TrimSuffix_def HasSuffix_def)

lemma TrimSuffix_cases: "TrimSuffix s p = s \<and> \<not> HasSuffix s p \<or> s = TrimSuffix s p @ p"
proof (cases "HasSuffix s p")
  case True
  then obtain t where "s = t @ p" by (auto simp: HasSuffix_iff)
  then show ?thesis by simp
qed (simp add: TrimSuffix_def)

lemma ContainsAny_iff: "ContainsAny s cs \<longleftrightarrow> set s \<inter> set cs \<noteq> {}"
  by (auto simp: ContainsAny_def list_ex_iff)

lemma Contains_iff: "Contains s p \<longleftrightarrow> (\<exists>a b. s = a @ p @ b)"
proof (induction s)
  case (Cons c s)
  have "(\<exists>a b. c # s = a @ p @ b) \<longleftrightarrow> (\<exists>b. c # s = p @ b) \<or> (\<exists>a b. s = a @ p @ b)"
    (is "?L = ?R")
  proof
    assume ?L
    then obtain a b where "c # s = a @ p @ b" by blast
    then show ?R by (cases a) auto
  next
    show "?R \<Longrightarrow> ?L" by (metis append_Cons append_Nil)
  qed
  then show ?case by (simp add: Cons.IH HasPrefix_iff)
qed auto

lemma Contains_char: "Contains s [c] \<longleftrightarrow> c \<in> set s"
  by (simp add: Contains_iff in_set_conv_decomp)

section \<open>Case\<close>

definition is_ascii :: "char \<Rightarrow> bool" where
  "is_ascii c \<longleftrightarrow> (of_char c :: nat) < 128"

definition ascii_lower :: "char \<Rightarrow> char" where
  "ascii_lower c =
     (if 65 \<le> (of_char c :: nat) \<and> (of_char c :: nat) \<le> 90 then char_of ((of_char c :: nat) + 32) else c)"

text \<open>\<open>strings.ToLower\<close>; \<open>lower\<close> is its result on strings that are not ASCII.\<close>

definition ToLower :: "(string \<Rightarrow> string) \<Rightarrow> string \<Rightarrow> string" where
  "ToLower lower s = (if list_all is_ascii s then map ascii_lower s else lower s)"

section \<open>Trimming\<close>

definition trim_left :: "(char \<Rightarrow> bool) \<Rightarrow> string \<Rightarrow> string" where
  "trim_left P s = dropWhile P s"

definition trim_both :: "(char \<Rightarrow> bool) \<Rightarrow> string \<Rightarrow> string" where
  "trim_both P s = rev (dropWhile P (rev (dropWhile P s)))"

text \<open>\<open>strings.Trim(s, cutset)\<close> for an ASCII cutset.\<close>

definition Trim :: "string \<Rightarrow> string \<Rightarrow> string" where
  "Trim s cutset = trim_both (\<lambda>c. c \<in> set cutset) s"

lemma trim_both_subset: "set (trim_both P s) \<subseteq> set s"
  unfolding trim_both_def by (metis set_dropWhileD set_rev subsetI)

lemma trim_both_ends:
  assumes "trim_both P s \<noteq> []"
  shows "\<not> P (hd (trim_both P s))" "\<not> P (last (trim_both P s))"
proof -
  let ?t = "dropWhile P s" and ?r = "dropWhile P (rev (dropWhile P s))"
  have r: "?r \<noteq> []" using assms by (simp add: trim_both_def)
  then show "\<not> P (last (trim_both P s))"
    unfolding trim_both_def by (metis hd_dropWhile last_rev rev_is_Nil_conv)
  obtain u where "rev ?t = u @ ?r" by (metis takeWhile_dropWhile_id)
  then have t: "?t = rev ?r @ rev u" by (metis rev_append rev_rev_ident)
  then have "?t \<noteq> []" using r by (metis append_is_Nil_conv rev_is_Nil_conv)
  moreover have "hd ?t = hd (rev ?r)" using t r by (metis hd_append2 rev_is_Nil_conv)
  ultimately show "\<not> P (hd (trim_both P s))"
    unfolding trim_both_def by (metis hd_dropWhile)
qed

text \<open>
  \<open>strings.TrimSpace\<close>: the UTF-8 encodings of the white space characters of Unicode are removed at both
  ends.
\<close>

definition space_codes :: "string list" where
  "space_codes = map (\<lambda>n. [char_of (n :: nat)]) [9, 10, 11, 12, 13, 32]
     @ map (map char_of) ([[194, 133], [194, 160], [225, 154, 128], [226, 128, 168], [226, 128, 169],
         [226, 128, 175], [226, 129, 159], [227, 128, 128 :: nat]]
       @ map (\<lambda>n. [226, 128, n]) [128 ..< 139])"

lemma HasPrefix_shorter: "HasPrefix s p \<Longrightarrow> p \<noteq> [] \<Longrightarrow> length s - length p < length s"
  by (cases s) (auto simp: HasPrefix_def)

lemma HasSuffix_shorter: "HasSuffix s p \<Longrightarrow> p \<noteq> [] \<Longrightarrow> length s - length p < length s"
  by (cases s) (auto simp: HasSuffix_def)

lemma find_SomeD: "find P xs = Some x \<Longrightarrow> P x \<and> x \<in> set xs"
  by (induction xs) (auto split: if_splits)

function trim_spaces_left :: "string \<Rightarrow> string" where
  "trim_spaces_left s =
     (case find (HasPrefix s) space_codes of
        None \<Rightarrow> s
      | Some p \<Rightarrow> if p = [] then s else trim_spaces_left (drop (length p) s))"
  by pat_completeness auto
termination
  by (relation "measure length") (auto dest!: find_SomeD intro: HasPrefix_shorter)

declare trim_spaces_left.simps [simp del]

function trim_spaces_right :: "string \<Rightarrow> string" where
  "trim_spaces_right s =
     (case find (HasSuffix s) space_codes of
        None \<Rightarrow> s
      | Some p \<Rightarrow> if p = [] then s else trim_spaces_right (take (length s - length p) s))"
  by pat_completeness auto
termination
  by (relation "measure length") (auto dest!: find_SomeD simp: min_absorb2 intro: HasSuffix_shorter)

declare trim_spaces_right.simps [simp del]

definition TrimSpace :: "string \<Rightarrow> string" where
  "TrimSpace s = trim_spaces_right (trim_spaces_left s)"

text \<open>A string that neither starts nor ends with a byte of such an encoding stays as it is.\<close>

definition space_bytes :: string where
  "space_bytes = concat space_codes"

lemma space_codes_nonempty: "[] \<notin> set space_codes"
  by (auto simp: space_codes_def)

lemma TrimSpace_id:
  assumes "set s \<inter> set space_bytes = {}"
  shows "TrimSpace s = s"
proof -
  have code: "p \<noteq> []" "set p \<subseteq> set space_bytes" if "p \<in> set space_codes" for p
    using that space_codes_nonempty by (auto simp: space_bytes_def)
  have "\<not> HasPrefix s p" "\<not> HasSuffix s p" if p: "p \<in> set space_codes" for p
  proof -
    obtain c where c: "c \<in> set p" using code(1) [OF p] by (cases p) auto
    with code(2) [OF p] assms have "c \<notin> set s" by blast
    then show "\<not> HasPrefix s p" "\<not> HasSuffix s p"
      using c by (auto simp: HasPrefix_def HasSuffix_def) (metis in_set_takeD, metis in_set_dropD)
  qed
  then have "find (HasPrefix s) space_codes = None" "find (HasSuffix s) space_codes = None"
    by (auto simp: find_None_iff)
  then show ?thesis
    by (simp add: TrimSpace_def trim_spaces_left.simps [of s] trim_spaces_right.simps [of s])
qed

section \<open>Paths\<close>

text \<open>
  \<open>path.Clean\<close> on the components of a path: empty components and dots are dropped, a dot-dot removes
  the component before it, is dropped at the root and kept at the start of a relative path.
\<close>

fun clean_comps :: "bool \<Rightarrow> string list \<Rightarrow> string list \<Rightarrow> string list" where
  "clean_comps rooted out [] = rev out"
| "clean_comps rooted out (c # cs) =
     (if c = '''' \<or> c = ''.'' then clean_comps rooted out cs
      else if c = ''..'' then
        (case out of
           [] \<Rightarrow> if rooted then clean_comps rooted [] cs else clean_comps rooted [''..''] cs
         | o1 # os \<Rightarrow> if o1 = ''..'' then clean_comps rooted (''..'' # out) cs else clean_comps rooted os cs)
      else clean_comps rooted (c # out) cs)"

definition path_Clean :: "string \<Rightarrow> string" where
  "path_Clean p =
     (if p = '''' then ''.''
      else if HasPrefix p ''/'' then ''/'' @ join_with ''/'' (clean_comps True [] (split_on CHR ''/'' p))
      else case clean_comps False [] (split_on CHR ''/'' p) of
             [] \<Rightarrow> ''.'' | cs \<Rightarrow> join_with ''/'' cs)"

text \<open>A cleaned relative path: dot-dots only at the start, and no other dots or empty components.\<close>

definition plain :: "string \<Rightarrow> bool" where
  "plain c \<longleftrightarrow> c \<noteq> '''' \<and> c \<noteq> ''.'' \<and> c \<noteq> ''..''"

definition cleaned :: "string list \<Rightarrow> bool" where
  "cleaned cs \<longleftrightarrow> (\<exists>n ps. cs = replicate n ''..'' @ ps \<and> list_all plain ps)"

lemma clean_comps_cleaned:
  "cleaned (rev out) \<Longrightarrow> cleaned (clean_comps False out cs)"
proof (induction "False" out cs rule: clean_comps.induct)
  case (2 out c cs)
  have ups: "cleaned (rev (''..'' # os))" if prem: "cleaned (rev os)" "os = [] \<or> hd os = ''..''" for os
  proof -
    obtain n ps where nps: "rev os = replicate n ''..'' @ ps" "list_all plain ps"
      using prem(1) unfolding cleaned_def by blast
    have "ps = []"
    proof (rule ccontr)
      assume "ps \<noteq> []"
      then have "hd os = last ps" "os \<noteq> []" using nps(1)
        by (metis hd_rev last_appendR rev_is_Nil_conv rev_rev_ident, auto)
      then show False using prem(2) nps(2) \<open>ps \<noteq> []\<close>
        by (auto simp: list_all_iff plain_def dest: last_in_set)
    qed
    then have "rev (''..'' # os) = replicate (Suc n) ''..'' @ []"
      using nps(1) by (simp add: replicate_append_same)
    then show ?thesis unfolding cleaned_def by (intro exI [of _ "Suc n"] exI [of _ "[]"]) simp
  qed
  have pop: "cleaned (rev os)" if prem: "cleaned (rev (o1 # os))" "o1 \<noteq> ''..''" for o1 os
  proof -
    obtain n ps where nps: "rev os @ [o1] = replicate n ''..'' @ ps" "list_all plain ps"
      using prem(1) unfolding cleaned_def rev.simps by blast
    then have "ps \<noteq> []"
      using prem(2) by (metis append_Nil2 last_snoc last_replicate list.distinct(1) append_is_Nil_conv replicate_empty)
    then obtain qs where "ps = qs @ [o1]" "rev os = replicate n ''..'' @ qs"
      using nps(1) by (metis append_butlast_last_id butlast_append last_appendR last_snoc butlast_snoc)
    then show ?thesis using nps(2) unfolding cleaned_def by auto
  qed
  have push: "cleaned (rev (c # out))" if prem: "plain c"
  proof -
    obtain n ps where "rev out = replicate n ''..'' @ ps" "list_all plain ps"
      using "2.prems" unfolding cleaned_def by blast
    then have "rev (c # out) = replicate n ''..'' @ (ps @ [c])" "list_all plain (ps @ [c])"
      using prem by auto
    then show ?thesis unfolding cleaned_def by blast
  qed
  show ?case
  proof (cases "c = '''' \<or> c = ''.''")
    case True
    then show ?thesis using 2 by auto
  next
    case a: False
    show ?thesis
    proof (cases "c = ''..''")
      case True
      show ?thesis
      proof (cases out)
        case Nil
        then show ?thesis using "2.hyps"(3) [OF a True Nil] ups [of "[]"] True "2.prems" by simp
      next
        case (Cons o1 os)
        then show ?thesis
          using "2.hyps"(4,5) [OF a True Cons] ups [of out] pop [of o1 os] "2.prems" True by auto
      qed
    next
      case False
      then show ?thesis using "2.hyps"(6) [OF a False] push a by (auto simp: plain_def)
    qed
  qed
qed simp

lemma clean_comps_set: "set (clean_comps False out cs) \<subseteq> set out \<union> set cs \<union> {''..''}"
  by (induction "False" out cs rule: clean_comps.induct) (auto split: list.splits if_splits)

text \<open>A relative path that \<open>path.Clean\<close> leaves alone.\<close>

lemma path_Clean_fixed:
  assumes "path_Clean s = s" "\<not> HasPrefix s ''/''" "s \<noteq> ''.''"
  shows "cleaned (split_on CHR ''/'' s)" "s \<noteq> ''''"
proof -
  show ne: "s \<noteq> ''''" using assms(1) by (auto simp: path_Clean_def)
  let ?cs = "clean_comps False [] (split_on CHR ''/'' s)"
  have "?cs \<noteq> []" "join_with ''/'' ?cs = s"
    using assms ne by (auto simp: path_Clean_def split: list.splits)
  moreover have "CHR ''/'' \<notin> set c" if "c \<in> set ?cs" for c
    using that clean_comps_set [of "[]" "split_on CHR ''/'' s"] split_on_parts by force
  ultimately have "split_on CHR ''/'' s = ?cs" using split_join [of ?cs "CHR ''/''"] by metis
  moreover have "cleaned ?cs"
    by (rule clean_comps_cleaned) (auto simp: cleaned_def)
  ultimately show "cleaned (split_on CHR ''/'' s)" by simp
qed

text \<open>If in addition it does not start by leaving the directory, every component is a plain name.\<close>

lemma path_Clean_inside:
  assumes "path_Clean s = s" "\<not> HasPrefix s ''/''" "s \<noteq> ''.''" "s \<noteq> ''..''" "\<not> HasPrefix s ''../''"
  shows "list_all plain (split_on CHR ''/'' s)"
proof -
  obtain n ps where cs: "split_on CHR ''/'' s = replicate n ''..'' @ ps" "list_all plain ps"
    using path_Clean_fixed(1) [OF assms(1-3)] unfolding cleaned_def by blast
  have s: "s = join_with ''/'' (replicate n ''..'' @ ps)" using join_split [of "CHR ''/''" s] cs(1) by simp
  have "n = 0"
  proof (cases n)
    case (Suc m)
    then have "s = ''..'' \<or> HasPrefix s ''../''"
      unfolding s by (cases "replicate m ''..'' @ ps") (auto simp: HasPrefix_def)
    then show ?thesis using assms(4,5) by blast
  qed
  then show ?thesis using cs by simp
qed

lemma plain_Clean_comps: "list_all plain cs \<Longrightarrow> clean_comps False out cs = rev out @ cs"
  by (induction cs arbitrary: out) (auto simp: plain_def)

lemma plain_Clean:
  assumes "list_all plain (split_on CHR ''/'' s)"
  shows "path_Clean s = s" "\<not> HasPrefix s ''/''" "s \<noteq> ''..''" "\<not> HasPrefix s ''../''"
proof -
  have head: "hd (split_on CHR ''/'' s) \<noteq> ''''" "hd (split_on CHR ''/'' s) \<noteq> ''..''"
    using assms by (cases "split_on CHR ''/'' s"; auto simp: plain_def)+
  then have ne: "s \<noteq> ''''" by auto
  show nr: "\<not> HasPrefix s ''/''" using head(1) by (auto simp: HasPrefix_iff)
  show "s \<noteq> ''..''" "\<not> HasPrefix s ''../''" using head(2) by (auto simp: HasPrefix_iff split: list.splits)
  show "path_Clean s = s"
    using plain_Clean_comps [OF assms, of "[]"] ne nr join_split [of "CHR ''/''" s]
    by (auto simp: path_Clean_def split: list.splits)
qed

section \<open>Numbers\<close>

text \<open>\<open>strconv.Itoa\<close> of a natural number.\<close>

definition digit_char :: "nat \<Rightarrow> char" where
  "digit_char n = char_of (48 + n mod 10 :: nat)"

fun decimal :: "nat \<Rightarrow> string" where
  "decimal n = (if n < 10 then [digit_char n] else decimal (n div 10) @ [digit_char n])"

end
