(* ===== verification/Archive.thy ===== *)
theory Archive
  imports Storage GoStrings "HOL-Library.Word"
begin

text \<open>
  \<open>ValidateIPA\<close> of \<open>internal/storage/storage.go\<close>: the inspection of an uploaded or produced archive
  before anything unpacks it. The ZIP reader and the property-list decoder are parameters (the
  record \<open>archive_lib\<close>), as is case folding beyond ASCII; sizes are 64-bit words.
\<close>

section \<open>Entries\<close>

text \<open>
  One entry of the archive: name, declared type, declared size, and what opening it yields (an error,
  or its bytes and whether the stream ends with an error).
\<close>

record zip_entry =
  ze_name :: string
  ze_type :: ftype
  ze_size :: "64 word"
  ze_open :: "(string \<times> bool) option"

record archive_lib =
  zip_read :: "string \<Rightarrow> zip_entry list option"
  plist_unmarshal :: "string \<Rightarrow> (string \<times> string) option"
  lower :: "string \<Rightarrow> string"

text \<open>\<open>^[A-Za-z0-9][A-Za-z0-9-]*(\.[A-Za-z0-9][A-Za-z0-9-]*)+$\<close>\<close>

definition bundle_segment :: rx where
  "bundle_segment = Cat (Cls True [(CHR ''A'', CHR ''Z''), (CHR ''a'', CHR ''z''), (CHR ''0'', CHR ''9'')])
     (Star (Cls True [(CHR ''A'', CHR ''Z''), (CHR ''a'', CHR ''z''), (CHR ''0'', CHR ''9''), (CHR ''-'', CHR ''-'')]))"

definition bundle_pattern :: rx where
  "bundle_pattern = Cat bundle_segment (rx_plus (Cat (lit CHR ''.'') bundle_segment))"

definition backslash_nul :: string where
  "backslash_nul = [CHR 0x5C, CHR 0x00]"

definition clean_name :: "zip_entry \<Rightarrow> string" where
  "clean_name f = TrimSuffix (ze_name f) ''/''"

text \<open>The guard on one entry, but for the names seen before it.\<close>

definition unsafe_entry :: "zip_entry \<Rightarrow> bool" where
  "unsafe_entry f =
     (let n = ze_name f; clean = clean_name f
      in n = '''' \<or> ContainsAny n backslash_nul \<or> HasPrefix n ''/'' \<or> path_Clean clean \<noteq> clean
        \<or> clean = ''..'' \<or> HasPrefix clean ''../'' \<or> Contains clean '':''
        \<or> ze_type f = Symlink \<or> (ze_type f \<noteq> Regular \<and> ze_type f \<noteq> Directory))"

text \<open>\<open>io.ReadAll(io.LimitReader(reader, (1<<20)+1))\<close>\<close>

definition metadata_limit :: nat where
  "metadata_limit = 1048576"

definition read_limited :: "string \<times> bool \<Rightarrow> string option" where
  "read_limited s =
     (if metadata_limit + 1 \<le> length (fst s) then Some (take (metadata_limit + 1) (fst s))
      else if snd s then None else Some (fst s))"

definition bad_metadata :: "archive_lib \<Rightarrow> string \<Rightarrow> bool" where
  "bad_metadata L data =
     (case plist_unmarshal L data of
        None \<Rightarrow> True
      | Some (bid, exec) \<Rightarrow> \<not> matches bundle_pattern bid \<or> exec = ''''
          \<or> ContainsAny exec (CHR ''/'' # backslash_nul) \<or> exec = ''.'' \<or> exec = ''..'')"

text \<open>The top-level application an \<open>Info.plist\<close> belongs to.\<close>

definition app_of :: "string \<Rightarrow> string option" where
  "app_of n =
     (case split_on CHR ''/'' n of
        [a, b, c] \<Rightarrow> if a = ''Payload'' \<and> HasSuffix b ''.app'' \<and> c = ''Info.plist'' then Some b else None
      | _ \<Rightarrow> None)"

definition check_metadata :: "archive_lib \<Rightarrow> zip_entry \<Rightarrow> error" where
  "check_metadata L f =
     (if 1048576 < ze_size f then Some (ErrText ''metadata exceeds limit'')
      else case ze_open f of
        None \<Rightarrow> Some (ErrText ''invalid IPA metadata'')
      | Some reader \<Rightarrow>
          (case read_limited reader of
             None \<Rightarrow> Some (ErrText ''invalid IPA metadata'')
           | Some data \<Rightarrow>
               if metadata_limit < length data then Some (ErrText ''invalid IPA metadata'')
               else if bad_metadata L data then Some (ErrText ''unsafe or invalid app metadata'')
               else None))"

text \<open>The loop over the entries: the names seen, the applications found and the bytes so far.\<close>

fun validate_loop ::
  "archive_lib \<Rightarrow> 64 word \<Rightarrow> string list \<Rightarrow> string list \<Rightarrow> 64 word \<Rightarrow> zip_entry list \<Rightarrow> error" where
  "validate_loop L max_expanded seen apps expanded [] =
     (if length (remdups apps) \<noteq> 1 then Some (ErrText ''IPA must contain exactly one top-level app'') else None)"
| "validate_loop L max_expanded seen apps expanded (f # fs) =
     (let key = ToLower (lower L) (clean_name f)
      in if unsafe_entry f \<or> key \<in> set seen then Some (ErrText ''unsafe or ambiguous archive entry'')
         else if max_expanded - expanded < ze_size f
         then Some (ErrText ''expanded archive exceeds limit'')
         else case app_of (ze_name f) of
           None \<Rightarrow> validate_loop L max_expanded (key # seen) apps (expanded + ze_size f) fs
         | Some a \<Rightarrow>
             (case check_metadata L f of
                Some e \<Rightarrow> Some e
              | None \<Rightarrow> validate_loop L max_expanded (key # seen) (a # apps) (expanded + ze_size f) fs))"

definition validate_entries :: "archive_lib \<Rightarrow> 64 word \<Rightarrow> zip_entry list \<Rightarrow> error" where
  "validate_entries L max_expanded es =
     (if length es = 0 \<or> 100000 < length es then Some (ErrText ''archive entry limit'')
      else validate_loop L max_expanded [] [] 0 es)"

definition ValidateIPA :: "archive_lib \<Rightarrow> path \<Rightarrow> 64 word \<Rightarrow> error io" where
  "ValidateIPA L filename max_expanded = do {
     info \<leftarrow> sys (os_Lstat filename);
     case info of
       Inl e \<Rightarrow> ret (Some (ErrText ''IPA must be a regular file''))
     | Inr n \<Rightarrow>
         if node_type n \<noteq> Regular then ret (Some (ErrText ''IPA must be a regular file''))
         else do {
           z \<leftarrow> sys (os_ReadFile filename);
           case z of
             Inl e \<Rightarrow> ret (Some (ErrText ''invalid IPA archive''))
           | Inr data \<Rightarrow>
               (case zip_read L data of
                  None \<Rightarrow> ret (Some (ErrText ''invalid IPA archive''))
                | Some es \<Rightarrow> ret (validate_entries L max_expanded es)) } }"

lemma keeps_ValidateIPA [keeps_rules]: "db_stable p \<Longrightarrow> keeps (\<lambda>w. p (store w)) (ValidateIPA L f n)"
  unfolding ValidateIPA_def by (intro keeps_rules)

section \<open>What the inspection accepts\<close>

text \<open>A safe entry name: relative, made of plain components (or the directory itself).\<close>

definition safe_name :: "string \<Rightarrow> bool" where
  "safe_name n \<longleftrightarrow> CHR 0x5C \<notin> set n \<and> CHR 0x00 \<notin> set n \<and> CHR '':'' \<notin> set n
     \<and> (TrimSuffix n ''/'' = ''.'' \<or> list_all plain (split_on CHR ''/'' (TrimSuffix n ''/'')))"

definition total_size :: "zip_entry list \<Rightarrow> nat" where
  "total_size es = sum_list (map (\<lambda>f. unat (ze_size f)) es)"

definition archive_keys :: "archive_lib \<Rightarrow> zip_entry list \<Rightarrow> string list" where
  "archive_keys L es = map (\<lambda>f. ToLower (lower L) (clean_name f)) es"

definition archive_apps :: "zip_entry list \<Rightarrow> string set" where
  "archive_apps es = {a. \<exists>f \<in> set es. app_of (ze_name f) = Some a}"

definition entry_ok :: "archive_lib \<Rightarrow> zip_entry \<Rightarrow> bool" where
  "entry_ok L f \<longleftrightarrow> safe_name (ze_name f) \<and> ze_type f \<in> {Regular, Directory}
     \<and> (app_of (ze_name f) \<noteq> None \<longrightarrow> check_metadata L f = None)"

lemma safe_entry: "\<not> unsafe_entry f \<longleftrightarrow> safe_name (ze_name f) \<and> ze_type f \<in> {Regular, Directory}"
  (is "?L = ?R")
proof -
  let ?n = "ze_name f" and ?c = "TrimSuffix (ze_name f) ''/''"
  have "(CHR '':'' \<in> set c \<longleftrightarrow> CHR '':'' \<in> set n) \<and> (HasPrefix n ''/'' \<longleftrightarrow> HasPrefix c ''/'' \<or> n = ''/'')"
    if "c = n \<and> \<not> HasSuffix n ''/'' \<or> n = c @ ''/''" for c n
    using that by (cases c) (auto simp: HasPrefix_def HasSuffix_def)
  note names = this [OF TrimSuffix_cases]
  then have colon: "CHR '':'' \<in> set ?c \<longleftrightarrow> CHR '':'' \<in> set ?n"
    and slash: "HasPrefix ?n ''/'' \<longleftrightarrow> HasPrefix ?c ''/'' \<or> ?n = ''/''" by blast+
  show ?thesis
  proof
    assume l: ?L
    then have c: "path_Clean ?c = ?c" "?c \<noteq> ''..''" "\<not> HasPrefix ?c ''../''" "\<not> HasPrefix ?c ''/''"
      using slash by (auto simp: unsafe_entry_def clean_name_def Let_def)
    then show ?R
      using l path_Clean_inside [OF c(1) c(4) _ c(2) c(3)] colon
      by (auto simp: unsafe_entry_def clean_name_def Let_def safe_name_def ContainsAny_iff
          Contains_char backslash_nul_def)
  next
    assume r: ?R
    then have "?c = ''.'' \<or> list_all plain (split_on CHR ''/'' ?c)" by (simp add: safe_name_def)
    then have "path_Clean ?c = ?c" "?c \<noteq> ''..''" "\<not> HasPrefix ?c ''../''" "\<not> HasPrefix ?c ''/''" "?c \<noteq> ''''"
      using plain_Clean [of ?c] by (auto simp: path_Clean_def HasPrefix_def plain_def)
    moreover have "?n \<noteq> ''''" "?n \<noteq> ''/''" using \<open>?c \<noteq> ''''\<close> TrimSuffix_append [of "[]" "''/''"]
      by (auto simp: TrimSuffix_def HasSuffix_def)
    ultimately show ?L
      using r colon slash
      by (auto simp: unsafe_entry_def clean_name_def Let_def safe_name_def ContainsAny_iff
          Contains_char backslash_nul_def)
  qed
qed

lemma room:
  fixes e m s :: "64 word"
  assumes "e \<le> m"
  shows "m - e < s \<longleftrightarrow> unat m < unat e + unat s"
    and "\<not> m - e < s \<Longrightarrow> e + s \<le> m \<and> unat (e + s) = unat e + unat s"
proof -
  have d: "unat (m - e) = unat m - unat e" using assms by (rule unat_sub)
  have le: "unat e \<le> unat m" using assms by (simp add: word_le_nat_alt)
  show first: "m - e < s \<longleftrightarrow> unat m < unat e + unat s"
    using le by (auto simp: word_less_nat_alt d)
  assume "\<not> m - e < s"
  then have sum: "unat e + unat s \<le> unat m" using first by simp
  then have "unat e + unat s < 2 ^ LENGTH(64)" using unsigned_less [where ?'a = nat and w = m] by linarith
  then have "unat (e + s) = unat e + unat s" by (subst (asm) unat_add_lem)
  then show "e + s \<le> m \<and> unat (e + s) = unat e + unat s"
    using sum by (simp add: word_le_nat_alt)
qed

lemma archive_Cons:
  "total_size (f # fs) = unat (ze_size f) + total_size fs"
  "archive_keys L (f # fs) = ToLower (lower L) (clean_name f) # archive_keys L fs"
  "archive_apps (f # fs) = set_option (app_of (ze_name f)) \<union> archive_apps fs"
  by (auto simp: total_size_def archive_keys_def archive_apps_def)

lemma validate_loop_iff:
  "expanded \<le> m \<Longrightarrow> validate_loop L m seen apps expanded es = None \<longleftrightarrow>
     (\<forall>f \<in> set es. entry_ok L f) \<and> distinct (archive_keys L es)
     \<and> set (archive_keys L es) \<inter> set seen = {}
     \<and> unat expanded + total_size es \<le> unat m \<and> card (set apps \<union> archive_apps es) = 1"
proof (induction es arbitrary: seen apps expanded)
  case Nil
  then show ?case
    by (simp add: archive_keys_def total_size_def archive_apps_def length_remdups_card_conv word_le_nat_alt)
next
  case (Cons f fs)
  let ?key = "ToLower (lower L) (clean_name f)"
  show ?case
  proof (cases "unsafe_entry f \<or> ?key \<in> set seen \<or> m - expanded < ze_size f")
    case True
    then show ?thesis
      using room(1) [OF Cons.prems, of "ze_size f"] safe_entry [of f]
      by (auto simp: Let_def entry_ok_def archive_Cons)
  next
    case False
    then have safe: "safe_name (ze_name f) \<and> ze_type f \<in> {Regular, Directory}" using safe_entry by blast
    have fit: "expanded + ze_size f \<le> m" "unat (expanded + ze_size f) = unat expanded + unat (ze_size f)"
      using room(2) [OF Cons.prems, of "ze_size f"] False by auto
    show ?thesis
    proof (cases "app_of (ze_name f)")
      case None
      then show ?thesis
        using False safe Cons.IH [OF fit(1), of "?key # seen" apps] fit(2)
        by (auto simp: Let_def entry_ok_def archive_Cons)
    next
      case (Some a)
      show ?thesis
      proof (cases "check_metadata L f")
        case None
        then show ?thesis
          using False Some safe Cons.IH [OF fit(1), of "?key # seen" "a # apps"] fit(2)
          by (auto simp: Let_def entry_ok_def archive_Cons)
      next
        case (Some e)
        then show ?thesis
          using False \<open>app_of (ze_name f) = Some a\<close>
          by (auto simp: Let_def entry_ok_def)
      qed
    qed
  qed
qed

lemma validate_entries_iff:
  "validate_entries L m es = None \<longleftrightarrow>
     1 \<le> length es \<and> length es \<le> 100000 \<and> (\<forall>f \<in> set es. entry_ok L f)
     \<and> distinct (archive_keys L es) \<and> total_size es \<le> unat m \<and> card (archive_apps es) = 1"
  using validate_loop_iff [of 0 m L "[]" "[]" es]
  by (auto simp: validate_entries_def Suc_le_eq)

text \<open>
  C33. The inspection accepts exactly the archives that are safe to unpack: between one and 100,000
  entries, every one a file or directory whose name is relative, made of plain components without
  dot-dot, backslash, NUL or colon, no two names equal after case folding, the declared sizes adding
  up (as numbers, without 64-bit wrap-around) to at most the limit, and exactly one top-level
  application, with readable metadata.
\<close>

theorem validate_exact:
  "validate_entries L m es = None \<longleftrightarrow>
     1 \<le> length es \<and> length es \<le> 100000 \<and> (\<forall>f \<in> set es. entry_ok L f)
     \<and> distinct (archive_keys L es) \<and> total_size es \<le> unat m \<and> card (archive_apps es) = 1"
  by (rule validate_entries_iff)

text \<open>A library that reads any file as a fixed archive, for the witness.\<close>

definition sample_lib :: archive_lib where
  "sample_lib = \<lparr>zip_read = (\<lambda>_. None), plist_unmarshal = (\<lambda>_. Some (''a.b'', ''A'')), lower = id\<rparr>"

definition sample_entries :: "zip_entry list" where
  "sample_entries =
     [\<lparr>ze_name = ''Payload/A.app/'', ze_type = Directory, ze_size = 0, ze_open = None\<rparr>,
      \<lparr>ze_name = ''Payload/A.app/Info.plist'', ze_type = Regular, ze_size = 5, ze_open = Some (''plist'', False)\<rparr>,
      \<lparr>ze_name = ''Payload/A.app/A'', ze_type = Regular, ze_size = 7, ze_open = None\<rparr>]"

lemma sample_bundle: "matches bundle_pattern ''a.b''"
  by code_simp

lemma sample_entries_ok: "f \<in> set sample_entries \<Longrightarrow> entry_ok (sample_lib\<lparr>zip_read := z\<rparr>) f"
  by (auto simp: sample_entries_def sample_lib_def entry_ok_def safe_name_def plain_def TrimSuffix_def
      HasSuffix_def app_of_def check_metadata_def read_limited_def metadata_limit_def bad_metadata_def
      sample_bundle ContainsAny_iff backslash_nul_def simp del: matches.simps)

lemma sample_keys: "distinct (archive_keys (sample_lib\<lparr>zip_read := z\<rparr>) sample_entries)"
  by (simp add: archive_keys_def sample_entries_def ToLower_def clean_name_def TrimSuffix_def
      HasSuffix_def is_ascii_def ascii_lower_def)

lemma sample_apps: "archive_apps sample_entries = {''A.app''}"
  by (auto simp: archive_apps_def sample_entries_def app_of_def HasSuffix_def)

theorem validate_exact_witness:
  "validate_entries (sample_lib\<lparr>zip_read := \<lambda>_. None\<rparr>) 12 sample_entries = None"
  using validate_exact [of "sample_lib\<lparr>zip_read := \<lambda>_. None\<rparr>" 12 sample_entries] sample_entries_ok sample_keys
  by (simp add: sample_apps) (simp add: sample_entries_def total_size_def)

lemma validate_inspects:
  assumes "solo w" "run_state (ValidateIPA L p m) w = (None, w')"
  shows "\<exists>n es. fs_get p (files w) = Some n \<and> node_type n = Regular
    \<and> zip_read L (node_data n) = Some es \<and> validate_entries L m es = None \<and> files w' = files w"
proof -
  obtain r w1 where 1: "run_state (sys (os_Lstat p)) w = (r, w1)" by fastforce
  with assms(2) obtain n where r: "r = Inr n" "node_type n = Regular"
    by (cases r) (auto simp: ValidateIPA_def split: if_splits)
  note s1 = run_sys_Inr [OF assms(1) 1 [unfolded r(1)]]
  obtain z w2 where 2: "run_state (sys (os_ReadFile p)) w1 = (z, w2)" by fastforce
  with assms(2) 1 r obtain data where z: "z = Inr data" and rest: "zip_read L data \<noteq> None"
      "validate_entries L m (the (zip_read L data)) = None" "w' = w2"
    by (cases z) (auto simp: ValidateIPA_def split: option.splits)
  have "os_ReadFile p (files w1) = Inr (data, files w2)"
    by (rule run_sys_Inr(1) [OF s1(2) 2 [unfolded z]])
  then show ?thesis
    using s1(1) r(2) rest by (auto simp: os_Lstat_def os_ReadFile_def split: option.splits if_splits)
qed

text \<open>
  C34. A file the inspection accepts is a regular file which the ZIP reader reads as an archive that is
  safe to unpack: between one and 100,000 entries, each a file or directory under a relative name of plain
  components, no two names equal after case folding, declared sizes adding up to at most the limit, and
  exactly one application in it, whose metadata can be read. Inspecting changes nothing.
\<close>

theorem ValidateIPA_sound:
  assumes "solo w" "run_state (ValidateIPA L p m) w = (None, w')"
  shows "\<exists>n es app. fs_get p (files w) = Some n \<and> node_type n = Regular
    \<and> zip_read L (node_data n) = Some es \<and> 1 \<le> length es \<and> length es \<le> 100000
    \<and> (\<forall>f \<in> set es. safe_name (ze_name f) \<and> ze_type f \<in> {Regular, Directory}
         \<and> (app_of (ze_name f) = Some app \<longrightarrow> check_metadata L f = None))
    \<and> distinct (map (\<lambda>f. ToLower (lower L) (clean_name f)) es)
    \<and> (\<Sum>f\<leftarrow>es. unat (ze_size f)) \<le> unat m
    \<and> {a. \<exists>f \<in> set es. app_of (ze_name f) = Some a} = {app} \<and> files w' = files w"
proof -
  obtain n es where f: "fs_get p (files w) = Some n" "node_type n = Regular"
      "zip_read L (node_data n) = Some es" "files w' = files w" and ok: "validate_entries L m es = None"
    using validate_inspects [OF assms] by blast
  note v = ok [unfolded validate_entries_iff]
  then obtain app where app: "archive_apps es = {app}" by (auto simp: card_1_singleton_iff)
  then have "{a. \<exists>f \<in> set es. app_of (ze_name f) = Some a} = {app}"
    by (auto simp: archive_apps_def)
  with f v show ?thesis
    unfolding entry_ok_def archive_keys_def total_size_def
    by (intro exI [of _ n] exI [of _ es] exI [of _ app]) auto
qed

theorem ValidateIPA_sound_witness:
  "\<exists>w'. run_state (ValidateIPA (sample_lib\<lparr>zip_read := \<lambda>_. Some sample_entries\<rparr>)
        [''data'', ''inputs'', sample_id 1] 12) (quiet_world sample_fs) = (None, w')
    \<and> {a. \<exists>f \<in> set sample_entries. app_of (ze_name f) = Some a} = {''A.app''}
    \<and> (\<Sum>f\<leftarrow>sample_entries. unat (ze_size f)) \<le> 12 \<and> files w' = sample_fs"
proof -
  let ?L = "sample_lib\<lparr>zip_read := \<lambda>_. Some sample_entries\<rparr>"
  have v: "validate_entries ?L 12 sample_entries = None"
    unfolding validate_entries_iff using sample_entries_ok sample_keys
    by (simp add: sample_apps) (simp add: sample_entries_def total_size_def)
  obtain w' where run: "run_state (ValidateIPA ?L [''data'', ''inputs'', sample_id 1] 12)
      (quiet_world sample_fs) = (None, w')"
    using v by (simp add: ValidateIPA_def sys_quiet quiet_world_def fs_reads fs_get_def sample_fs_def
        dir_node_def file_node_def)
  have len: "files (quiet_world sample_fs) = sample_fs" "unat (12 :: 64 word) = 12"
    and apps: "{a. \<exists>f \<in> set sample_entries. app_of (ze_name f) = Some a} = {''A.app''}"
    using sample_apps by (simp_all add: quiet_world_def archive_apps_def)
  from ValidateIPA_sound [OF solo_quiet run] have "(\<Sum>f\<leftarrow>sample_entries. unat (ze_size f)) \<le> unat (12 :: 64 word) \<and> files w' = sample_fs"
    unfolding len by (elim exE conjE) simp
  with run apps show ?thesis unfolding len by blast
qed

end
