(* ===== verification/Validation.thy ===== *)
theory Validation
  imports Archive
begin

text \<open>
  Validation of job targets (\<open>internal/httpapi/validation.go\<close>). The URL parser of \<open>net/url\<close> is a
  parameter; \<open>u_user\<close> says that user information was present.
\<close>

record url =
  u_scheme :: string
  u_host :: string
  u_user :: bool
  u_fragment :: string
  u_path :: string
  u_string :: string

text \<open>\<open>^[1-9][0-9]{0,19}$\<close>\<close>

definition digits_0_9 :: "(char \<times> char) list" where
  "digits_0_9 = [(CHR ''0'', CHR ''9'')]"

definition appID :: rx where
  "appID = Cat (Cls True [(CHR ''1'', CHR ''9'')]) (upto_times 19 (Cls True digits_0_9))"

text \<open>\<open>^/(?:[a-z]{2}/)?app/(?:[^/]+/)?id([1-9][0-9]{0,19})/?$\<close>\<close>

definition store_prefix :: rx where
  "store_prefix = Cat (lit CHR ''/'') (Cat (rx_opt (Cat (rep 2 (Cls True [(CHR ''a'', CHR ''z'')])) (lit CHR ''/'')))
     (Cat (lits ''app/'') (rx_opt (Cat (rx_plus (Cls False [(CHR ''/'', CHR ''/'')])) (lit CHR ''/'')))))"

definition storePath :: rx where
  "storePath = Cat store_prefix (Cat (lits ''id'') (Cat appID (rx_opt (lit CHR ''/''))))"

text \<open>The group of a match: what follows \<open>id\<close> in the last component.\<close>

definition last_component :: "string \<Rightarrow> string" where
  "last_component p = rev (takeWhile (\<lambda>c. c \<noteq> CHR ''/'') (rev p))"

definition store_id :: "string \<Rightarrow> string option" where
  "store_id p = (if matches storePath p then Some (drop 2 (last_component (TrimSuffix p ''/''))) else None)"

definition invalid :: "string \<Rightarrow> go_error + string" where
  "invalid msg = Inl (ErrText msg)"

text \<open>The checks after a URL has been replaced by its App Store identifier.\<close>

definition check_target :: "(string \<Rightarrow> string) \<Rightarrow> string \<Rightarrow> string \<Rightarrow> go_error + string" where
  "check_target low raw source =
     (if source = ''installed'' \<and> \<not> matches bundle_pattern raw
      then invalid ''installed apps require a bundle ID''
      else if source \<noteq> ''installed'' \<and> \<not> matches bundle_pattern raw \<and> \<not> matches appID raw
      then invalid ''enter a bundle ID, App Store ID, or App Store URL''
      else if HasSuffix (ToLower low raw) ''.ipa''
      then invalid ''use the IPA upload form for files''
      else Inr raw)"

definition ValidateTarget ::
  "(string \<Rightarrow> url option) \<Rightarrow> (string \<Rightarrow> string) \<Rightarrow> string \<Rightarrow> string \<Rightarrow> go_error + string" where
  "ValidateTarget url_parse low raw source =
     (if 512 < length raw \<or> raw \<noteq> TrimSpace raw then invalid ''invalid target''
      else if source \<noteq> ''installed'' \<and> source \<noteq> ''app-store''
      then invalid ''source must be installed or app-store''
      else if Contains raw ''://'' then
        (case url_parse raw of
           None \<Rightarrow> invalid ''only HTTPS apps.apple.com app URLs are accepted''
         | Some u \<Rightarrow>
             if u_scheme u \<noteq> ''https'' \<or> u_host u \<noteq> ''apps.apple.com'' \<or> u_user u \<or> u_fragment u \<noteq> ''''
             then invalid ''only HTTPS apps.apple.com app URLs are accepted''
             else case store_id (u_path u) of
               None \<Rightarrow> invalid ''invalid App Store URL''
             | Some n \<Rightarrow> check_target low n source)
      else check_target low raw source)"

section \<open>Accepted targets\<close>

lemma appID_iff: "matches appID s \<longleftrightarrow>
   (\<exists>c t. s = c # t \<and> in_class True [(CHR ''1'', CHR ''9'')] c \<and> length t \<le> 19 \<and> (\<forall>d \<in> set t. in_class True digits_0_9 d))"
  by (simp add: appID_def matches_lang conc_class lang_upto_Cls del: upto_times.simps)

lemma lang_store_prefix: "s \<in> lang store_prefix \<Longrightarrow> \<exists>t. s = t @ ''/''"
proof -
  assume s: "s \<in> lang store_prefix"
  let ?tail = "insert [] (conc (lang (rx_plus (Cls False [(CHR ''/'', CHR ''/'')]))) {''/''})"
  obtain a b c where "s = ''/'' @ a @ ''app/'' @ c" "c \<in> ?tail"
    using s unfolding store_prefix_def lang.simps lang_lit lang_lits lang_opt conc_def by auto
  moreover from this(2) have "c = [] \<or> (\<exists>d. c = d @ ''/'')" by (auto simp: conc_def)
  ultimately show ?thesis by auto
qed

lemma HasSuffix_one: "HasSuffix s [c] \<longleftrightarrow> s \<noteq> [] \<and> last s = c"
  by (cases s rule: rev_cases) (auto simp: HasSuffix_def)

lemma TrimSuffix_one: "TrimSuffix s [c] = (if s \<noteq> [] \<and> last s = c then butlast s else s)"
  by (simp add: TrimSuffix_def HasSuffix_one butlast_conv_take)

lemma last_component_app: "CHR ''/'' \<notin> set q \<Longrightarrow> last_component (t @ CHR ''/'' # q) = q"
  by (simp add: last_component_def takeWhile_append)

text \<open>Letters, digits, dashes and dots.\<close>

definition target_char :: "char \<Rightarrow> bool" where
  "target_char c = in_ranges [(CHR ''A'', CHR ''Z''), (CHR ''a'', CHR ''z''), (CHR ''0'', CHR ''9''),
     (CHR ''-'', CHR ''.'')] c"

lemma target_char_code: "target_char c \<longleftrightarrow> (let n = (of_char c :: nat) in
    65 \<le> n \<and> n \<le> 90 \<or> 97 \<le> n \<and> n \<le> 122 \<or> 48 \<le> n \<and> n \<le> 57 \<or> n = 45 \<or> n = 46)"
  by (auto simp: target_char_def in_ranges_def Let_def)

lemma digit_code: "in_class True digits_0_9 c \<longleftrightarrow> 48 \<le> (of_char c :: nat) \<and> (of_char c :: nat) \<le> 57"
  by (auto simp: in_class_def in_ranges_def digits_0_9_def)

lemma appID_digits: "matches appID s \<Longrightarrow> s \<noteq> [] \<and> length s \<le> 20 \<and> list_all (in_class True digits_0_9) s"
  unfolding appID_iff by (auto simp: in_class_def in_ranges_def digits_0_9_def list_all_iff)

lemma bundle_chars:
  assumes "matches bundle_pattern s"
  shows "list_all target_char s"
  unfolding list_all_iff
proof
  fix c assume "c \<in> set s"
  then have "alphabet bundle_pattern c" using assms matches_alphabet by blast
  then show "target_char c"
    unfolding target_char_code
    by (auto simp: bundle_pattern_def bundle_segment_def rx_plus_def lit_def in_class_def in_ranges_def)
qed

lemma target_set:
  assumes "matches bundle_pattern t \<or> matches appID t"
  shows "list_all target_char t"
  using assms
proof
  assume "matches appID t"
  then have "list_all (in_class True digits_0_9) t" using appID_digits by blast
  then show ?thesis by (auto simp: list_all_iff digit_code target_char_code)
qed (rule bundle_chars)

lemma space_bytes_disjoint: "list_all target_char t \<Longrightarrow> set t \<inter> set space_bytes = {}"
proof -
  assume t: "list_all target_char t"
  have "list_all (\<lambda>c. (of_char c :: nat) < 33 \<or> 128 \<le> (of_char c :: nat)) space_bytes" by code_simp
  then show ?thesis using t by (fastforce simp: list_all_iff target_char_code Let_def)
qed

lemma store_id_appID:
  assumes "store_id p = Some n"
  shows "matches appID n"
proof -
  have "p \<in> lang storePath" and n: "n = drop 2 (last_component (TrimSuffix p ''/''))"
    using assms by (auto simp: store_id_def matches_lang split: if_splits)
  then obtain a d e where p: "p = a @ ''id'' @ d @ e" "a \<in> lang store_prefix" "d \<in> lang appID" "e = [] \<or> e = ''/''"
    unfolding storePath_def lang.simps lang_lits lang_lit lang_opt conc_def by blast
  obtain t where t: "a = t @ ''/''" using lang_store_prefix [OF p(2)] by blast
  have d: "d \<noteq> []" "\<And>c. c \<in> set d \<Longrightarrow> c \<noteq> CHR ''/''"
    using appID_digits [of d] p(3) by (auto simp: matches_lang list_all_iff digit_code)
  then have "last d \<noteq> CHR ''/''" using last_in_set [of d] by auto
  then have "TrimSuffix p ''/'' = t @ CHR ''/'' # (''id'' @ d)"
    using p(1,4) t d(1) by (auto simp: TrimSuffix_one butlast_append)
  moreover have "CHR ''/'' \<notin> set (''id'' @ d)" using d(2) by auto
  ultimately have "n = d" using n last_component_app by simp
  then show ?thesis using p(3) by (simp add: matches_lang)
qed

lemma check_target_Inr:
  "check_target low raw source = Inr t \<longleftrightarrow> t = raw \<and> \<not> HasSuffix (ToLower low raw) ''.ipa''
     \<and> (matches bundle_pattern raw \<or> (source \<noteq> ''installed'' \<and> matches appID raw))"
  by (auto simp: check_target_def invalid_def)

text \<open>
  C39. An accepted target is a bundle identifier, or for the App Store source an application
  identifier of at most twenty digits; it is at most 512 bytes of letters, digits, dots and dashes, never
  names an IPA file, and validating it again accepts it unchanged. A URL is only ever replaced by the
  identifier in its path.
\<close>

theorem ValidateTarget_normal:
  assumes "ValidateTarget url_parse low raw source = Inr t"
  shows "source \<in> {''installed'', ''app-store''}
    \<and> (matches bundle_pattern t \<or> (source = ''app-store'' \<and> matches appID t))
    \<and> length t \<le> 512 \<and> list_all target_char t \<and> \<not> HasSuffix (ToLower low t) ''.ipa''
    \<and> (t = raw \<or> matches appID t)
    \<and> ValidateTarget url_parse low t source = Inr t"
proof -
  have src: "source \<in> {''installed'', ''app-store''}"
    using assms by (auto simp: ValidateTarget_def invalid_def split: if_splits)
  have "check_target low t source = Inr t \<and> length t \<le> 512 \<and> (t = raw \<or> matches appID t)"
  proof (cases "t = raw")
    case True
    then show ?thesis using assms
      by (auto simp: ValidateTarget_def invalid_def check_target_Inr split: if_splits option.splits)
  next
    case False
    then have "\<exists>u :: url. store_id (u_path u) = Some t \<and> check_target low t source = Inr t"
      using assms
      by (auto simp: ValidateTarget_def invalid_def check_target_Inr split: if_splits option.splits)
    then show ?thesis using store_id_appID [of _ t] appID_digits [of t] by auto
  qed
  then have ok: "check_target low t source = Inr t" and len: "length t \<le> 512" and raw: "t = raw \<or> matches appID t"
    by auto
  have kind: "matches bundle_pattern t \<or> (source = ''app-store'' \<and> matches appID t)"
    using ok src by (auto simp: check_target_Inr)
  then have chars: "list_all target_char t" using target_set by blast
  then have "TrimSpace t = t" using space_bytes_disjoint by (intro TrimSpace_id)
  moreover have "CHR '':'' \<notin> set t" using chars by (auto simp: list_all_iff target_char_code)
  then have "\<not> Contains t ''://''" by (auto simp: Contains_iff)
  ultimately have "ValidateTarget url_parse low t source = Inr t"
    using ok len src by (auto simp: ValidateTarget_def)
  with src kind len chars raw ok show ?thesis by (simp add: check_target_Inr)
qed

text \<open>The store page of an application, with a parser for that one URL.\<close>

definition sample_url :: url where
  "sample_url = \<lparr>u_scheme = ''https'', u_host = ''apps.apple.com'', u_user = False, u_fragment = '''',
     u_path = ''/us/app/example/id123'', u_string = ''https://apps.apple.com/us/app/example/id123''\<rparr>"

theorem ValidateTarget_normal_witness:
  "ValidateTarget (\<lambda>_. Some sample_url) id (u_string sample_url) ''app-store'' = Inr ''123''
    \<and> ValidateTarget (\<lambda>_. Some sample_url) id ''123'' ''app-store'' = Inr ''123''"
proof -
  have "ValidateTarget (\<lambda>_. Some sample_url) id (u_string sample_url) ''app-store'' = Inr ''123''"
    by code_simp
  from ValidateTarget_normal [OF this] this show ?thesis by blast
qed

end
