(* ===== verification/EngineSpec.thy ===== *)
theory EngineSpec
  imports Archive
begin

text \<open>
  The interface between the worker and the decryption engine (\<open>internal/engine/engine.go\<close>: \<open>Request\<close>,
  \<open>Result\<close>, \<open>Engine\<close>, the optional \<open>Cleaner\<close>, \<open>CleanupResult\<close>). An engine is a record of
  programs; the locale \<open>device_engine\<close> states what the worker relies on: an engine touches the job
  store only by journalling operations. Theory Adapter interprets it on the model of \<open>Adapter\<close>.
\<close>

record engine_request =
  rq_id :: string
  rq_target :: string
  rq_source :: string
  rq_workspace :: path
  rq_progress :: "progress \<Rightarrow> unit io"

record engine_result =
  er_bundle_id :: string
  er_version :: string
  er_installed :: bool
  er_replaced :: bool
  er_uninstalled :: bool
  er_review :: bool

definition no_result :: engine_result where
  "no_result = \<lparr>er_bundle_id = '''', er_version = '''', er_installed = False, er_replaced = False,
     er_uninstalled = False, er_review = False\<rparr>"

record cleanup_result =
  cr_confirmed :: bool
  cr_uninstalled :: bool

text \<open>\<open>Cleanup\<close> is \<open>None\<close> when the engine is not a \<open>Cleaner\<close>.\<close>

record engine =
  Decrypt :: "ctx \<Rightarrow> engine_request \<Rightarrow> (engine_result \<times> error) io"
  Verify :: "path \<Rightarrow> error io"
  Cleanup :: "(ctx \<Rightarrow> string \<Rightarrow> (cleanup_result \<times> error) io) option"

text \<open>Predicates of the database that other goroutines and journalled operations leave alone.\<close>

definition journal_stable :: "(db \<Rightarrow> bool) \<Rightarrow> bool" where
  "journal_stable p \<longleftrightarrow> (\<forall>now op i d r d'. store_StartOperation now op i d = Inr (r, d') \<longrightarrow> p d \<longrightarrow> p d')"

definition engine_stable :: "(db \<Rightarrow> bool) \<Rightarrow> bool" where
  "engine_stable p \<longleftrightarrow> db_stable p \<and> journal_stable p"

abbreviation on_store :: "(db \<Rightarrow> bool) \<Rightarrow> world \<Rightarrow> bool" where
  "on_store p \<equiv> (\<lambda>w. p (store w))"

locale device_engine =
  fixes E :: engine
  assumes decrypt_keeps: "engine_stable p \<Longrightarrow> (\<And>g. keeps (on_store p) (rq_progress rq g)) \<Longrightarrow>
      keeps (on_store p) (Decrypt E c rq)"
    and verify_keeps: "engine_stable p \<Longrightarrow> keeps (on_store p) (Verify E f)"
    and cleanup_keeps: "engine_stable p \<Longrightarrow> Cleanup E = Some cl \<Longrightarrow> keeps (on_store p) (cl c' i)"

lemma journal_rows:
  assumes "\<And>d d'. jobs d' = jobs d \<Longrightarrow> device d' = device d \<Longrightarrow> p d' = p d"
  shows "journal_stable p"
  unfolding journal_stable_def
proof (intro allI impI)
  fix now op i d r d' assume op: "store_StartOperation now op i d = Inr (r, d')" and "p d"
  then show "p d'" using assms [OF start_operation_frame(1,2) [OF op]] by simp
qed

lemma may_end_rows:
  assumes "jobs d' = jobs d" "device d' = device d"
  shows "may_end i s d' = may_end i s d"
  unfolding may_end_def same_rows_holder(3) [OF assms] same_rows_holder(4) [OF assms] ..

lemma settled_rows:
  assumes "jobs d' = jobs d" "device d' = device d"
  shows "settled d' = settled d"
  unfolding settled_def same_rows_holder(1) [OF assms] assms(1) ..

lemma engine_stable_rows:
  "db_stable p \<Longrightarrow> (\<And>d d'. jobs d' = jobs d \<Longrightarrow> device d' = device d \<Longrightarrow> p d' = p d) \<Longrightarrow> engine_stable p"
  unfolding engine_stable_def by (blast intro: journal_rows)

lemma engine_stable_inv [simp]: "engine_stable inv_store"
  by (rule engine_stable_rows [OF stable_inv same_rows_holder(1)])

lemma engine_stable_holder [simp]: "engine_stable (holder i S)"
  by (rule engine_stable_rows [OF stable_holder same_rows_holder(3)])

lemma engine_stable_may_end [simp]: "engine_stable (may_end i s)"
  by (rule engine_stable_rows [OF stable_may_end may_end_rows])

lemma engine_stable_settled [simp]: "engine_stable settled"
  by (rule engine_stable_rows [OF stable_settled settled_rows])

lemma engine_db_stable: "engine_stable p \<Longrightarrow> db_stable p"
  by (simp add: engine_stable_def)

end
