(* ===== verification/Account.thy ===== *)
theory Account
  imports Storage
begin

text \<open>
  The Apple account session of \<open>internal/secrets/store.go\<close>: \<open>Store.Load\<close> and \<open>Store.Save\<close>. The
  record \<open>account\<close> has the fields of the library's account type the program uses and \<open>acc_rest\<close> for
  the others; their JSON encoding belongs to that type and is a parameter (\<open>account_json\<close>). The
  mutex of the store keeps the two methods apart; nobody else touches the session file.
\<close>

record account =
  acc_email :: string
  acc_password :: string
  acc_mac :: string
  acc_token :: string
  acc_rest :: string

record account_json =
  marshal :: "account \<Rightarrow> go_error + string"
  unmarshal :: "string \<Rightarrow> account \<Rightarrow> go_error + account"

record secret_store =
  ss_path :: path
  ss_email :: string
  ss_password :: string
  ss_mac :: string
  ss_json :: account_json

text \<open>\<open>secrets.New\<close>\<close>

definition new_secrets :: "account_json \<Rightarrow> path \<Rightarrow> string \<Rightarrow> string \<Rightarrow> string \<Rightarrow> secret_store" where
  "new_secrets json root email password mac =
     \<lparr>ss_path = root @ [''secrets'', ''account.json''], ss_email = email, ss_password = password,
      ss_mac = mac, ss_json = json\<rparr>"

text \<open>What becomes of the account decoded from the session file.\<close>

definition adopt :: "secret_store \<Rightarrow> account \<Rightarrow> go_error + account option" where
  "adopt S a =
     (if acc_email a \<noteq> ss_email S then Inl (ErrText ''saved account does not match configured email'')
      else Inr (Some (a\<lparr>acc_token := (if acc_mac a \<noteq> ss_mac S then '''' else acc_token a),
                        acc_password := ss_password S, acc_mac := ss_mac S\<rparr>)))"

definition configured_account :: "secret_store \<Rightarrow> account" where
  "configured_account S = \<lparr>acc_email = ss_email S, acc_password = ss_password S, acc_mac = ss_mac S,
     acc_token = '''', acc_rest = ''''\<rparr>"

definition read_session :: "secret_store \<Rightarrow> (go_error + account option) io" where
  "read_session S = do {
     data \<leftarrow> sys (os_ReadFile (ss_path S));
     case data of
       Inl e \<Rightarrow> ret (if errors_is e ErrNotExist then Inr (Some (configured_account S)) else Inl e)
     | Inr s \<Rightarrow> ret (case unmarshal (ss_json S) s (configured_account S) of
                  Inl e \<Rightarrow> Inl e | Inr a \<Rightarrow> adopt S a) }"

definition account_Load :: "secret_store \<Rightarrow> (go_error + account option) io" where
  "account_Load S =
     (if ss_email S = '''' then ret (Inr None)
      else do {
        info \<leftarrow> sys (os_Lstat (ss_path S));
        case info of
          Inr n \<Rightarrow>
            if \<not> private_regular n
            then ret (Inl (ErrText ''account session must be a private regular file''))
            else read_session S
        | Inl e \<Rightarrow> if errors_is e ErrNotExist then read_session S else ret (Inl e) })"

text \<open>
  \<open>os.CreateTemp(dir, "account-*")\<close>: a new private file whose name ends in a random number; the call
  tries the next random number while the name is taken.
\<close>

definition temp_name :: "path \<Rightarrow> nat \<Rightarrow> path" where
  "temp_name dir n = dir @ [''account-'' @ NewID n]"

definition os_CreateTemp :: "path \<Rightarrow> nat \<Rightarrow> path syscall" where
  "os_CreateTemp dir r f =
     (if \<not> is_dir dir f then Inl ErrNotExist
      else case find (\<lambda>n. fs_get (temp_name dir n) f = None) [r ..< r + length (entries f) + 1] of
        None \<Rightarrow> Inl ErrIO
      | Some n \<Rightarrow> Inr (temp_name dir n, fs_put (temp_name dir n) (file_node perm_file '''') f))"

text \<open>A system call that reads a random number.\<close>

definition sys_random :: "(nat \<Rightarrow> 'a syscall) \<Rightarrow> (go_error + 'a) io" where
  "sys_random c = do {
     r \<leftarrow> State (\<lambda>w. (random (fst (next_slot w)), w));
     sys (c r) }"

text \<open>\<open>Close\<close> of a file that was written.\<close>

definition os_Close :: "unit syscall" where
  "os_Close f = Inr ((), f)"

text \<open>The body of \<open>Save\<close> between the creation of the temporary file and its deferred removal.\<close>

definition write_session :: "secret_store \<Rightarrow> path \<Rightarrow> string \<Rightarrow> (go_error + unit) io" where
  "write_session S tmp b =
     check (sys (os_Write tmp b)) (\<lambda>_.
     check (sys (os_Sync tmp)) (\<lambda>_.
     check (sys os_Close) (\<lambda>_.
     check (sys (os_Rename tmp (ss_path S))) (\<lambda>_.
     check (sys (os_Open (butlast (ss_path S)))) (\<lambda>_.
     sys (os_Sync (butlast (ss_path S))))))))"

definition account_Save :: "secret_store \<Rightarrow> account \<Rightarrow> error io" where
  "account_Save S a =
     (case marshal (ss_json S) (a\<lparr>acc_password := '''', acc_mac := ss_mac S\<rparr>) of
        Inl e \<Rightarrow> ret (Some e)
      | Inr b \<Rightarrow> do {
          t \<leftarrow> sys_random (os_CreateTemp (butlast (ss_path S)));
          case t of
            Inl e \<Rightarrow> ret (Some e)
          | Inr tmp \<Rightarrow> do {
              r \<leftarrow> write_session S tmp b;
              _ \<leftarrow> sys (os_Remove tmp);
              ret (error_of r) } })"

lemma keeps_sys_random [keeps_rules]: "db_stable p \<Longrightarrow> keeps (\<lambda>w. p (store w)) (sys_random c)"
  unfolding sys_random_def by (intro keeps_rules) (simp add: keeps_def holds_def)

lemma keeps_account_Load [keeps_rules]: "db_stable p \<Longrightarrow> keeps (\<lambda>w. p (store w)) (account_Load S)"
  unfolding account_Load_def read_session_def by (intro keeps_rules)

lemma keeps_account_Save [keeps_rules]: "db_stable p \<Longrightarrow> keeps (\<lambda>w. p (store w)) (account_Save S a)"
  unfolding account_Save_def write_session_def by (intro keeps_rules)

section \<open>Properties\<close>


lemma read_session_cases:
  assumes "solo w" "run_state (read_session S) w = (Inr (Some a), w')"
  shows "files w' = files w \<and> solo w' \<and> (a = configured_account S \<or>
    (\<exists>n b. fs_get (ss_path S) (files w) = Some n \<and> node_type n = Regular
       \<and> unmarshal (ss_json S) (node_data n) (configured_account S) = Inr b \<and> adopt S b = Inr (Some a)))"
proof -
  obtain r w1 where call: "run_state (sys (os_ReadFile (ss_path S))) w = (r, w1)" by fastforce
  from assms(1) call show ?thesis
  proof (cases rule: run_sys)
    case (failed e)
    then show ?thesis
      using assms(2) call by (auto simp: read_session_def split: if_splits)
  next
    case (finished s)
    then have "w' = w1" "(case unmarshal (ss_json S) s (configured_account S) of
        Inl e \<Rightarrow> Inl e | Inr a \<Rightarrow> adopt S a) = Inr (Some a)"
      using assms(2) call by (auto simp: read_session_def)
    then show ?thesis
      using finished(2,3) by (auto simp: os_ReadFile_def split: option.splits if_splits sum.splits)
  qed
qed

text \<open>
  C37. A loaded account always carries the configured identity: email, password and machine address
  are the configured ones, and it carries a session token only if a private regular session file
  decodes to an account saved for that same email and machine address with that token. A token
  saved under another machine address is dropped.
\<close>

theorem load_identity:
  assumes "solo w" "run_state (account_Load S) w = (Inr (Some a), w')"
  shows "acc_email a = ss_email S \<and> acc_password a = ss_password S \<and> acc_mac a = ss_mac S
    \<and> ss_email S \<noteq> '''' \<and> files w' = files w
    \<and> (acc_token a \<noteq> '''' \<longrightarrow> (\<exists>n b. fs_get (ss_path S) (files w) = Some n \<and> private_regular n
         \<and> unmarshal (ss_json S) (node_data n) (configured_account S) = Inr b
         \<and> acc_email b = ss_email S \<and> acc_mac b = ss_mac S \<and> acc_token b = acc_token a))"
proof -
  have e: "ss_email S \<noteq> ''''" using assms(2) by (auto simp: account_Load_def split: if_splits)
  obtain r w1 where call: "run_state (sys (os_Lstat (ss_path S))) w = (r, w1)" by fastforce
  have same: "files w1 = files w" "solo w1"
    using assms(1) call
    by (cases rule: run_sys; auto simp: os_Lstat_def split: option.splits)+
  have "run_state (read_session S) w1 = (Inr (Some a), w') \<and>
      (\<forall>n. fs_get (ss_path S) (files w) = Some n \<longrightarrow> private_regular n)"
    using assms(1) call
  proof (cases rule: run_sys)
    case (failed x)
    then have x: "errors_is x ErrNotExist" "run_state (read_session S) w1 = (Inr (Some a), w')"
      using assms(2) call e by (auto simp: account_Load_def split: if_splits)
    then have "os_Lstat (ss_path S) (files w) = Inl x" using failed(4) by (auto simp: errors_is_def)
    then show ?thesis using x(2) by (auto simp: os_Lstat_def split: option.splits)
  next
    case (finished n)
    then show ?thesis
      using assms(2) call e by (auto simp: account_Load_def os_Lstat_def split: if_splits option.splits)
  qed
  then have run: "run_state (read_session S) w1 = (Inr (Some a), w')"
    and priv: "\<And>n. fs_get (ss_path S) (files w) = Some n \<Longrightarrow> private_regular n" by auto
  show ?thesis
    using read_session_cases [OF same(2) run] same(1) e priv
    by (auto simp: configured_account_def adopt_def split: if_splits)
qed






section \<open>Witnesses\<close>

text \<open>
  An encoder that writes the token of one account, without its password, and the store that uses it.
\<close>

definition sample_json :: account_json where
  "sample_json = \<lparr>
     marshal = (\<lambda>x. if acc_email x = ''me'' \<and> acc_mac x = ''m'' \<and> acc_rest x = ''''
                    then Inr (acc_token x) else Inl (ErrText ''unsupported'')),
     unmarshal = (\<lambda>s y. Inr \<lparr>acc_email = ''me'', acc_password = acc_password y, acc_mac = ''m'',
                              acc_token = s, acc_rest = ''''\<rparr>)\<rparr>"

definition sample_store :: secret_store where
  "sample_store = new_secrets sample_json [''data''] ''me'' ''pw'' ''m''"

definition sample_account :: account where
  "sample_account = \<lparr>acc_email = ''me'', acc_password = ''pw'', acc_mac = ''m'', acc_token = ''tok'', acc_rest = ''''\<rparr>"

definition session_fs :: fs where
  "session_fs = \<lparr>entries = [([''data'', ''secrets'', ''account.json''], file_node perm_file ''tok''),
     ([''data'', ''secrets''], dir_node perm_dir)], locks = []\<rparr>"

lemmas sample_session = sample_store_def sample_json_def new_secrets_def session_fs_def sample_account_def

theorem load_identity_witness:
  "\<exists>w'. run_state (account_Load sample_store) (quiet_world session_fs) = (Inr (Some sample_account), w')
    \<and> acc_password sample_account = ss_password sample_store
    \<and> private_regular (file_node perm_file ''tok'')"
proof -
  have "run_state (account_Load sample_store) (quiet_world session_fs)
      = (Inr (Some sample_account), quiet_world session_fs)"
    by (simp add: account_Load_def read_session_def sample_session sys_quiet quiet_world_def
        fs_reads fs_get_def adopt_def file_node_def perm_file_def private_regular_def exposed_def
        configured_account_def)
  from load_identity [OF solo_quiet this] this show ?thesis
    by (simp add: sample_session private_regular_def file_node_def perm_file_def exposed_def)
qed



end
