(* ===== verification/DecryptLib.thy ===== *)
theory DecryptLib
  imports EngineSpec Account
begin

text \<open>
  The pinned decryption library as the program sees it: the types of its interface
  (\<open>ipa.DeviceConfig\<close>, \<open>Event\<close>, \<open>Request\<close>, \<open>Result\<close>, \<open>CleanupRequest\<close>, \<open>CleanupReport\<close>), the fields the
  program uses, and its functions as parameters. A call of the library is a tree of interactions
  \<open>lib_run\<close>: between the moments at which it calls back, asks for the end of its context, touches files
  or hears from the device it computes whatever it likes, and every path of the tree ends (the library
  honours its context). Nothing else is assumed of it.
\<close>

record device_auth =
  da_kind :: string
  da_key_path :: string
  da_passphrase :: string
  da_password :: string

record device_config =
  dc_host :: string
  dc_port :: int
  dc_user :: string
  dc_pin :: string
  dc_auth :: device_auth
  dc_known_hosts :: string

datatype phase =
    PhaseConnecting | PhaseProbing | PhaseResolving | PhaseDownloading | PhasePatching | PhaseInstalling
  | PhaseDecrypting | PhaseAssembling | PhaseVerifying | PhaseCleaning | PhaseComplete | OtherPhase string

record event =
  ev_phase :: phase
  ev_action :: string
  ev_message :: string
  ev_attributes :: "(string \<times> string) list"
  ev_current :: int
  ev_total :: int

text \<open>\<open>vf_ok\<close> is the value of the library's method \<open>OK()\<close>.\<close>

record verification =
  vf_ok :: bool
  vf_scanned :: int
  vf_missing :: "string list"

record ipa_result =
  ir_bundle_id :: string
  ir_version :: string
  ir_installed :: bool
  ir_reinstalled :: bool
  ir_uninstalled :: bool
  ir_verification :: verification

record ipa_request =
  ir_operation :: string
  ir_journal :: string
  ir_target :: string
  ir_device :: device_config
  ir_apple :: "account option"
  ir_state_dir :: path
  ir_output :: path
  ir_source :: string
  ir_extra_verify :: bool

record cleanup_request =
  cq_operation :: string
  cq_journal :: string
  cq_device :: device_config

record cleanup_report =
  rp_confirmed :: bool
  rp_uninstalled :: bool

record login_request =
  lg_dir :: path
  lg_email :: string
  lg_password :: string
  lg_mac :: string

section \<open>Calls of the library\<close>

datatype 'r lib_run =
    LibReturn 'r
  | LibEvent event "'r lib_run"
  | LibAccount account "error \<Rightarrow> 'r lib_run"
  | LibAuthCode "go_error + string \<Rightarrow> 'r lib_run"
  | LibCtxErr "error \<Rightarrow> 'r lib_run"
  | LibFiles "fs \<Rightarrow> fs" "fs \<Rightarrow> 'r lib_run"
  | LibDevice "nat \<Rightarrow> 'r lib_run"

text \<open>The callbacks of a request. \<open>OnEvent\<close> updates a flag of the caller.\<close>

record callbacks =
  on_event :: "event \<Rightarrow> bool \<Rightarrow> bool io"
  on_account :: "account \<Rightarrow> error io"
  on_auth :: "(go_error + string) io"

definition lib_files :: "(fs \<Rightarrow> fs) \<Rightarrow> fs io" where
  "lib_files g = State (\<lambda>w. if crashed w then (files w, w) else (g (files w), w\<lparr>files := g (files w)\<rparr>))"

primrec run_lib :: "callbacks \<Rightarrow> ctx \<Rightarrow> 'r lib_run \<Rightarrow> bool \<Rightarrow> (bool \<times> 'r) io" where
  "run_lib cb c (LibReturn r) t = ret (t, r)"
| "run_lib cb c (LibEvent e k) t = do { env_step; u \<leftarrow> on_event cb e t; run_lib cb c k u }"
| "run_lib cb c (LibAccount a k) t = do { env_step; e \<leftarrow> on_account cb a; run_lib cb c (k e) t }"
| "run_lib cb c (LibAuthCode k) t = do { env_step; r \<leftarrow> on_auth cb; run_lib cb c (k r) t }"
| "run_lib cb c (LibCtxErr k) t = do { e \<leftarrow> ctx_Err c; run_lib cb c (k e) t }"
| "run_lib cb c (LibFiles g k) t = do { env_step; f \<leftarrow> lib_files g; run_lib cb c (k f) t }"
| "run_lib cb c (LibDevice k) t = do { s \<leftarrow> env_step; run_lib cb c (k (random s)) t }"

text \<open>A call without callbacks.\<close>

definition no_callbacks :: callbacks where
  "no_callbacks = \<lparr>on_event = (\<lambda>e t. ret t), on_account = (\<lambda>a. ret None), on_auth = ret (Inl ErrCanceled)\<rparr>"

definition plain_call :: "ctx \<Rightarrow> 'r lib_run \<Rightarrow> 'r io" where
  "plain_call c k = do { (t, r) \<leftarrow> run_lib no_callbacks c k False; ret r }"

section \<open>What a call keeps\<close>

text \<open>
  A library call keeps every predicate of the database its callbacks and the other goroutines keep:
  it has no other way to reach the job store.
\<close>

lemma keeps_lib_files [keeps_rules]: "keeps (on_store p) (lib_files g)"
  by (simp add: keeps_def holds_def lib_files_def)

lemma keeps_run_lib:
  assumes "db_stable p" "\<And>e t. keeps (on_store p) (on_event cb e t)"
    "\<And>a. keeps (on_store p) (on_account cb a)" "keeps (on_store p) (on_auth cb)"
  shows "keeps (on_store p) (run_lib cb c k t)"
proof (induction k arbitrary: t)
  case (LibReturn r)
  show ?case by (simp add: keeps_ret)
qed (use assms in \<open>simp, intro keeps_rules; simp\<close>)+

lemma keeps_plain_call [keeps_rules]: "db_stable p \<Longrightarrow> keeps (on_store p) (plain_call c k)"
  unfolding plain_call_def
  by (intro keeps_rules keeps_run_lib) (simp_all add: no_callbacks_def keeps_ret)

end
