(* ===== verification/Logging.thy ===== *)
theory Logging
  imports GoStrings "HOL-Library.List_Lexorder"
begin

text \<open>
  Operator diagnostics (\<open>internal/logging/logging.go\<close>): rendering of untrusted text as one bounded,
  redacted line. The two patterns of \<open>Redact\<close> use alternatives whose order matters and word
  boundaries, so they are matched by a backtracking matcher that lists all matches at a position
  in the order of preference of the package \<open>regexp\<close>; the first one counts.
\<close>

section \<open>Backtracking patterns\<close>

text \<open>
  \<open>PLetter c\<close> is a lower-case letter under \<open>(?i)\<close>; \<open>PStar rs\<close> repeats the complement of a class or
  the class greedily; \<open>PBound\<close> is \<open>\b\<close>.
\<close>

datatype pat =
    PEps
  | PLetter char
  | PSet bool string
  | PStar bool string
  | PBound
  | PSeq pat pat
  | PAlt pat pat

text \<open>A position: the bytes before it, last first, and the bytes after it.\<close>

type_synonym position = "string \<times> string"

definition word_char :: "char \<Rightarrow> bool" where
  "word_char c \<longleftrightarrow> c \<in> set ''0123456789ABCDEFGHIJKLMNOPQRSTUVWXYZ_abcdefghijklmnopqrstuvwxyz''"

definition starts_word :: "string \<Rightarrow> bool" where
  "starts_word s = (case s of [] \<Rightarrow> False | c # _ \<Rightarrow> word_char c)"

text \<open>The encodings Unicode case folding identifies with a lower-case ASCII letter.\<close>

definition foldings :: "char \<Rightarrow> string list" where
  "foldings c =
     [[c], [char_of ((of_char c :: nat) - 32)]]
     @ (if c = CHR ''s'' then [[CHR 0xC5, CHR 0xBF]] else [])
     @ (if c = CHR ''k'' then [[CHR 0xE2, CHR 0x84, CHR 0xAA]] else [])"

definition step_over :: "string \<Rightarrow> position \<Rightarrow> position list" where
  "step_over u p = (if HasPrefix (snd p) u then [(rev u @ fst p, drop (length u) (snd p))] else [])"

fun star_from :: "(char \<Rightarrow> bool) \<Rightarrow> string \<Rightarrow> string \<Rightarrow> position list" where
  "star_from P b [] = [(b, [])]"
| "star_from P b (c # s) = (if P c then star_from P (c # b) s @ [(b, c # s)] else [(b, c # s)])"

fun pm :: "pat \<Rightarrow> position \<Rightarrow> position list" where
  "pm PEps p = [p]"
| "pm (PLetter c) p = concat (map (\<lambda>u. step_over u p) (foldings c))"
| "pm (PSet pos cs) (b, s) =
     (case s of [] \<Rightarrow> [] | c # r \<Rightarrow> if (c \<in> set cs) = pos then [(c # b, r)] else [])"
| "pm (PStar pos cs) (b, s) = star_from (\<lambda>c. (c \<in> set cs) = pos) b s"
| "pm PBound (b, s) = (if starts_word b \<noteq> starts_word s then [(b, s)] else [])"
| "pm (PSeq f g) p = concat (map (pm g) (pm f p))"
| "pm (PAlt f g) p = pm f p @ pm g p"

fun letters :: "string \<Rightarrow> pat" where
  "letters [] = PEps"
| "letters (c # s) = PSeq (PLetter c) (letters s)"

fun alternatives :: "string list \<Rightarrow> pat" where
  "alternatives [] = PEps"
| "alternatives [w] = letters w"
| "alternatives (w # ws) = PAlt (letters w) (alternatives ws)"

text \<open>\<open>\s\<close> and \<open>[^\s;,)]\<close>\<close>

definition spaces :: string where
  "spaces = [CHR 0x09, CHR 0x0A, CHR 0x0C, CHR 0x0D, CHR '' '']"

definition delimiters :: string where
  "delimiters = spaces @ '';,)''"

definition some_of :: "bool \<Rightarrow> string \<Rightarrow> pat" where
  "some_of pos cs = PSeq (PSet pos cs) (PStar pos cs)"

definition bearer_pat :: pat where
  "bearer_pat = PSeq (letters ''bearer'') (PSeq (some_of True spaces) (some_of False delimiters))"

definition bearer :: pat where
  "bearer = PSeq PBound bearer_pat"

definition secret_words :: "string list" where
  "secret_words = [''password'', ''passphrase'', ''secret'', ''token'', ''authorization'', ''cookie'', ''session'']"

definition secretPair :: pat where
  "secretPair =
     PSeq PBound (PSeq (alternatives secret_words) (PSeq PBound
     (PSeq (PStar True spaces) (PSeq (PSet True '':='') (PSeq (PStar True spaces)
     (PAlt bearer_pat (PAlt
        (PSeq (PSet True [CHR 0x22]) (PSeq (PStar False [CHR 0x22]) (PSet True [CHR 0x22])))
        (some_of False delimiters))))))))"

text \<open>\<open>ReplaceAllStringFunc\<close>: the first match at the leftmost position, again and again.\<close>

function replace_all :: "pat \<Rightarrow> (string \<Rightarrow> string) \<Rightarrow> string \<Rightarrow> string \<Rightarrow> string" where
  "replace_all p f b s =
     (case pm p (b, s) of
        (b', s') # _ \<Rightarrow>
          if length s' < length s
          then f (take (length s - length s') s) @ replace_all p f b' s'
          else (case s of [] \<Rightarrow> [] | c # r \<Rightarrow> c # replace_all p f (c # b) r)
      | [] \<Rightarrow> (case s of [] \<Rightarrow> [] | c # r \<Rightarrow> c # replace_all p f (c # b) r))"
  by pat_completeness auto
termination by (relation "measure (\<lambda>(p, f, b, s). length s)") auto

declare replace_all.simps [simp del]

section \<open>The functions of the package\<close>

definition mask_value :: "string \<Rightarrow> string" where
  "mask_value m = takeWhile (\<lambda>c. c \<noteq> CHR '':'' \<and> c \<noteq> CHR ''='') m
     @ take 1 (dropWhile (\<lambda>c. c \<noteq> CHR '':'' \<and> c \<noteq> CHR ''='') m) @ '' [redacted]''"

definition Redact :: "string \<Rightarrow> string" where
  "Redact s = replace_all bearer (\<lambda>_. ''bearer [redacted]'') [] (replace_all secretPair mask_value [] s)"

text \<open>\<open>strings.NewReplacer("\r\n", "; ", "\r", "; ", "\n", "; ")\<close>\<close>

fun one_line :: "string \<Rightarrow> string" where
  "one_line [] = []"
| "one_line (c # s) =
     (if c = CHR 0x0D then
        (case s of
           d # r \<Rightarrow> if d = CHR 0x0A then ''; '' @ one_line r else ''; '' @ one_line s
         | [] \<Rightarrow> ''; '' @ one_line s)
      else if c = CHR 0x0A then ''; '' @ one_line s
      else c # one_line s)"

definition detailLimit :: nat where
  "detailLimit = 2000"

definition Detail :: "string \<Rightarrow> string" where
  "Detail s =
     (let r = Redact (one_line s)
      in if detailLimit < length r then take detailLimit r @ '' ...[truncated]'' else r)"

definition Fields :: "(string \<times> string) list \<Rightarrow> string list \<Rightarrow> string" where
  "Fields fields allow =
     (if fields = [] \<or> allow = [] then ''''
      else Detail (join_with '' '' (map (\<lambda>k. k @ ''='' @ (case map_of fields k of Some v \<Rightarrow> v | None \<Rightarrow> ''''))
             (sort (filter (\<lambda>k. map_of fields k \<noteq> None) allow)))))"

text \<open>
  The text of an error; \<open>T\<close> gives the texts of the errors the environment makes (SQLite, system calls).
  \<open>errors.Unwrap\<close> follows a single cause only.
\<close>

fun error_text :: "(go_error \<Rightarrow> string) \<Rightarrow> go_error \<Rightarrow> string" where
  "error_text T ErrConflict = ''job state conflict''"
| "error_text T ErrQueueFull = ''queue full''"
| "error_text T ErrCanceled = ''context canceled''"
| "error_text T ErrDeadlineExceeded = ''context deadline exceeded''"
| "error_text T ErrServerClosed = ''http: Server closed''"
| "error_text T (ErrText s) = s"
| "error_text T (ErrLib l s) = s"
| "error_text T (ErrNet s) = s"
| "error_text T (ErrFailure code r n cause) = code"
| "error_text T (ErrWrap s e) = s"
| "error_text T (ErrJoin a b) = error_text T a @ [CHR 0x0A] @ error_text T b"
| "error_text T e = T e"

fun errors_unwrap :: "go_error \<Rightarrow> error" where
  "errors_unwrap (ErrFailure code r n cause) = cause"
| "errors_unwrap (ErrWrap s e) = Some e"
| "errors_unwrap e = None"

lemma errors_unwrap_size: "errors_unwrap e = Some x \<Longrightarrow> size x < size e"
  by (cases e) auto

text \<open>\<open>Chain\<close>: the messages along the chain of causes, each once when neighbours repeat it.\<close>

function chain_parts :: "(go_error \<Rightarrow> string) \<Rightarrow> go_error \<Rightarrow> string list \<Rightarrow> string list" where
  "chain_parts T e parts =
     (let msg = one_line (error_text T e);
          more = (if parts = [] \<or> last parts \<noteq> msg then parts @ [msg] else parts)
      in case errors_unwrap e of None \<Rightarrow> more | Some x \<Rightarrow> chain_parts T x more)"
  by pat_completeness auto
termination
  by (relation "measure (\<lambda>(T, e, parts). size e)") (auto dest: errors_unwrap_size)

declare chain_parts.simps [simp del]

definition Chain :: "(go_error \<Rightarrow> string) \<Rightarrow> error \<Rightarrow> string" where
  "Chain T err =
     (case err of None \<Rightarrow> '''' | Some e \<Rightarrow> Detail (join_with '': '' (chain_parts T e [])))"

section \<open>What may appear in a diagnostic line\<close>

lemma star_from_text: "(b', s') \<in> set (star_from P b s) \<Longrightarrow> rev b' @ s' = rev b @ s"
  by (induction s arbitrary: b) (auto split: if_splits)

lemma pm_text: "(b', s') \<in> set (pm p (b, s)) \<Longrightarrow> rev b' @ s' = rev b @ s"
proof (induction p arbitrary: b s b' s')
  case (PLetter c)
  then show ?case by (auto simp: step_over_def HasPrefix_def split: if_splits) (metis append_take_drop_id)+
next
  case (PSeq p1 p2)
  then obtain b1 s1 where "(b1, s1) \<in> set (pm p1 (b, s))" "(b', s') \<in> set (pm p2 (b1, s1))" by auto
  then show ?case using PSeq.IH by metis
qed (auto simp: star_from_text split: list.splits if_splits)

lemma pm_rest:
  assumes "(b', s') \<in> set (pm p (b, s))"
  shows "set s' \<subseteq> set b \<union> set s"
  using arg_cong [OF pm_text [OF assms], of set] by auto

lemma pm_suffix:
  assumes "(b', s') \<in> set (pm p (b, s))" "length s' < length s"
  shows "s' = drop (length s - length s') s"
proof -
  have "rev b' @ s' = rev b @ s" by (rule pm_text [OF assms(1)])
  then have "drop (length (rev b @ s) - length s') (rev b @ s) = s'"
    by (metis append_eq_conv_conj length_append diff_add_inverse2)
  then show ?thesis using assms(2) by simp
qed

text \<open>Unfolding one position: either a match is replaced, or one byte is copied.\<close>

lemma replace_all_step:
  obtains (stop) "s = []" "replace_all p f b s = []"
  | (copied) c r where "s = c # r" "replace_all p f b s = c # replace_all p f (c # b) r"
  | (matched) b' s' where "(b', s') \<in> set (pm p (b, s))" "length s' < length s"
      "replace_all p f b s = f (take (length s - length s') s) @ replace_all p f b' s'"
proof -
  have skip: thesis if "replace_all p f b s = (case s of [] \<Rightarrow> [] | c # r \<Rightarrow> c # replace_all p f (c # b) r)"
    using that stop copied by (cases s) auto
  show thesis
  proof (cases "pm p (b, s)")
    case Nil
    then show ?thesis by (intro skip) (subst replace_all.simps, simp)
  next
    case (Cons x xs)
    obtain b' s' where x: "x = (b', s')" by (cases x)
    show ?thesis
    proof (cases "length s' < length s")
      case True
      then show ?thesis using Cons x by (intro matched [of b' s']) (auto simp: replace_all.simps [of p f b s])
    next
      case False
      then show ?thesis using Cons x by (intro skip) (subst replace_all.simps, simp)
    qed
  qed
qed

lemma replace_all_chars:
  assumes "\<And>m. set m \<subseteq> A \<Longrightarrow> set (f m) \<subseteq> A" "set s \<subseteq> A"
  shows "set (replace_all p f b s) \<subseteq> A"
  using assms(2)
proof (induction "length s" arbitrary: b s rule: less_induct)
  case less
  show ?case
  proof (rule replace_all_step [of s p f b])
    fix b' s' assume m: "(b', s') \<in> set (pm p (b, s))" "length s' < length s"
      "replace_all p f b s = f (take (length s - length s') s) @ replace_all p f b' s'"
    have "set s' \<subseteq> A" using pm_suffix [OF m(1,2)] less.prems by (metis order_trans set_drop_subset)
    moreover have "set (take (length s - length s') s) \<subseteq> A" using less.prems set_take_subset by fast
    ultimately show ?thesis using m(2,3) less.hyps [OF m(2)] assms(1) by simp
  qed (use less in auto)
qed

definition line_char :: "char \<Rightarrow> bool" where
  "line_char c \<longleftrightarrow> c \<noteq> CHR 0x0A \<and> c \<noteq> CHR 0x0D"

lemma one_line_chars: "set (one_line s) \<subseteq> Collect line_char"
  by (induction s rule: one_line.induct) (auto simp: line_char_def split: list.splits)

lemma mask_chars: "set m \<subseteq> A \<Longrightarrow> set '' [redacted]'' \<subseteq> A \<Longrightarrow> set (mask_value m) \<subseteq> A"
  unfolding mask_value_def
  by (auto dest: set_takeWhileD in_set_takeD set_dropWhileD)

lemma Redact_chars:
  assumes "set s \<subseteq> A" "set ''bearer [redacted]'' \<subseteq> A"
  shows "set (Redact s) \<subseteq> A"
  unfolding Redact_def
  by (intro replace_all_chars mask_chars assms) (use assms(2) in auto)

text \<open>
  C36. A diagnostic detail is one bounded line whatever the text it renders: it holds no line break
  and at most 2,000 bytes and the truncation mark.
\<close>

theorem Detail_one_line:
  "set (Detail s) \<subseteq> Collect line_char \<and> length (Detail s) \<le> 2000 + length '' ...[truncated]''"
proof -
  have r: "set (Redact (one_line s)) \<subseteq> Collect line_char"
    by (rule Redact_chars [OF one_line_chars]) (simp add: line_char_def)
  moreover have "set '' ...[truncated]'' \<subseteq> Collect line_char" by (simp add: line_char_def)
  ultimately show ?thesis
    by (auto simp: Detail_def Let_def detailLimit_def dest: in_set_takeD)
qed

lemma map_of_filtered: "k \<in> set allow \<Longrightarrow> map_of (filter (\<lambda>(k, v). k \<in> set allow) fs) k = map_of fs k"
  by (induction fs) auto

lemma Detail_empty: "Detail '''' = ''''"
  by code_simp

text \<open>
  Diagnostic fields that are not on the allow list never reach the log: removing them does not
  change the rendered line.
\<close>

theorem Fields_only_allowed:
  "Fields fs allow = Fields (filter (\<lambda>(k, v). k \<in> set allow) fs) allow"
proof -
  let ?fs = "filter (\<lambda>(k, v). k \<in> set allow) fs"
  let ?line = "\<lambda>fs. join_with '' '' (map (\<lambda>k. k @ ''='' @ (case map_of fs k of Some v \<Rightarrow> v | None \<Rightarrow> ''''))
        (sort (filter (\<lambda>k. map_of fs k \<noteq> None) allow)))"
  have "filter (\<lambda>k. map_of ?fs k \<noteq> None) allow = filter (\<lambda>k. map_of fs k \<noteq> None) allow"
    by (rule filter_cong) (simp_all only: map_of_filtered)
  moreover have "map (\<lambda>k. k @ ''='' @ (case map_of ?fs k of Some v \<Rightarrow> v | None \<Rightarrow> '''')) ks =
      map (\<lambda>k. k @ ''='' @ (case map_of fs k of Some v \<Rightarrow> v | None \<Rightarrow> '''')) ks" if "set ks \<subseteq> set allow" for ks
    using that by (intro map_cong) (auto simp: map_of_filtered)
  moreover have "set (sort (filter (\<lambda>k. map_of fs k \<noteq> None) allow)) \<subseteq> set allow" by auto
  ultimately have line: "?line ?fs = ?line fs" by presburger
  have "?line [] = ''''" by simp
  then have "Fields fs allow = Detail (?line fs)" if "allow \<noteq> []" for fs
    using that Detail_empty unfolding Fields_def by (cases "fs = []") simp_all
  then show ?thesis
    using line by (cases "allow = []") (simp_all add: Fields_def)
qed

end
