(* ===== verification/Utf8.thy ===== *)
theory Utf8
  imports GoStrings
begin

text \<open>
  UTF-8 as the package \<open>unicode/utf8\<close> decides it, on byte strings: the length of the rune a string
  starts with (0 when it is not a valid encoding), \<open>utf8.ValidString\<close>, \<open>strings.ToValidUTF8\<close> with an
  empty replacement, and the truncation \<open>boundedMetadata\<close> of \<open>internal/worker/worker.go\<close>.
\<close>

definition byte :: "char \<Rightarrow> nat" where
  "byte c = of_char c"

definition cont :: "char \<Rightarrow> bool" where
  "cont c \<longleftrightarrow> 128 \<le> byte c \<and> byte c \<le> 191"

text \<open>The range of the second byte, which rules out overlong forms, surrogates and values past the end.\<close>

definition second_ok :: "char \<Rightarrow> char \<Rightarrow> bool" where
  "second_ok a b \<longleftrightarrow>
     (if byte a = 224 then 160 \<le> byte b \<and> byte b \<le> 191
      else if byte a = 237 then 128 \<le> byte b \<and> byte b \<le> 159
      else if byte a = 240 then 144 \<le> byte b \<and> byte b \<le> 191
      else if byte a = 244 then 128 \<le> byte b \<and> byte b \<le> 143
      else cont b)"

fun rune_len :: "string \<Rightarrow> nat" where
  "rune_len [] = 0"
| "rune_len (a # s) =
     (if byte a < 128 then 1
      else if 194 \<le> byte a \<and> byte a \<le> 223 then
        (case s of b # _ \<Rightarrow> if cont b then 2 else 0 | _ \<Rightarrow> 0)
      else if 224 \<le> byte a \<and> byte a \<le> 239 then
        (case s of b # c # _ \<Rightarrow> if second_ok a b \<and> cont c then 3 else 0 | _ \<Rightarrow> 0)
      else if 240 \<le> byte a \<and> byte a \<le> 244 then
        (case s of b # c # d # _ \<Rightarrow> if second_ok a b \<and> cont c \<and> cont d then 4 else 0 | _ \<Rightarrow> 0)
      else 0)"

lemma rune_len_le: "rune_len s \<le> length s"
  by (cases s) (auto split: list.splits)

lemma rune_len_4: "rune_len s \<le> 4"
  by (cases s) (auto split: list.splits)

function ValidString :: "string \<Rightarrow> bool" where
  "ValidString s = (if s = [] then True else if rune_len s = 0 then False else ValidString (drop (rune_len s) s))"
  by auto
termination by (relation "measure length") auto

function ToValidUTF8 :: "string \<Rightarrow> string" where
  "ToValidUTF8 s =
     (if s = [] then []
      else if rune_len s = 0 then ToValidUTF8 (tl s)
      else take (rune_len s) s @ ToValidUTF8 (drop (rune_len s) s))"
  by auto
termination by (relation "measure length") auto

declare ValidString.simps [simp del] ToValidUTF8.simps [simp del]

text \<open>\<open>for !utf8.ValidString(value) { value = value[:len(value)-1] }\<close>\<close>

function drop_invalid_tail :: "string \<Rightarrow> string" where
  "drop_invalid_tail v = (if v = [] \<or> ValidString v then v else drop_invalid_tail (butlast v))"
  by auto
termination by (relation "measure length") auto

declare drop_invalid_tail.simps [simp del]

definition boundedMetadata :: "string \<Rightarrow> nat \<Rightarrow> string" where
  "boundedMetadata s n =
     (let v = ToValidUTF8 s
      in if length v \<le> n then v else drop_invalid_tail (take n v))"

section \<open>Lemmas\<close>

lemma Valid_Nil [simp]: "ValidString []"
  by (simp add: ValidString.simps)

lemma rune_len_append: "rune_len s \<noteq> 0 \<Longrightarrow> rune_len (s @ t) = rune_len s"
  by (cases s) (auto split: list.splits)

lemma rune_len_take: "rune_len s \<noteq> 0 \<Longrightarrow> rune_len (take (rune_len s) s) = rune_len s"
  by (cases s) (auto split: list.splits)

lemma Valid_rune: "s \<noteq> [] \<Longrightarrow> ValidString s \<longleftrightarrow> rune_len s \<noteq> 0 \<and> ValidString (drop (rune_len s) s)"
  by (subst ValidString.simps) auto

lemma Valid_prepend:
  assumes "rune_len s \<noteq> 0" "ValidString t"
  shows "ValidString (take (rune_len s) s @ t)"
proof -
  let ?u = "take (rune_len s) s"
  have "rune_len (?u @ t) = rune_len s" "length ?u = rune_len s" "?u @ t \<noteq> []"
    using rune_len_append [of ?u t] rune_len_take [OF assms(1)] rune_len_le [of s] assms(1) by auto
  then show ?thesis using assms by (subst Valid_rune) auto
qed

lemma ToValid_valid: "ValidString (ToValidUTF8 s)"
proof (induction s rule: ToValidUTF8.induct)
  case (1 s)
  then show ?case
    by (subst ToValidUTF8.simps) (auto intro: Valid_prepend)
qed

lemma ToValid_id: "ValidString s \<Longrightarrow> ToValidUTF8 s = s"
proof (induction s rule: ToValidUTF8.induct)
  case (1 s)
  show ?case
  proof (cases "s = []")
    case False
    then have "rune_len s \<noteq> 0" "ValidString (drop (rune_len s) s)" using "1.prems" Valid_rune by auto
    then show ?thesis using False "1.IH"(2) by (subst ToValidUTF8.simps) simp
  qed (simp add: ToValidUTF8.simps)
qed

lemma drop_tail_spec:
  "ValidString (drop_invalid_tail v) \<and> prefix (drop_invalid_tail v) v
    \<and> (\<forall>p. prefix p v \<longrightarrow> ValidString p \<longrightarrow> prefix p (drop_invalid_tail v))"
proof (induction v rule: drop_invalid_tail.induct)
  case (1 v)
  show ?case
  proof (cases "v = [] \<or> ValidString v")
    case True
    then have "drop_invalid_tail v = v" by (simp add: drop_invalid_tail.simps)
    then show ?thesis using True by auto
  next
    case False
    then have "drop_invalid_tail v = drop_invalid_tail (butlast v)" by (subst drop_invalid_tail.simps) simp
    moreover have "prefix p (butlast v)" if "prefix p v" "ValidString p" for p
      using that False by (metis append_butlast_last_id prefix_snoc)
    moreover have "prefix (butlast v) v" by (rule prefixeq_butlast)
    ultimately show ?thesis using "1.IH" [OF False] by (metis prefix_order.trans)
  qed
qed

text \<open>
  C35. Metadata is truncated safely: the result is always valid UTF-8 of at most the given number of
  bytes, it is the longest valid prefix of the valid part of the input that fits, and a valid value
  that fits is stored unchanged.
\<close>

theorem boundedMetadata_safe:
  "ValidString (boundedMetadata s n) \<and> length (boundedMetadata s n) \<le> n
    \<and> prefix (boundedMetadata s n) (ToValidUTF8 s)
    \<and> (\<forall>p. prefix p (ToValidUTF8 s) \<longrightarrow> ValidString p \<longrightarrow> length p \<le> n \<longrightarrow> prefix p (boundedMetadata s n))
    \<and> (ValidString s \<and> length s \<le> n \<longrightarrow> boundedMetadata s n = s)"
proof (cases "length (ToValidUTF8 s) \<le> n")
  case True
  then show ?thesis by (auto simp: boundedMetadata_def ToValid_valid ToValid_id)
next
  case False
  let ?v = "ToValidUTF8 s"
  have b: "boundedMetadata s n = drop_invalid_tail (take n ?v)"
    using False by (simp add: boundedMetadata_def)
  note spec = drop_tail_spec [of "take n ?v"]
  have "length (boundedMetadata s n) \<le> n"
    using spec prefix_length_le unfolding b by fastforce
  moreover have "prefix (boundedMetadata s n) ?v"
    using spec unfolding b by (metis prefix_order.trans take_is_prefix)
  moreover have "prefix p (take n ?v)" if "prefix p ?v" "length p \<le> n" for p
    using that by (auto simp: prefix_def)
  ultimately show ?thesis using spec False ToValid_id [of s] unfolding b by auto
qed

theorem boundedMetadata_safe_witness:
  "boundedMetadata ''1.2'' 64 = ''1.2''"
proof -
  have "ValidString ''1.2''" by code_simp
  then show ?thesis using boundedMetadata_safe [of "''1.2''" 64] by simp
qed

end
