(* ===== verification/Worker.thy ===== *)
theory Worker
  imports EngineSpec Utf8
begin

text \<open>
  The worker (\<open>internal/worker/worker.go\<close>): one job run from its claim to a terminal state or to
  review, expiry of artifacts, startup recovery and the operator's confirmation. The functions
  follow the Go methods statement by statement; logging is left out.
\<close>

record worker =
  wk_root :: path
  wk_engine :: engine
  wk_timeout :: int
  wk_retention :: int
  wk_max_attempts :: int
  wk_retry_delay :: int
  wk_cleanup_timeout :: int
  wk_archives :: archive_lib
  wk_sha256 :: "string \<Rightarrow> nat list"

definition second :: int where
  "second = 1000000000"

definition maxBundleIDBytes :: nat where
  "maxBundleIDBytes = 255"

definition maxVersionBytes :: nat where
  "maxVersionBytes = 64"

fun safeMessage :: "string \<Rightarrow> string" where
  "safeMessage code =
     (if code = ''verification_failed'' then ''The output did not pass IPA verification.''
      else if code = ''device_locked'' then ''The device could not be unlocked. Check RemoteCompanion and the configured unlock PIN, or unlock it manually.''
      else if code = ''device_unavailable'' then ''The configured device could not be reached.''
      else if code = ''authentication_failed'' \<or> code = ''account_unavailable'' then ''Apple account authentication needs operator attention.''
      else if code = ''cancelled'' then ''The job was cancelled.''
      else if code = ''timeout'' then ''The job exceeded its execution deadline.''
      else if code = ''storage_failed'' then ''The artifact could not be stored.''
      else ''The job could not be completed. Inspect the device before retrying.'')"

section \<open>Expiry\<close>

fun expire_jobs :: "worker \<Rightarrow> job list \<Rightarrow> error io" where
  "expire_jobs W [] = ret None"
| "expire_jobs W (j # js) =
     (case expires_at j of
        None \<Rightarrow> expire_jobs W js
      | Some t \<Rightarrow>
          if artifact_expired j then expire_jobs W js
          else do {
            now \<leftarrow> time_now;
            if now < t then expire_jobs W js
            else do {
              e \<leftarrow> Remove (wk_root W) ''artifacts'' (job_id j);
              case e of
                Some x \<Rightarrow> ret (Some x)
              | None \<Rightarrow> do {
                  m \<leftarrow> Jobs_Metadata (job_id j) (expire_fields (job_state j = Cleaning));
                  case m of Inl x \<Rightarrow> ret (Some x) | Inr _ \<Rightarrow> expire_jobs W js } } })"

definition Expire :: "worker \<Rightarrow> error io" where
  "Expire W = do {
     all \<leftarrow> Jobs_All;
     case all of Inl e \<Rightarrow> ret (Some e) | Inr js \<Rightarrow> expire_jobs W js }"

section \<open>Device cleanup\<close>

text \<open>
  Its context is derived from the background context: neither the job's cancellation nor a
  shutdown reaches it.
\<close>

definition cleanupDevice :: "worker \<Rightarrow> string \<Rightarrow> bool io" where
  "cleanupDevice W i =
     (case Cleanup (wk_engine W) of
        None \<Rightarrow> ret False
      | Some cleaner \<Rightarrow> do {
          now \<leftarrow> time_now;
          let c = CleanupCtx (now + (if wk_cleanup_timeout W \<le> 0 then 30 * second else wk_cleanup_timeout W));
          (res, err) \<leftarrow> cleaner c i;
          e \<leftarrow> ctx_Err c;
          if e \<noteq> None then ret False
          else if err \<noteq> None then ret False
          else if \<not> cr_confirmed res then ret False
          else if cr_uninstalled res then do {
            m \<leftarrow> Jobs_Metadata i [SetUninstalled True];
            ret (case m of Inl _ \<Rightarrow> False | Inr _ \<Rightarrow> True) }
          else ret True })"

section \<open>Finishing a job\<close>

definition server_reason :: string where
  "server_reason = ''Server cleanup failed. Resolve filesystem access and restart before confirming cleanup.''"

definition device_reason :: string where
  "device_reason = ''Device cleanup could not be confirmed automatically. Inspect job-owned staging, helper files, and installed/replaced apps; confirm cleanup before continuing.''"

definition conclude :: "worker \<Rightarrow> string \<Rightarrow> error io" where
  "conclude W i = do {
     e \<leftarrow> Expire W;
     case e of
       Some x \<Rightarrow> ret (Some x)
     | None \<Rightarrow> do {
         cur \<leftarrow> Jobs_Get i;
         case cur of
           Inl x \<Rightarrow> ret (Some x)
         | Inr current \<Rightarrow> do {
             r \<leftarrow> Jobs_Change i (pending_state current) [SetPhase (state_string (pending_state current))];
             ret (error_of r) } } }"

definition finish :: "worker \<Rightarrow> string \<Rightarrow> jstate \<Rightarrow> string \<Rightarrow> bool \<Rightarrow> error io" where
  "finish W i desired code review = do {
     b \<leftarrow> Jobs_BeginCleanup i desired code (if code \<noteq> '''' then safeMessage code else '''');
     case b of
       Inl e \<Rightarrow> ret (Some e)
     | Inr desired \<Rightarrow> do {
         e1 \<leftarrow> Remove (wk_root W) ''work'' i;
         e2 \<leftarrow> Remove (wk_root W) ''inputs'' i;
         e3 \<leftarrow> CleanupTemp (wk_root W);
         cleanup_err \<leftarrow>
           (if desired \<noteq> Completed then do {
              e4 \<leftarrow> Remove (wk_root W) ''artifacts'' i;
              ret (errors_join (errors_join e1 (errors_join e2 e3)) e4) }
            else ret (errors_join e1 (errors_join e2 e3)));
         review \<leftarrow> (if review then do { ok \<leftarrow> cleanupDevice W i; ret (\<not> ok) } else ret False);
         if cleanup_err \<noteq> None then do {
           q \<leftarrow> Jobs_Quarantine i server_reason desired; ret (error_of q) }
         else if review then do {
           q \<leftarrow> Jobs_Quarantine i device_reason desired; ret (error_of q) }
         else conclude W i } }"

section \<open>Attempts\<close>

text \<open>
  \<open>emit\<close>: the three selects on the progress channel of capacity one, with the monitor free to run in
  between.
\<close>

definition try_send :: "progress \<Rightarrow> bool io" where
  "try_send p = State (\<lambda>w.
     if crashed w then (True, w)
     else case progress_ch w of None \<Rightarrow> (True, w\<lparr>progress_ch := Some p\<rparr>) | Some _ \<Rightarrow> (False, w))"

definition emit :: "progress \<Rightarrow> unit io" where
  "emit p = do {
     env_step;
     sent \<leftarrow> try_send p;
     if sent then ret ()
     else do {
       env_step;
       modify (\<lambda>w. if crashed w then w else w\<lparr>progress_ch := None\<rparr>);
       env_step;
       _ \<leftarrow> try_send p;
       ret () } }"

text \<open>
  The wait between attempts: the timer, or the end of the job's context; when both are ready the
  choice is arbitrary.
\<close>

definition backoff :: "ctx \<Rightarrow> int \<Rightarrow> error \<Rightarrow> error io" where
  "backoff c wait err = do {
     t0 \<leftarrow> time_now;
     r \<leftarrow> wait_for (ctx_done c) (min (ctx_deadline c) (t0 + wait));
     gets (\<lambda>w. if ctx_done c w \<and> (clock w < t0 + wait \<or> even r) then ctx_error c w else err) }"

text \<open>The loop over the attempts: \<open>k\<close> of them are left, \<open>attempt\<close> is the number of the next one.\<close>

fun attempts_loop ::
  "worker \<Rightarrow> ctx \<Rightarrow> engine_request \<Rightarrow> nat \<Rightarrow> nat \<Rightarrow> engine_result \<times> error \<Rightarrow> (engine_result \<times> error) io" where
  "attempts_loop W c rq 0 attempt prev = ret prev"
| "attempts_loop W c rq (Suc k) attempt prev = do {
     (result, err) \<leftarrow> Decrypt (wk_engine W) c rq;
     case Option.bind err as_failure of
       None \<Rightarrow> ret (result, err)
     | Some (code, retryable, needs) \<Rightarrow>
         if \<not> retryable \<or> k = 0 then ret (result, err)
         else do {
           x \<leftarrow> ctx_Err c;
           if x \<noteq> None then ret (result, err)
           else do {
             ok \<leftarrow> (if needs \<or> er_review result then cleanupDevice W (rq_id rq) else ret True);
             if \<not> ok then ret (result, err)
             else do {
               r \<leftarrow> Jobs_Retry (rq_id rq);
               case r of
                 Inl e \<Rightarrow> ret (result, Some e)
               | Inr _ \<Rightarrow> do {
                   let delay = (if wk_retry_delay W = 0 then second else wk_retry_delay W);
                   err2 \<leftarrow> backoff c (delay * 2 ^ (attempt - 1)) err;
                   y \<leftarrow> ctx_Err c;
                   if y \<noteq> None then ret (result, err2)
                   else attempts_loop W c rq k (attempt + 1) (result, err2) } } } } }"

section \<open>The run of a job\<close>

text \<open>\<open>target, _ = w.Files.Path("inputs", j.ID)\<close>\<close>

definition path_string :: "path \<Rightarrow> string" where
  "path_string p = concat (map (\<lambda>c. CHR ''/'' # c) p)"

definition upload_target :: "worker \<Rightarrow> string \<Rightarrow> string" where
  "upload_target W i =
     (case Path (wk_root W) ''inputs'' i of Inl _ \<Rightarrow> '''' | Inr p \<Rightarrow> path_string p)"

definition start_monitor :: "string \<Rightarrow> unit io" where
  "start_monitor i = modify (\<lambda>w. if crashed w then w else
     w\<lparr>cancelled := False, progress_ch := None, monitor := Some i, monitor_err := None\<rparr>)"

text \<open>\<open>close(done); wg.Wait()\<close>: a tick in progress finishes; then the goroutine is gone.\<close>

definition stop_monitor :: "error io" where
  "stop_monitor = do {
     env_step;
     State (\<lambda>w. (monitor_err w, if crashed w then w else w\<lparr>monitor := None\<rparr>)) }"

definition result_fields :: "engine_result \<Rightarrow> assign list" where
  "result_fields r =
     [SetInstalled (er_installed r), SetReplaced (er_replaced r), SetUninstalled (er_uninstalled r)]"

text \<open>The outcome the result and the error of the last attempt ask for, with its code and review flag.\<close>

definition decide :: "engine_result \<Rightarrow> error \<Rightarrow> jstate \<times> string \<times> bool" where
  "decide result err =
     (case err of
        None \<Rightarrow> (Completed, '''', er_review result)
      | Some e \<Rightarrow>
          (case as_failure e of
             Some (code, _, needs) \<Rightarrow> (Failed, code, er_review result \<or> needs)
           | None \<Rightarrow> (Failed, ''decryption_failed'', True)))"

text \<open>Verification and publication of a completed output; \<open>Inl\<close> is an error that ends the run.\<close>

definition publish_output ::
  "worker \<Rightarrow> string \<Rightarrow> path \<Rightarrow> engine_result \<Rightarrow> (go_error + (jstate \<times> string)) io" where
  "publish_output W i workspace result =
     check (Jobs_Change i Verifying []) (\<lambda>_. do {
       let output = workspace @ [''output.ipa''];
       v \<leftarrow> ValidateIPA (wk_archives W) output (32 * 2 ^ 30);
       e \<leftarrow> (case v of None \<Rightarrow> Verify (wk_engine W) output | Some x \<Rightarrow> ret (Some x));
       case e of
         Some _ \<Rightarrow> ret (Inr (Failed, ''verification_failed''))
       | None \<Rightarrow> do {
           p \<leftarrow> Publish (wk_sha256 W) (wk_root W) i output;
           case p of
             Inl _ \<Rightarrow> ret (Inr (Failed, ''storage_failed''))
           | Inr (bytes, digest) \<Rightarrow> do {
               now \<leftarrow> time_now;
               check (Jobs_Metadata i
                   ([SetBytes bytes, SetSha256 digest,
                     SetBundleID (boundedMetadata (er_bundle_id result) maxBundleIDBytes),
                     SetVersion (boundedMetadata (er_version result) maxVersionBytes),
                     SetExpiresAt (now + wk_retention W)] @ result_fields result))
                 (\<lambda>_. ret (Inr (Completed, ''''))) } } })"

text \<open>The part of \<open>Run\<close> after the attempts.\<close>

definition settle :: "worker \<Rightarrow> string \<Rightarrow> ctx \<Rightarrow> path \<Rightarrow> engine_result \<Rightarrow> error \<Rightarrow> error io" where
  "settle W i c workspace result err = do {
     cur \<leftarrow> Jobs_Get i;
     case cur of
       Inl e \<Rightarrow> ret (Some e)
     | Inr current \<Rightarrow> do {
         let (desired, code, review) = decide result err;
         x \<leftarrow> ctx_Err c;
         let (desired, code) =
           (if cancel_requested current then (Cancelled, ''cancelled'')
            else if x \<noteq> None then (Failed, ''timeout'') else (desired, code));
         m \<leftarrow> Jobs_Metadata i (result_fields result);
         case m of
           Inl e \<Rightarrow> ret (Some e)
         | Inr _ \<Rightarrow> do {
             p \<leftarrow> (if desired = Completed then publish_output W i workspace result
                    else ret (Inr (desired, code)));
             case p of
               Inl e \<Rightarrow> ret (Some e)
             | Inr (desired, code) \<Rightarrow> do {
                 y \<leftarrow> ctx_Err c;
                 if y \<noteq> None then finish W i Failed ''timeout'' review
                 else finish W i desired code review } } } }"

definition run_job :: "worker \<Rightarrow> job \<Rightarrow> error io" where
  "run_job W j =
     (if cancel_requested j then finish W (job_id j) Cancelled '''' False
      else do {
        ws \<leftarrow> Workspace (wk_root W) (job_id j);
        case ws of
          Inl e \<Rightarrow> ret (Some e)
        | Inr workspace \<Rightarrow> do {
            now \<leftarrow> time_now;
            let c = JobCtx (now + wk_timeout W);
            start_monitor (job_id j);
            let rq = \<lparr>rq_id = job_id j,
              rq_target = (if job_source j = ''upload'' then upload_target W (job_id j) else job_target j),
              rq_source = (if job_source j = ''upload'' then ''auto'' else job_source j),
              rq_workspace = workspace, rq_progress = emit\<rparr>;
            (result, err) \<leftarrow> attempts_loop W c rq (nat (wk_max_attempts W)) 1 (no_result, None);
            m \<leftarrow> stop_monitor;
            case m of
              Some e \<Rightarrow> ret (Some e)
            | None \<Rightarrow> settle W (job_id j) c workspace result err } })"

definition Run :: "worker \<Rightarrow> job \<Rightarrow> error io" where
  "Run W j = do {
     e \<leftarrow> run_job W j;
     r \<leftarrow> Jobs_Release (job_id j);
     ret (errors_join e (error_of r)) }"

section \<open>Startup recovery and the operator's confirmation\<close>

text \<open>Which entries of the data directory survive a restart.\<close>

definition keep_entry :: "string \<Rightarrow> job option \<Rightarrow> bool" where
  "keep_entry kind known =
     (case known of
        None \<Rightarrow> False
      | Some j \<Rightarrow>
          (kind = ''inputs'' \<and> job_state j = Queued)
          \<or> (kind = ''artifacts'' \<and> (job_state j = Completed
               \<or> (job_state j = Cleaning \<and> pending_state j = Completed))))"

definition reconcile_entry :: "worker \<Rightarrow> job list \<Rightarrow> string \<Rightarrow> string \<times> node \<Rightarrow> (go_error + unit) io" where
  "reconcile_entry W all kind entry =
     (if \<not> ValidID (fst entry)
      then ret (Inl (ErrText ''unrecognized storage entry requires operator inspection''))
      else if keep_entry kind (row job_id (fst entry) all) then ret (Inr ())
      else do {
        e \<leftarrow> Remove (wk_root W) kind (fst entry);
        ret (case e of Some x \<Rightarrow> Inl x | None \<Rightarrow> Inr ()) })"

definition reconcile_kind :: "worker \<Rightarrow> job list \<Rightarrow> string \<Rightarrow> (go_error + unit) io" where
  "reconcile_kind W all kind =
     check (sys (os_ReadDir (wk_root W @ [kind]))) (for_each (reconcile_entry W all kind))"

text \<open>One iteration of the last loop of \<open>Recover\<close>: device cleanup of a job under review.\<close>

definition recover_device :: "worker \<Rightarrow> job \<Rightarrow> (go_error + unit) io" where
  "recover_device W j =
     (if job_state j = Cleaning \<and> cleanup_error j \<noteq> '''' then do {
        ok \<leftarrow> cleanupDevice W (job_id j);
        if ok then Jobs_ResolveAutomatic (job_id j) else ret (Inr ()) }
      else ret (Inr ()))"

definition as_result :: "error \<Rightarrow> go_error + unit" where
  "as_result e = (case e of None \<Rightarrow> Inr () | Some x \<Rightarrow> Inl x)"

definition Recover :: "worker \<Rightarrow> error io" where
  "Recover W = do {
     r \<leftarrow> check Jobs_Recover (\<lambda>_.
          check Jobs_All (\<lambda>all.
          check (for_each (reconcile_kind W all) [''work'', ''inputs'', ''artifacts'']) (\<lambda>_.
          check (State_Monad.bind (CleanupTemp (wk_root W)) (\<lambda>e. ret (as_result e))) (\<lambda>_.
          check (State_Monad.bind (Expire W) (\<lambda>e. ret (as_result e))) (\<lambda>_.
          for_each (recover_device W) all)))));
     ret (error_of r) }"

definition Resolve :: "worker \<Rightarrow> string \<Rightarrow> error io" where
  "Resolve W i = do {
     g \<leftarrow> Jobs_Get i;
     case g of
       Inl e \<Rightarrow> ret (Some e)
     | Inr j \<Rightarrow>
         if job_state j \<noteq> Cleaning \<or> cleanup_error j = '''' then ret (Some ErrConflict)
         else do {
           e1 \<leftarrow> Remove (wk_root W) ''work'' i;
           e2 \<leftarrow> Remove (wk_root W) ''inputs'' i;
           e3 \<leftarrow> CleanupTemp (wk_root W);
           (case errors_join e1 (errors_join e2 e3) of
              Some x \<Rightarrow> ret (Some x)
            | None \<Rightarrow> do {
                e \<leftarrow> Expire W;
                case e of
                  Some x \<Rightarrow> ret (Some x)
                | None \<Rightarrow> do { r \<leftarrow> Jobs_Resolve i; ret (error_of r) } }) } }"

end
