(* ===== verification/Lease.thy ===== *)
theory Lease
  imports World
begin

text \<open>
  The device as a shared resource, abstractly: every job is \<open>Away\<close> from it, \<open>Holding\<close> it, or \<open>Reviewing\<close>
  (its cleanup waits for a confirmation). The specification \<open>lease_step\<close> allows four moves; a restart of
  the process turns a holder into a job under review (\<open>interrupted\<close>). Each transaction of the job store
  is, through the abstraction \<open>device_view\<close>, a move or no move, in the situations in which the worker runs
  it; \<open>along\<close> carries this through programs: theory WorkerInvariants proves it for the worker call by
  call, and theory LeaseContract concludes for whole lifetimes of the service.
\<close>

section \<open>The specification\<close>

datatype grant = Away | Holding | Reviewing

inductive lease_step :: "(string \<Rightarrow> grant) \<Rightarrow> (string \<Rightarrow> grant) \<Rightarrow> bool" where
  acquire: "(\<And>k. L k = Away) \<Longrightarrow> lease_step L (L(i := Holding))"
| finish: "L i = Holding \<Longrightarrow> lease_step L (L(i := Away))"
| suspend: "L i = Holding \<Longrightarrow> lease_step L (L(i := Reviewing))"
| resolve: "L i = Reviewing \<Longrightarrow> lease_step L (L(i := Away))"

inductive_cases lease_stepE: "lease_step L L'"

definition interrupted :: "(string \<Rightarrow> grant) \<Rightarrow> string \<Rightarrow> grant" where
  "interrupted L k = (if L k = Holding then Reviewing else L k)"

text \<open>What the specification guarantees: a holder is alone at the device, nobody else holds or waits.\<close>

definition alone :: "(string \<Rightarrow> grant) \<Rightarrow> bool" where
  "alone L \<longleftrightarrow> (\<forall>i k. L i = Holding \<longrightarrow> L k \<noteq> Away \<longrightarrow> k = i)"

lemma alone_step: "lease_step L L' \<Longrightarrow> alone L \<Longrightarrow> alone L'"
  by (induction rule: lease_step.induct) (auto simp: alone_def split: if_splits)

lemma alone_run: "lease_step\<^sup>*\<^sup>* L L' \<Longrightarrow> alone L \<Longrightarrow> alone L'"
  by (induction rule: rtranclp_induct) (auto intro: alone_step)

lemma alone_interrupted: "alone (interrupted L)"
  by (auto simp: alone_def interrupted_def split: if_splits)

section \<open>The abstraction\<close>

definition grant_of :: "job \<Rightarrow> grant" where
  "grant_of j = (if in_flight j then Holding else if needs_review j then Reviewing else Away)"

definition device_view :: "db \<Rightarrow> string \<Rightarrow> grant" where
  "device_view d i = (case find_job i d of None \<Rightarrow> Away | Some j \<Rightarrow> grant_of j)"

abbreviation view_step :: "db \<Rightarrow> db \<Rightarrow> bool" where
  "view_step d d' \<equiv> lease_step\<^sup>=\<^sup>= (device_view d) (device_view d')"

lemma grant_of_updated_at [simp]: "grant_of (j\<lparr>updated_at := t\<rparr>) = grant_of j"
  by (simp add: grant_of_def)

lemma view_job: "find_job i d = Some j \<Longrightarrow> device_view d i = grant_of j"
  by (simp add: device_view_def)

lemma view_rows: "jobs d' = jobs d \<Longrightarrow> device_view d' = device_view d"
  by (simp add: device_view_def find_job_def fun_eq_iff)

lemma view_quiet: "quiet P f \<Longrightarrow> device_view (update_jobs now P f d) = device_view d"
  by (rule ext, unfold device_view_def, subst find_update_jobs)
    (auto simp: quiet_def grant_of_def split: option.split)

lemma view_replace:
  assumes "find_job i d = Some j" "\<And>k. job_id k = i \<Longrightarrow> job_id (f k) = i"
  shows "device_view (update_device g (update_jobs now (by_id i) f d)) = (device_view d)(i := grant_of (f j))"
proof (rule ext)
  fix k
  show "device_view (update_device g (update_jobs now (by_id i) f d)) k = ((device_view d)(i := grant_of (f j))) k"
  proof (cases "k = i")
    case True
    then show ?thesis using assms find_after_update [of i f now d] by (simp add: device_view_def)
  next
    case False
    have "find_job k (update_jobs now (by_id i) f d) = find_job k d"
      using False assms(2) by (subst find_update_jobs) (auto dest: find_job_Some split: option.split intro!: option.map_ident_strong)
    then show ?thesis using False by (simp add: device_view_def)
  qed
qed

lemmas view_replace_rows = view_replace [where g = "\<lambda>v. v", simplified]

section \<open>The transactions\<close>

text \<open>Transactions that change no row, or none in a way the device could notice.\<close>

lemma view_release: "store_Release i d = Inr (u, d') \<Longrightarrow> device_view d' = device_view d"
  by (rule view_rows) (auto simp: store_Release_def)

lemma view_start_operation: "store_StartOperation now op i d = Inr (r, d') \<Longrightarrow> device_view d' = device_view d"
  by (rule view_rows) (rule start_operation_frame(1))

text \<open>The transactions of others.\<close>

lemma step_resolve:
  assumes "store_resolve now i ph d = Inr (u, d')"
  shows "view_step d d'"
proof -
  obtain j d1 where j: "find_job i d = Some j" "needs_review j" "Terminal (pending_state j)"
    and d1: "d1 = update_jobs now (by_id i)
       (\<lambda>k. k\<lparr>cleanup_error := '''', job_state := pending_state j, pending_state := NoState, job_phase := ph\<rparr>) d"
    and d': "d' = (if \<exists>k \<in> set (jobs d1). needs_review k then d1
       else update_device (\<lambda>v. v\<lparr>dev_quarantined := False, dev_reason := '''', dev_owner := ''''\<rparr>) d1)"
    using assms by (rule resolve_cases)
  have "device_view d' = device_view d1" by (rule view_rows) (simp add: d')
  also have "\<dots> = (device_view d)(i := Away)"
    unfolding d1 by (subst view_replace_rows [OF j(1)]) (use j(3) in \<open>auto simp: grant_of_def flag_defs Terminal_def\<close>)
  finally have view: "device_view d' = (device_view d)(i := Away)" .
  have "\<not> in_flight j" using j(2) flight_not_review by blast
  then have "lease_step (device_view d) (device_view d')"
    unfolding view by (intro lease_step.resolve) (simp add: view_job [OF j(1)] grant_of_def j(2))
  then show ?thesis by simp
qed

lemma view_enqueue:
  assumes "store_Enqueue now (new_job (NewID r) t s) limit d = Inr (j, d')"
  shows "device_view d' = device_view d"
proof -
  have new: "find_job (NewID r) d = None" and d': "jobs d' = jobs d @ [j]" and j: "job_id j = NewID r" "job_state j = Queued"
    using assms by (auto simp: store_Enqueue_def Let_def split: if_splits)
  then show ?thesis
    by (auto simp: device_view_def find_job_def row_append grant_of_def flag_defs split: option.splits)
qed

lemma step_api:
  assumes "inv_store d" "api_tx d d'"
  shows "view_step d d'"
  using assms
proof (cases rule: api_tx_cases)
  case (quiet now P f)
  then show ?thesis by (simp add: view_quiet)
next
  case (enqueue now r t s limit j)
  then show ?thesis by (simp add: view_enqueue)
next
  case (confirm now i)
  then show ?thesis by (intro step_resolve) (simp add: store_Resolve_def)
qed

text \<open>Those of the scheduler and the worker, on the job that holds the device.\<close>

lemma step_claim:
  assumes "inv_store d" "lease d" "store_Claim now d = Inr (c, d')"
  shows "view_step d d'"
  using assms(3)
proof (cases rule: claim_cases)
  case none
  then show ?thesis by simp
next
  case (claimed j)
  have "distinct_ids d" using assms(1) by (simp add: inv_store_def)
  then have j: "find_job (job_id j) d = Some j" using claimed(2) by (rule find_job_eq)
  have "\<not> in_flight k \<and> \<not> needs_review k" if "k \<in> set (jobs d)" for k
    using that assms(1) claimed(5) lease_free [OF assms(1,2) claimed(6)]
    by (auto simp: inv_store_def quarantine_agrees_def)
  then have free: "device_view d k = Away" for k
    by (auto simp: device_view_def grant_of_def dest: find_job_Some split: option.split)
  have "device_view d' = (device_view d)(job_id j := grant_of (start_job j))"
    unfolding claimed(7) by (rule view_replace [OF j]) (simp add: start_job_def)
  also have "grant_of (start_job j) = Holding" by (simp add: grant_of_def start_job_def in_flight_def)
  finally have view: "device_view d' = (device_view d)(job_id j := Holding)" .
  have "lease_step (device_view d) (device_view d')" unfolding view by (rule lease_step.acquire) (rule free)
  then show ?thesis by simp
qed

lemma holder_view:
  assumes "holder i S d"
  obtains j where "find_job i d = Some j" "job_state j \<in> S" "in_flight j" "distinct_ids d" "row_ok j"
    "device_view d i = Holding"
proof -
  obtain j where j: "find_job i d = Some j" "job_state j \<in> S" "in_flight j"
    using assms by (rule holder_job)
  moreover have "distinct_ids d" "row_ok j"
    using holder_inv [OF assms] find_job_Some [OF j(1)] by (auto simp: inv_store_def well_formed_def)
  moreover have "device_view d i = Holding" by (simp add: view_job [OF j(1)] grant_of_def j(3))
  ultimately show thesis by (rule that)
qed

text \<open>A row that stays in flight, or stays away.\<close>

lemma view_row:
  assumes "distinct_ids d" "find_job i d = Some j" "job_id (f j) = i" "in_flight (f j) = in_flight j"
    and "needs_review (f j) = needs_review j" "row_ok j \<Longrightarrow> row_ok (f j)"
  shows "device_view (update_jobs now (by_id i) f d) = device_view d"
  unfolding update_by_id [OF assms(1,2)]
  by (rule view_quiet) (use assms(3-6) in \<open>auto simp: quiet_def\<close>)

lemma view_verify:
  assumes "holder i {Running} d" "store_Change now i Verifying [] d = Inr (u, d')"
  shows "device_view d' = device_view d"
proof -
  obtain j where j: "find_job i d = Some j" "job_state j \<in> {Running}" "in_flight j" "distinct_ids d" "row_ok j"
    using assms(1) by (rule holder_view)
  show ?thesis
    unfolding change_eq(2) [OF j(4,1) assms(2)]
    by (rule view_row [OF j(4,1)]) (use j find_job_Some [OF j(1)] in \<open>auto simp: flag_defs Terminal_def\<close>)
qed

lemma step_land:
  assumes "holder i S d" "Terminal s" "store_Change now i s cs d = Inr (u, d')"
  shows "view_step d d'"
proof -
  obtain j where j: "find_job i d = Some j" "distinct_ids d" "device_view d i = Holding"
    using assms(1) by (rule holder_view)
  have "device_view d' = (device_view d)(i := Away)"
    unfolding change_eq(2) [OF j(2,1) assms(3)]
    by (subst view_replace_rows [OF j(1)]) (use assms(2) in \<open>auto simp: grant_of_def flag_defs Terminal_def\<close>)
  then show ?thesis using lease_step.finish [of "device_view d" i] j(3) by simp
qed

lemma view_begin:
  assumes "holder i S d" "store_BeginCleanup now i s c m d = Inr (p, d')"
  shows "device_view d' = device_view d"
proof -
  obtain j where j: "find_job i d = Some j" "in_flight j" "distinct_ids d" "row_ok j"
    using assms(1) by (rule holder_view)
  then have e: "cleanup_error j = ''''" by (auto simp: flag_defs)
  obtain k where k: "find_job i d = Some k" "p = (if cancel_requested k then Cancelled else s)"
    and d': "d' = update_jobs now (by_id i)
       (\<lambda>k'. k'\<lparr>job_state := Cleaning, job_phase := ''cleaning'', pending_state := p,
          error_code := (if cancel_requested k then ''cancelled'' else c),
          error_message := (if cancel_requested k then ''The job was cancelled.'' else m),
          failure_reason := (if cancel_requested k then ''cancelled'' else c)\<rparr>) d" (is "_ = update_jobs _ _ ?f _")
    using assms(2) by (rule begin_cleanup_cases)
  have kj: "k = j" using k(1) j(1) by simp
  have "job_id (?f j) = i" "in_flight (?f j) = in_flight j" "needs_review (?f j) = needs_review j"
    using e j(2) find_job_Some [OF j(1)] by (simp_all add: in_flight_def needs_review_def)
  moreover have "row_ok j \<Longrightarrow> row_ok (?f j)"
    using e k(2) unfolding kj row_ok_def honours_cancel_def by (simp add: Terminal_def)
  ultimately show ?thesis unfolding d' by (rule view_row [OF j(3,1)])
qed

lemma step_quarantine:
  assumes "holder i {Cleaning} d" "store_Quarantine now i why s d = Inr (u, d')" "why \<noteq> ''''"
  shows "view_step d d'"
proof -
  obtain j where j: "find_job i d = Some j" "job_state j \<in> {Cleaning}" "device_view d i = Holding"
    using assms(1) by (rule holder_view)
  have "d' = update_device (\<lambda>v. v\<lparr>dev_quarantined := True, dev_reason := why, dev_owner := ''''\<rparr>)
      (update_jobs now (by_id i) (\<lambda>j. j\<lparr>cleanup_error := why, pending_state := s\<rparr>) d)"
    using assms(2) by (simp add: store_Quarantine_def)
  then have "device_view d' = (device_view d)(i := Reviewing)"
    using view_replace [OF j(1), of "\<lambda>j. j\<lparr>cleanup_error := why, pending_state := s\<rparr>"] assms(3) j(2)
    by (simp add: grant_of_def flag_defs)
  then show ?thesis using lease_step.suspend [of "device_view d" i] j(3) by simp
qed

text \<open>Recovery is a restart of the abstract lease.\<close>

lemma view_recover:
  assumes "store_Recover now d = Inr (u, d')"
  shows "device_view d' = interrupted (device_view d)"
proof -
  have "find_job i d' = map_option (\<lambda>j. if active j \<and> \<not> needs_review j then (recover_job j)\<lparr>updated_at := now\<rparr> else j) (find_job i d)" for i
    using assms find_update_jobs [of "\<lambda>j. active j \<and> \<not> needs_review j" recover_job i now d]
    by (auto simp: store_Recover_def Let_def recover_job_def split: if_splits)
  moreover have "needs_review (recover_job j)" "\<not> in_flight (recover_job j)" for j
    by (auto simp: recover_job_def flag_defs)
  ultimately show ?thesis
    by (auto simp: fun_eq_iff device_view_def grant_of_def interrupted_def active_cases split: option.split
        dest: flight_not_review)
qed

text \<open>With nothing in flight the invariant and the exclusive lease give a view with a holder alone.\<close>

lemma view_away:
  "device_view d i \<noteq> Away \<Longrightarrow> \<exists>j. j \<in> set (jobs d) \<and> job_id j = i \<and> device_view d i = grant_of j"
  by (auto simp: device_view_def dest: find_job_Some split: option.splits)

lemma view_alone:
  assumes "inv_store d"
  shows "alone (device_view d)"
  unfolding alone_def
proof (intro allI impI)
  fix i k assume h: "device_view d i = Holding" and k: "device_view d k \<noteq> Away"
  obtain a where a: "a \<in> set (jobs d)" "job_id a = i" "device_view d i = grant_of a"
    using view_away [of d i] h by auto
  obtain b where b: "b \<in> set (jobs d)" "job_id b = k" "device_view d k = grant_of b"
    using view_away [OF k] by auto
  have fl: "in_flight a" "in_flight b \<or> needs_review b"
    using a(3) b(3) h k by (auto simp: grant_of_def split: if_splits)
  have ex: "exclusive d" "single_flight d" using assms by (simp_all add: inv_store_def)
  then have "in_flight b" using fl a(1) b(1) unfolding exclusive_def by blast
  moreover obtain l where "\<forall>j \<in> set (jobs d). in_flight j \<longrightarrow> job_id j = l"
    using ex(2) unfolding single_flight_def by blast
  ultimately show "k = i" using fl(1) a(1,2) b(1,2) by blast
qed

section \<open>Along a run of the specification\<close>

text \<open>
  \<open>along V p\<close>: \<open>p\<close> holds, and the view of the database is reached from one of the views in \<open>V\<close> by moves
  of the specification. \<open>restart V\<close>: the views a process starts from that follows one of those.
\<close>

definition along :: "(string \<Rightarrow> grant) set \<Rightarrow> (db \<Rightarrow> bool) \<Rightarrow> db \<Rightarrow> bool" where
  "along V p d \<longleftrightarrow> p d \<and> (\<exists>v \<in> V. lease_step\<^sup>*\<^sup>* v (device_view d))"

definition restart :: "(string \<Rightarrow> grant) set \<Rightarrow> (string \<Rightarrow> grant) set" where
  "restart V = interrupted ` {u. \<exists>v \<in> V. lease_step\<^sup>*\<^sup>* v u}"

lemma along_UNIV [simp]: "along UNIV p = p"
  by (rule ext) (auto simp: along_def)

lemma along_start: "p d \<Longrightarrow> device_view d \<in> V \<Longrightarrow> along V p d"
  by (auto simp: along_def)

lemma alongD: "along V p d \<Longrightarrow> p d"
  by (simp add: along_def)

lemma along_mono: "along V p d \<Longrightarrow> (p d \<Longrightarrow> q d) \<Longrightarrow> V \<subseteq> V' \<Longrightarrow> along V' q d"
  by (auto simp: along_def)

lemma along_weaken: "along V p d \<Longrightarrow> (p d \<Longrightarrow> q d) \<Longrightarrow> along V q d"
  by (auto simp: along_def)

lemma along_step: "along V p d \<Longrightarrow> view_step d d' \<Longrightarrow> q d' \<Longrightarrow> along V q d'"
  by (auto simp: along_def intro: rtranclp.rtrancl_into_rtrancl)

lemma along_same: "along V p d \<Longrightarrow> device_view d' = device_view d \<Longrightarrow> q d' \<Longrightarrow> along V q d'"
  by (simp add: along_def)

lemma along_restart: "along V p d \<Longrightarrow> device_view d' = interrupted (device_view d) \<Longrightarrow> q d' \<Longrightarrow> along (restart V) q d'"
  by (auto simp: along_def restart_def)

lemma db_stable_along:
  assumes "db_stable p" "\<And>d. p d \<Longrightarrow> inv_store d"
  shows "db_stable (along V p)"
  unfolding db_stable_def
proof (intro allI impI)
  fix d d' assume tx: "api_tx d d'" and a: "along V p d"
  then have "inv_store d" "p d'" using assms by (auto simp: db_stable_def dest: alongD)
  then show "along V p d'" by (intro along_step [OF a] step_api [OF _ tx])
qed

end
