(* ===== verification/WorkerInvariants.thy ===== *)
theory WorkerInvariants
  imports Worker Lease
begin

text \<open>
  What the worker does to the job store, for every interleaving with the HTTP handlers and the job
  monitor, every failure and every crash point (the script of theory World): the store invariant
  holds at every moment, a run that reports success has left the device free with nothing in
  flight, and the view of the device only moves along the abstract lease (\<open>along\<close>, theory Lease). The
  lemmas about an arbitrary engine live in the locale \<open>device_engine\<close>.
\<close>

section \<open>Updates that leave the course of jobs alone\<close>

definition course :: "job \<Rightarrow> jstate \<times> jstate \<times> bool" where
  "course j = (job_state j, pending_state j, cancel_requested j)"

definition mild :: "(job \<Rightarrow> bool) \<Rightarrow> (job \<Rightarrow> job) \<Rightarrow> bool" where
  "mild P f \<longleftrightarrow> quiet P f \<and> (\<forall>j. P j \<longrightarrow> course (f j) = course j)"

text \<open>A predicate the worker's own bookkeeping, other goroutines and the engine leave alone.\<close>

definition work_stable :: "(db \<Rightarrow> bool) \<Rightarrow> bool" where
  "work_stable p \<longleftrightarrow> engine_stable p
     \<and> (\<forall>P f now d. mild P f \<longrightarrow> p d \<longrightarrow> p (update_jobs now P f d))"

lemma work_engine: "work_stable p \<Longrightarrow> engine_stable p"
  by (simp add: work_stable_def)

lemma work_db: "work_stable p \<Longrightarrow> db_stable p"
  by (simp add: work_stable_def engine_stable_def)

text \<open>The device is free and nothing is in flight: the state between jobs.\<close>

definition free :: "db \<Rightarrow> bool" where
  "free d \<longleftrightarrow> settled d \<and> dev_owner (device d) = ''''"

text \<open>Nothing is in flight, and only job \<open>i\<close> may still be the recorded owner.\<close>

definition landed :: "string \<Rightarrow> db \<Rightarrow> bool" where
  "landed i d \<longleftrightarrow> settled d \<and> dev_owner (device d) \<in> {i, ''''}"

lemma owner_api:
  assumes "inv_store d" "api_tx d d'"
  shows "dev_owner (device d') \<in> {dev_owner (device d), ''''}"
  using assms
proof (cases rule: api_tx_cases)
  case (enqueue now r t s limit j)
  then show ?thesis by (auto simp: store_Enqueue_def Let_def split: if_splits)
next
  case (confirm now i)
  then show ?thesis unfolding store_Resolve_def by (auto elim!: resolve_cases)
qed auto

lemma stable_landed [simp]: "db_stable (landed i)"
  unfolding db_stable_def
proof (intro allI impI)
  fix d d' assume tx: "api_tx d d'" and l: "landed i d"
  then have "inv_store d" "settled d'"
    using stable_settled by (auto simp: landed_def settled_def db_stable_def)
  then show "landed i d'" using owner_api [OF _ tx] l by (auto simp: landed_def)
qed

lemma landed_empty [simp]: "landed '''' = free"
  by (auto simp: landed_def free_def)

lemma stable_free [simp]: "db_stable free"
  using stable_landed [of "''''"] by simp

lemma mild_settled: "mild P f \<Longrightarrow> settled d \<Longrightarrow> settled (update_jobs now P f d)"
  using quiet_inv [of P f d now] by (auto simp: settled_def mild_def quiet_def)

lemma work_stable_inv [simp]: "work_stable inv_store"
  by (simp add: work_stable_def mild_def quiet_inv)

lemma work_stable_settled [simp]: "work_stable settled"
  by (simp add: work_stable_def mild_settled)

lemma work_stable_holder [simp]: "work_stable (holder i S)"
  by (auto simp: work_stable_def mild_def course_def intro!: holder_quiet)

lemma engine_stable_landed [simp]: "engine_stable (landed i)"
proof (rule engine_stable_rows [OF stable_landed])
  fix d d' :: db assume "jobs d' = jobs d" "device d' = device d"
  then show "landed i d' = landed i d" unfolding landed_def using settled_rows [of d' d] by simp
qed

lemma work_stable_landed [simp]: "work_stable (landed i)"
  by (simp add: work_stable_def landed_def mild_settled)

lemma work_stable_may_end [simp]: "work_stable (may_end i s)"
  unfolding work_stable_def
proof (intro conjI allI impI)
  fix P f now d assume m: "mild P f" and e: "may_end i s d"
  have "holder i {Cleaning} (update_jobs now P f d)"
    using m e by (auto simp: mild_def course_def may_end_def intro!: holder_quiet)
  moreover have "find_job i (update_jobs now P f d) =
      map_option (\<lambda>j. if P j then (f j)\<lparr>updated_at := now\<rparr> else j) (find_job i d)"
    using m by (intro find_update_jobs) (simp add: mild_def quiet_def)
  ultimately show "may_end i s (update_jobs now P f d)"
    using m e by (auto simp: may_end_def mild_def course_def split: if_splits)
qed simp

text \<open>The same along a run of the abstract lease.\<close>

lemma engine_stable_along:
  assumes "engine_stable p" "\<And>d. p d \<Longrightarrow> inv_store d"
  shows "engine_stable (along V p)"
proof -
  have "journal_stable (along V p)"
    unfolding journal_stable_def
  proof (intro allI impI)
    fix now op i d r d' assume op: "store_StartOperation now op i d = Inr (r, d')" and a: "along V p d"
    have "p d'" using assms(1) op alongD [OF a] by (auto simp: engine_stable_def journal_stable_def)
    then show "along V p d'" by (rule along_same [OF a view_start_operation [OF op]])
  qed
  then show ?thesis using assms db_stable_along [of p V] by (simp add: engine_stable_def)
qed

lemma work_stable_along:
  assumes "work_stable p" "\<And>d. p d \<Longrightarrow> inv_store d"
  shows "work_stable (along V p)"
proof -
  have "along V p (update_jobs now P f d)" if m: "mild P f" and a: "along V p d" for P f now d
  proof -
    have q: "quiet P f" using m by (simp add: mild_def)
    have "p (update_jobs now P f d)" using assms(1) m alongD [OF a] by (simp add: work_stable_def)
    then show ?thesis by (rule along_same [OF a view_quiet [OF q]])
  qed
  then show ?thesis using assms engine_stable_along [of p V] by (simp add: work_stable_def)
qed

lemma may_end_inv: "may_end i s d \<Longrightarrow> inv_store d"
  by (auto simp: may_end_def dest: holder_inv)

lemma landed_inv: "landed i d \<Longrightarrow> inv_store d"
  by (auto simp: landed_def settled_def)

lemma free_inv: "free d \<Longrightarrow> inv_store d"
  by (auto simp: free_def settled_def)

lemma along_work_stable [simp]:
  "work_stable (along V inv_store)" "work_stable (along V (holder i S))" "work_stable (along V (may_end i s))"
  "work_stable (along V (landed i))"
  by (auto intro!: work_stable_along dest: holder_inv may_end_inv landed_inv)

lemmas along_stable [simp] = along_work_stable [THEN work_db]

lemma along_free [simp]: "db_stable (along V free)" "work_stable (along V free)"
  using along_stable(4) [of V "''''"] along_work_stable(4) [of V "''''"] by simp_all

lemma along_inv: "along V p d \<Longrightarrow> (p d \<Longrightarrow> inv_store d) \<Longrightarrow> along V inv_store d"
  by (rule along_weaken)

lemma along_holder_inv: "along V (holder i S) d \<Longrightarrow> along V inv_store d"
  by (erule along_inv) (rule holder_inv)

lemma along_may_end_inv: "along V (may_end i s) d \<Longrightarrow> along V inv_store d"
  by (erule along_inv) (rule may_end_inv)

lemma along_landed_inv: "along V (landed i) d \<Longrightarrow> along V inv_store d"
  by (erule along_inv) (rule landed_inv)

lemma along_free_inv: "along V free d \<Longrightarrow> along V inv_store d"
  by (erule along_inv) (rule free_inv)

section \<open>Bookkeeping calls\<close>

fun plain_assign :: "assign \<Rightarrow> bool" where
  "plain_assign (SetPendingState s) = False"
| "plain_assign _ = True"

lemma plain_course: "list_all plain_assign cs \<Longrightarrow> course (assign_all cs j) = course j"
proof (induction cs arbitrary: j)
  case (Cons a cs)
  then have "course (set_field a j) = course j" by (cases a) (auto simp: course_def)
  then show ?case using Cons by (simp add: assign_all_def)
qed (simp add: assign_all_def)

lemma plain_ok: "list_all plain_assign cs \<Longrightarrow> list_all assign_ok cs"
proof (induction cs)
  case (Cons a cs)
  then show ?case by (cases a) auto
qed simp

lemma mild_assign: "list_all plain_assign cs \<Longrightarrow> mild P (assign_all cs)"
  by (simp add: mild_def quiet_assign plain_ok plain_course)

lemma keeps_Metadata:
  assumes "work_stable p" "list_all plain_assign cs"
  shows "keeps (on_store p) (Jobs_Metadata i cs)"
proof (rule keeps_tx [OF work_db [OF assms(1)]])
  fix d now r a d' assume "p d" "store_Metadata now i cs d = Inr (a, d')"
  then show "p d'"
    using assms(1) mild_assign [OF assms(2)] by (auto simp: store_Metadata_def work_stable_def)
qed

lemma keeps_Retry:
  assumes "work_stable p"
  shows "keeps (on_store p) (Jobs_Retry i)"
proof (rule keeps_tx [OF work_db [OF assms]])
  fix d now r a d' assume d: "p d" "store_Retry now i d = Inr (a, d')"
  have "mild P (\<lambda>j. j\<lparr>attempts := attempts j + 1, job_phase := ''retry-wait''\<rparr>)" for P
    by (simp add: mild_def quiet_retry course_def)
  then show "p d'" using assms d by (auto simp: store_Retry_def work_stable_def)
qed

lemma keeps_reads [keeps_rules]:
  "db_stable p \<Longrightarrow> keeps (on_store p) (Jobs_Get i)"
  "db_stable p \<Longrightarrow> keeps (on_store p) Jobs_All"
  by (auto intro!: keeps_tx simp: store_Get_def store_All_def split: option.splits)

lemma keeps_expire_jobs: "db_stable p \<Longrightarrow> keeps (on_store p) (expire_jobs W js)"
proof (induction js)
  case (Cons j js)
  have "keeps (on_store p) (Jobs_Metadata i (expire_fields b))" for i b
  proof (rule keeps_tx [OF Cons.prems])
    fix d now r a d' assume "p d" and tx: "store_Metadata now i (expire_fields b) d = Inr (a, d')"
    then show "p d'" using Cons.prems api_tx.expire [OF tx] unfolding db_stable_def by blast
  qed
  then show ?case
    using Cons by (auto intro!: keeps_rules)
qed (simp add: keeps_ret)

lemma keeps_Expire [keeps_rules]: "db_stable p \<Longrightarrow> keeps (on_store p) (Expire W)"
  unfolding Expire_def by (intro keeps_rules keeps_expire_jobs)

lemma keeps_emit [keeps_rules]: "db_stable p \<Longrightarrow> keeps (on_store p) (emit g)"
proof -
  assume p: "db_stable p"
  have "keeps (on_store p) (try_send g)"
    by (auto simp: try_send_def keeps_def holds_def split: option.splits)
  then show ?thesis unfolding emit_def using p by (intro keeps_rules) auto
qed

lemma keeps_backoff [keeps_rules]: "db_stable p \<Longrightarrow> keeps (on_store p) (backoff c t e)"
  unfolding backoff_def by (intro keeps_rules)

lemma keeps_monitor [keeps_rules]:
  "keeps (on_store p) (start_monitor i)"
  "db_stable p \<Longrightarrow> keeps (on_store p) stop_monitor"
proof -
  show "keeps (on_store p) (start_monitor i)"
    by (auto simp: start_monitor_def keeps_def holds_def modify_def)
  have "keeps (on_store p) (State (\<lambda>w. (monitor_err w, if crashed w then w else w\<lparr>monitor := None\<rparr>)))"
    by (auto simp: keeps_def holds_def)
  then show "db_stable p \<Longrightarrow> keeps (on_store p) stop_monitor"
    unfolding stop_monitor_def by (intro keeps_rules)
qed

section \<open>The engine's calls\<close>

context device_engine
begin

lemma keeps_cleanupDevice:
  assumes "work_stable p" "wk_engine W = E"
  shows "keeps (on_store p) (cleanupDevice W i)"
proof (cases "Cleanup E")
  case None
  then show ?thesis by (simp add: cleanupDevice_def assms(2) keeps_ret)
next
  case (Some cl)
  show ?thesis
    unfolding cleanupDevice_def assms(2) Some option.case Let_def
    by (intro keeps_rules cleanup_keeps [OF _ Some] keeps_Metadata work_engine work_db assms(1)) simp
qed

lemma keeps_attempts_loop:
  assumes "work_stable p" "wk_engine W = E" "\<And>g. keeps (on_store p) (rq_progress rq g)"
  shows "keeps (on_store p) (attempts_loop W c rq k n prev)"
proof (induction k arbitrary: n prev)
  case (Suc k)
  show ?case
    unfolding attempts_loop.simps assms(2) Let_def
    by (intro keeps_rules decrypt_keeps keeps_cleanupDevice keeps_Retry work_engine work_db
        assms Suc.IH)
qed (simp add: keeps_ret)

end

section \<open>Finishing\<close>

lemma Release_landed:
  assumes "landed i d" "store_Release i d = Inr (r, d')"
  shows "free d'"
proof -
  have "inv_store d'" using release_inv [OF _ assms(2)] assms(1) by (auto simp: landed_def settled_def)
  then show ?thesis using assms by (auto simp: landed_def free_def settled_def store_Release_def)
qed

lemma holder_owner_update:
  "holder i S d \<Longrightarrow> dev_owner (device d) = i"
  by (simp add: holder_def)

text \<open>The last transaction of a job that ends normally.\<close>

lemma conclude_change:
  assumes "may_end i s d" "store_Get i d = Inr (j, d)"
  shows "may_end i (pending_state j) d"
proof -
  have j: "find_job i d = Some j" using assms(2) by (auto simp: store_Get_def split: option.splits)
  have h: "holder i {Cleaning} d" using assms(1) by (simp add: may_end_def)
  then have st: "job_state j = Cleaning" using j by (auto elim: holder_job)
  have "j \<in> set (jobs d)" using find_job_Some [OF j] by simp
  moreover have "inv_store d" using h by (rule holder_inv)
  ultimately have "row_ok j" by (auto simp: inv_store_def well_formed_def)
  then show ?thesis
    using assms(1) j st by (auto simp: may_end_def row_ok_def honours_cancel_def)
qed

lemma change_landed:
  assumes "may_end i s d" "store_Change now i s [SetPhase ph] d = Inr (r, d')"
  shows "landed i d'"
proof -
  have h: "holder i {Cleaning} d" and s: "Terminal s" using assms(1) by (auto simp: may_end_def)
  have l: "inv_store d'" "\<And>k. k \<in> set (jobs d') \<Longrightarrow> \<not> in_flight k"
    by (rule land_inv [OF h s _ assms(2)]; use assms(1) in \<open>auto simp: may_end_def\<close>)+
  have "distinct_ids d" using holder_inv [OF h] by (simp add: inv_store_def)
  moreover obtain j where "find_job i d = Some j" using h by (auto elim: holder_job)
  ultimately have "device d' = device d" using change_eq(2) [OF _ _ assms(2)] by simp
  then show ?thesis using l h by (auto simp: landed_def settled_def holder_def)
qed

lemma begin_cleanup_may_end:
  assumes "holder i S d" "Terminal desired" "store_BeginCleanup now i desired code message d = Inr (s, d')"
  shows "may_end i s d'"
proof -
  note b = begin_cleanup_inv [OF assms(1,3)]
  from assms(3) show ?thesis
  proof (rule begin_cleanup_cases)
    fix j assume j: "find_job i d = Some j" "s = (if cancel_requested j then Cancelled else desired)"
      "d' = update_jobs now (by_id i)
       (\<lambda>k. k\<lparr>job_state := Cleaning, job_phase := ''cleaning'', pending_state := s,
          error_code := (if cancel_requested j then ''cancelled'' else code),
          error_message := (if cancel_requested j then ''The job was cancelled.'' else message),
          failure_reason := (if cancel_requested j then ''cancelled'' else code)\<rparr>) d"
    then show ?thesis
      using b(1) assms(2) by (auto simp: may_end_def find_after_update Terminal_def)
  qed
qed

lemma quarantine_landed:
  assumes "may_end i s d" "store_Quarantine now i reason s d = Inr (r, d')" "reason \<noteq> ''''"
  shows "landed i d'"
proof -
  have q: "inv_store d'" "\<And>k. k \<in> set (jobs d') \<Longrightarrow> \<not> in_flight k" "dev_owner (device d') = ''''"
    by (rule quarantine_inv [OF _ assms(2,3)]; use assms(1) in \<open>auto simp: may_end_def\<close>)+
  then show ?thesis by (auto simp: landed_def settled_def)
qed

text \<open>The transactions of the worker, along the abstract lease.\<close>

lemma along_Release:
  "along V (landed i) d \<Longrightarrow> store_Release i d = Inr (r, d') \<Longrightarrow> along V free d'"
  by (rule along_same [OF _ view_release]) (auto intro: Release_landed dest: alongD)

lemma along_begin:
  assumes "along V (holder i S) d" "Terminal desired" "store_BeginCleanup now i desired code message d = Inr (s, d')"
  shows "along V (may_end i s) d'"
  using along_same [OF assms(1) view_begin [OF alongD [OF assms(1)] assms(3)]]
    begin_cleanup_may_end [OF alongD [OF assms(1)] assms(2,3)] by blast

lemma along_land:
  assumes "along V (may_end i s) d" "store_Change now i s [SetPhase ph] d = Inr (r, d')"
  shows "along V (landed i) d'"
proof (rule along_step [OF assms(1)])
  have "holder i {Cleaning} d" "Terminal s" using alongD [OF assms(1)] by (auto simp: may_end_def)
  then show "view_step d d'" by (rule step_land [OF _ _ assms(2)])
  show "landed i d'" by (rule change_landed [OF alongD [OF assms(1)] assms(2)])
qed

lemma along_quarantine:
  assumes "along V (may_end i s) d" "store_Quarantine now i reason s d = Inr (r, d')" "reason \<noteq> ''''"
  shows "along V (landed i) d'"
proof (rule along_step [OF assms(1)])
  have "holder i {Cleaning} d" using alongD [OF assms(1)] by (auto simp: may_end_def)
  then show "view_step d d'" by (rule step_quarantine [OF _ assms(2,3)])
  show "landed i d'" by (rule quarantine_landed [OF alongD [OF assms(1)] assms(2,3)])
qed

lemma along_conclude:
  "along V (may_end i s) d \<Longrightarrow> store_Get i d = Inr (j, d) \<Longrightarrow> along V (may_end i (pending_state j)) d"
  by (erule along_weaken) (auto intro: conclude_change)

text \<open>The result of the part of a run that must leave nothing in flight when it succeeds.\<close>

definition lands :: "(string \<Rightarrow> grant) set \<Rightarrow> string \<Rightarrow> error \<Rightarrow> world \<Rightarrow> bool" where
  "lands V i r w \<longleftrightarrow> along V inv_store (store w) \<and> (r = None \<longrightarrow> along V (landed i) (store w))"

lemma holds_keep:
  "keeps I m \<Longrightarrow> (\<And>a. holds I (k a) Q) \<Longrightarrow> holds I (State_Monad.bind m k) Q"
  by (rule holds_bind [OF keeps_holds])

lemma holds_fail: "(\<And>w. P w \<Longrightarrow> along V inv_store (store w)) \<Longrightarrow> holds P (ret (Some e)) (lands V i)"
  by (rule holds_ret) (simp add: lands_def)

lemma holds_last_tx:
  assumes "db_stable p" "\<And>d. p d \<Longrightarrow> along V inv_store d"
    and "\<And>d now r a d'. p d \<Longrightarrow> t now r d = Inr (a, d') \<Longrightarrow> along V (landed i) d'"
  shows "holds (on_store p) (State_Monad.bind (db_tx t) (\<lambda>r. ret (error_of r))) (lands V i)"
proof (rule holds_bind)
  show "holds (on_store p) (db_tx t) (\<lambda>x w. case x of Inl _ \<Rightarrow> p (store w) | Inr _ \<Rightarrow> along V (landed i) (store w))"
    by (rule holds_tx [where q = "\<lambda>x. case x of Inl _ \<Rightarrow> p | Inr _ \<Rightarrow> along V (landed i)", THEN holds_post])
      (use assms in \<open>auto split: sum.splits\<close>)
  show "holds (\<lambda>w. case a of Inl _ \<Rightarrow> p (store w) | Inr _ \<Rightarrow> along V (landed i) (store w)) (ret (error_of a)) (lands V i)" for a
    by (rule holds_ret) (cases a; auto simp: lands_def assms(2) along_landed_inv)
qed

lemma conclude_lands: "holds (on_store (along V (may_end i s))) (conclude W i) (lands V i)"
proof -
  have get: "holds (on_store (along V (may_end i s))) (Jobs_Get i)
      (\<lambda>x w. case x of Inl _ \<Rightarrow> along V inv_store (store w) | Inr j \<Rightarrow> along V (may_end i (pending_state j)) (store w))"
    by (rule holds_tx [where q = "\<lambda>x. case x of Inl _ \<Rightarrow> along V (may_end i s) | Inr j \<Rightarrow> along V (may_end i (pending_state j))",
          THEN holds_post])
      (auto simp: store_Get_def split: option.splits sum.splits
        intro: along_may_end_inv along_conclude [unfolded store_Get_def])
  have rest: "holds (on_store (along V (may_end i s))) (Jobs_Get i \<bind> (\<lambda>cur. case cur of Inl x \<Rightarrow> ret (Some x)
      | Inr current \<Rightarrow> Jobs_Change i (pending_state current) [SetPhase (state_string (pending_state current))]
          \<bind> (\<lambda>r. ret (error_of r)))) (lands V i)"
  proof (rule holds_bind [OF get])
    fix x :: "go_error + job"
    show "holds (\<lambda>w. case x of Inl _ \<Rightarrow> along V inv_store (store w) | Inr j \<Rightarrow> along V (may_end i (pending_state j)) (store w))
        (case x of Inl x \<Rightarrow> ret (Some x)
      | Inr current \<Rightarrow> Jobs_Change i (pending_state current) [SetPhase (state_string (pending_state current))]
          \<bind> (\<lambda>r. ret (error_of r))) (lands V i)"
    proof (cases x)
      case (Inl e)
      then show ?thesis by (auto intro: holds_fail)
    next
      case (Inr j)
      show ?thesis
        unfolding Inr sum.case
        by (rule holds_last_tx) (auto intro: along_may_end_inv along_land)
    qed
  qed
  show ?thesis
    unfolding conclude_def
    by (intro holds_keep keeps_Expire along_stable holds_option holds_fail rest)
      (auto intro: along_may_end_inv)
qed

lemma begin_spec:
  assumes "Terminal desired"
  shows "holds (on_store (along V (holder i S))) (Jobs_BeginCleanup i desired code msg)
    (\<lambda>x w. case x of Inl _ \<Rightarrow> along V inv_store (store w) | Inr s \<Rightarrow> along V (may_end i s) (store w))"
  by (rule holds_tx [where q = "\<lambda>x. case x of Inl _ \<Rightarrow> along V (holder i S) | Inr s \<Rightarrow> along V (may_end i s)", THEN holds_post])
    (auto split: sum.splits intro: along_holder_inv along_begin assms)

context device_engine
begin

lemma finish_lands:
  assumes "wk_engine W = E" "Terminal desired"
  shows "holds (on_store (along V (holder i S))) (finish W i desired code review) (lands V i)"
  unfolding finish_def
proof (rule holds_bind [OF begin_spec [OF assms(2)]])
  fix x :: "go_error + jstate"
  show "holds (\<lambda>w. case x of Inl _ \<Rightarrow> along V inv_store (store w) | Inr s \<Rightarrow> along V (may_end i s) (store w))
    (case x of Inl e \<Rightarrow> ret (Some e) | Inr desired \<Rightarrow> do {
         e1 \<leftarrow> Remove (wk_root W) ''work'' i;
         e2 \<leftarrow> Remove (wk_root W) ''inputs'' i;
         e3 \<leftarrow> CleanupTemp (wk_root W);
         cleanup_err \<leftarrow>
           (if desired \<noteq> Completed then do {
              e4 \<leftarrow> Remove (wk_root W) ''artifacts'' i;
              ret (errors_join (errors_join e1 (errors_join e2 e3)) e4) }
            else ret (errors_join e1 (errors_join e2 e3)));
         review \<leftarrow> (if review then do { ok \<leftarrow> cleanupDevice W i; ret (\<not> ok) } else ret False);
         if cleanup_err \<noteq> None then do {
           q \<leftarrow> Jobs_Quarantine i server_reason desired; ret (error_of q) }
         else if review then do {
           q \<leftarrow> Jobs_Quarantine i device_reason desired; ret (error_of q) }
         else conclude W i }) (lands V i)"
  proof (cases x)
    case (Inl e)
    then show ?thesis by (auto intro: holds_fail)
  next
    case (Inr s)
    have quarantine: "holds (on_store (along V (may_end i s)))
        (Jobs_Quarantine i why s \<bind> (\<lambda>q. ret (error_of q))) (lands V i)" if "why \<noteq> ''''" for why
      by (rule holds_last_tx) (use that in \<open>auto intro: along_may_end_inv along_quarantine\<close>)
    have why: "server_reason \<noteq> ''''" "device_reason \<noteq> ''''"
      by (simp_all add: server_reason_def device_reason_def)
    show ?thesis
      unfolding Inr sum.case
      by (intro holds_keep keeps_Remove keeps_CleanupTemp keeps_if keeps_bind keeps_ret
          keeps_cleanupDevice along_stable along_work_stable assms(1) holds_if
          quarantine why conclude_lands)
  qed
qed

end

section \<open>Running a job\<close>

lemma verify_change:
  assumes "holder i {Running} d" "store_Change now i Verifying [] d = Inr (r, d')"
  shows "holder i {Verifying} d'"
proof -
  obtain j where j: "find_job i d = Some j" "job_state j \<in> {Running}" "in_flight j"
    using assms(1) by (rule holder_job)
  let ?f = "\<lambda>k. (assign_all [] k)\<lparr>job_state := Verifying\<rparr>"
  have inv: "inv_store d" and d: "distinct_ids d"
    using holder_inv [OF assms(1)] by (auto simp: inv_store_def)
  have d': "d' = update_jobs now (by_id i) ?f d" by (rule change_eq(2) [OF d j(1) assms(2)])
  have id: "job_id j = i" and mem: "j \<in> set (jobs d)" using find_job_Some [OF j(1)] by auto
  with inv have ok: "row_ok j" by (auto simp: inv_store_def well_formed_def)
  have f: "job_id (?f j) = i" "row_ok (?f j)" "in_flight (?f j)" "\<not> needs_review (?f j)"
    using id ok j(2,3) by (auto simp: flag_defs)
  note others = others_not_in_flight [OF inv j(1,3)]
  have "inv_store d'"
    unfolding d' by (rule replace_inv_rows [OF inv j(1)]) (use f others in auto)
  moreover have "lease d'"
    using assms(1) f others(1) unfolding lease_def d' set_update_by_id [OF d j(1)]
    by (auto simp: holder_def)
  moreover have "find_job i d' = Some ((?f j)\<lparr>updated_at := now\<rparr>)"
    unfolding d' using id by (simp add: find_after_update j)
  ultimately show ?thesis using f(3) assms(1) by (simp add: holder_def d')
qed

lemma along_verify:
  "along V (holder i {Running}) d \<Longrightarrow> store_Change now i Verifying [] d = Inr (r, d') \<Longrightarrow> along V (holder i {Verifying}) d'"
  by (rule along_same [OF _ view_verify]) (auto intro: verify_change dest: alongD)

lemma along_holder_mono: "along V (holder i S) d \<Longrightarrow> S \<subseteq> T \<Longrightarrow> along V (holder i T) d"
  by (erule along_weaken) (auto intro: holder_mono)

lemma publish_fields_plain:
  "list_all plain_assign ([SetBytes b, SetSha256 h, SetBundleID i, SetVersion v, SetExpiresAt t] @ result_fields r)"
  "list_all plain_assign (result_fields r)"
  by (simp_all add: result_fields_def)

definition published :: "(string \<Rightarrow> grant) set \<Rightarrow> string \<Rightarrow> go_error + (jstate \<times> string) \<Rightarrow> world \<Rightarrow> bool" where
  "published V i x w \<longleftrightarrow> (case x of Inl _ \<Rightarrow> along V inv_store (store w)
     | Inr (s, code) \<Rightarrow> Terminal s \<and> along V (holder i {Running, Verifying}) (store w))"

lemma decide_terminal: "decide result err = (s, code, review) \<Longrightarrow> Terminal s"
  by (auto simp: decide_def Terminal_def split: option.splits prod.splits)

context device_engine
begin

lemma publish_output_spec:
  assumes "wk_engine W = E"
  shows "holds (on_store (along V (holder i {Running}))) (publish_output W i ws result) (published V i)"
  unfolding publish_output_def
proof (rule holds_check)
  show "holds (on_store (along V (holder i {Running}))) (Jobs_Change i Verifying [])
      (\<lambda>x w. case x of Inl _ \<Rightarrow> along V inv_store (store w) | Inr _ \<Rightarrow> along V (holder i {Verifying}) (store w))"
    by (rule holds_tx [where q = "\<lambda>x. case x of Inl _ \<Rightarrow> along V (holder i {Running}) | Inr _ \<Rightarrow> along V (holder i {Verifying})",
          THEN holds_post])
      (auto split: sum.splits intro: along_holder_inv along_verify)
next
  fix u :: unit
  let ?I = "on_store (along V (holder i {Verifying}))"
  have failed: "holds ?I (ret (Inr (Failed, code))) (published V i)" for code
    by (rule holds_ret) (auto simp: published_def Terminal_def intro: along_holder_mono)
  have done_: "holds ?I (ret (Inr (Completed, ''''))) (published V i)"
    by (rule holds_ret) (auto simp: published_def Terminal_def intro: along_holder_mono)
  have meta: "holds ?I (check (Jobs_Metadata i ([SetBytes b, SetSha256 h, SetBundleID bi, SetVersion v,
      SetExpiresAt t] @ result_fields result)) (\<lambda>_. ret (Inr (Completed, '''')))) (published V i)" for b h bi v t
    by (rule holds_check [OF keeps_holds [OF keeps_Metadata [OF along_work_stable(2) publish_fields_plain(1)]]])
      (auto simp: published_def intro: along_holder_inv done_)
  show "holds (\<lambda>w. case Inr u of Inl _ \<Rightarrow> along V inv_store (store w) | Inr _ \<Rightarrow> along V (holder i {Verifying}) (store w))
     (let output = ws @ [''output.ipa'']
      in ValidateIPA (wk_archives W) output (32 * 2 ^ 30) \<bind>
         (\<lambda>v. (case v of None \<Rightarrow> Verify (wk_engine W) output | Some x \<Rightarrow> ret (Some x)) \<bind>
           (\<lambda>e. case e of Some _ \<Rightarrow> ret (Inr (Failed, ''verification_failed''))
              | None \<Rightarrow> Publish (wk_sha256 W) (wk_root W) i output \<bind>
                 (\<lambda>p. case p of Inl _ \<Rightarrow> ret (Inr (Failed, ''storage_failed''))
                    | Inr (bytes, digest) \<Rightarrow> time_now \<bind>
                        (\<lambda>now. check (Jobs_Metadata i
                   ([SetBytes bytes, SetSha256 digest,
                     SetBundleID (boundedMetadata (er_bundle_id result) maxBundleIDBytes),
                     SetVersion (boundedMetadata (er_version result) maxVersionBytes),
                     SetExpiresAt (now + wk_retention W)] @ result_fields result))
                 (\<lambda>_. ret (Inr (Completed, '''')))))))) (published V i)"
    unfolding Let_def sum.case assms
    by (intro holds_keep keeps_option keeps_ret keeps_ValidateIPA keeps_Publish keeps_time_now
        along_stable verify_keeps along_work_stable [THEN work_engine] holds_option holds_sum holds_prod failed meta)
qed (auto simp: published_def)

lemma settle_lands:
  assumes "wk_engine W = E"
  shows "holds (on_store (along V (holder i {Running}))) (settle W i c ws result err) (lands V i)"
proof -
  let ?I = "on_store (along V (holder i {Running}))"
  obtain s code review where d: "decide result err = (s, code, review)" by (cases "decide result err")
  have ends: "holds (on_store (along V (holder i {Running, Verifying}))) (finish W i t cod review) (lands V i)"
    if "Terminal t" for t cod
    by (rule finish_lands [OF assms that])
  have last: "holds (on_store (along V (holder i {Running, Verifying}))) (ctx_Err c \<bind> (\<lambda>y.
      if y \<noteq> None then finish W i Failed ''timeout'' review else finish W i t cod review)) (lands V i)"
    if "Terminal t" for t cod
    by (intro holds_keep keeps_ctx_Err along_stable(2) holds_if ends that) (simp add: Terminal_def)
  have rest: "holds ?I (Jobs_Metadata i (result_fields result) \<bind> (\<lambda>m. case m of Inl e \<Rightarrow> ret (Some e)
      | Inr _ \<Rightarrow> (if t = Completed then publish_output W i ws result else ret (Inr (t, cod))) \<bind>
          (\<lambda>p. case p of Inl e \<Rightarrow> ret (Some e)
             | Inr (desired, code) \<Rightarrow> ctx_Err c \<bind> (\<lambda>y. if y \<noteq> None then finish W i Failed ''timeout'' review
                 else finish W i desired code review)))) (lands V i)" if t: "Terminal t" for t cod
  proof (rule holds_keep [OF keeps_Metadata [OF along_work_stable(2) publish_fields_plain(2)]], rule holds_sum)
    show "holds ?I (ret (Some e)) (lands V i)" for e by (rule holds_fail) (rule along_holder_inv)
    have "holds ?I (if t = Completed then publish_output W i ws result else ret (Inr (t, cod))) (published V i)"
      by (intro holds_if publish_output_spec assms holds_ret)
        (use t in \<open>auto simp: published_def intro: along_holder_mono\<close>)
    then show "holds ?I ((if t = Completed then publish_output W i ws result else ret (Inr (t, cod))) \<bind>
          (\<lambda>p. case p of Inl e \<Rightarrow> ret (Some e)
             | Inr (desired, code) \<Rightarrow> ctx_Err c \<bind> (\<lambda>y. if y \<noteq> None then finish W i Failed ''timeout'' review
                 else finish W i desired code review))) (lands V i)"
    proof (rule holds_bind)
      fix x :: "go_error + jstate \<times> string"
      show "holds (published V i x) (case x of Inl e \<Rightarrow> ret (Some e)
             | Inr (desired, code) \<Rightarrow> ctx_Err c \<bind> (\<lambda>y. if y \<noteq> None then finish W i Failed ''timeout'' review
                 else finish W i desired code review)) (lands V i)"
      proof (cases x)
        case (Inl e)
        then show ?thesis by (auto simp: published_def intro: holds_fail)
      next
        case (Inr y)
        obtain t cod where y: "y = (t, cod)" by (cases y)
        show ?thesis
          unfolding Inr y sum.case prod.case published_def
        proof (cases "Terminal t")
          case True
          then show "holds (\<lambda>w. Terminal t \<and> along V (holder i {Running, Verifying}) (store w)) (ctx_Err c \<bind> (\<lambda>y.
              if y \<noteq> None then finish W i Failed ''timeout'' review else finish W i t cod review)) (lands V i)"
            using last [OF True, of cod] by simp
        qed (simp add: holds_def)
      qed
    qed
  qed
  have st: "Terminal s" by (rule decide_terminal [OF d])
  have get: "holds ?I (Jobs_Get i) (\<lambda>_. ?I)"
    by (rule keeps_holds) (rule keeps_reads [OF along_stable(2)])
  show ?thesis
    unfolding settle_def d Let_def prod.case
  proof (rule holds_bind [OF get], intro holds_sum)
    show "holds ?I (ret (Some e)) (lands V i)" for e by (rule holds_fail) (rule along_holder_inv)
    fix current
    show "holds ?I (ctx_Err c \<bind> (\<lambda>x. case (if cancel_requested current then (Cancelled, ''cancelled'')
            else if x \<noteq> None then (Failed, ''timeout'') else (s, code)) of (desired, code) \<Rightarrow>
        Jobs_Metadata i (result_fields result) \<bind> (\<lambda>m. case m of Inl e \<Rightarrow> ret (Some e)
      | Inr _ \<Rightarrow> (if desired = Completed then publish_output W i ws result else ret (Inr (desired, code))) \<bind>
          (\<lambda>p. case p of Inl e \<Rightarrow> ret (Some e)
             | Inr (desired, code) \<Rightarrow> ctx_Err c \<bind> (\<lambda>y. if y \<noteq> None then finish W i Failed ''timeout'' review
                 else finish W i desired code review))))) (lands V i)"
      by (intro holds_keep keeps_ctx_Err along_stable(2) holds_prod rest)
        (use st in \<open>auto simp: Terminal_def split: if_splits\<close>)
  qed
qed

lemma run_job_lands:
  assumes "wk_engine W = E"
  shows "holds (on_store (along V (holder (job_id j) {Running}))) (run_job W j) (lands V (job_id j))"
proof -
  have fin: "holds (on_store (along V (holder (job_id j) {Running}))) (finish W (job_id j) Cancelled '''' False) (lands V (job_id j))"
    by (rule finish_lands [OF assms]) (auto simp: Terminal_def)
  have fail: "holds (on_store (along V (holder (job_id j) {Running}))) (ret (Some e)) (lands V (job_id j))" for e
    by (rule holds_fail) (rule along_holder_inv)
  show ?thesis
    unfolding run_job_def Let_def
    by (intro holds_if fin fail holds_keep keeps_Workspace keeps_time_now keeps_monitor holds_sum
        holds_prod holds_option keeps_attempts_loop keeps_emit along_stable(2) along_work_stable(2)
        assms settle_lands | simp)+
qed

lemma Run_lands:
  assumes "wk_engine W = E"
  shows "holds (on_store (along V (holder (job_id j) {Running}))) (Run W j)
    (\<lambda>r w. along V inv_store (store w) \<and> (r = None \<longrightarrow> along V free (store w)))"
  unfolding Run_def
proof (rule holds_bind [OF run_job_lands [OF assms]])
  fix e :: error
  let ?i = "job_id j"
  have inv: "holds (on_store (along V inv_store)) (Jobs_Release ?i) (\<lambda>_. on_store (along V inv_store))"
    by (rule keeps_holds [OF keeps_tx [OF along_stable(1)]]) (auto intro: along_same [OF _ view_release] release_inv dest: alongD)
  show "holds (lands V ?i e) (Jobs_Release ?i \<bind> (\<lambda>r. ret (errors_join e (error_of r))))
     (\<lambda>r w. along V inv_store (store w) \<and> (r = None \<longrightarrow> along V free (store w)))"
  proof (cases e)
    case None
    have "holds (on_store (along V (landed ?i))) (Jobs_Release ?i)
        (\<lambda>x w. case x of Inl _ \<Rightarrow> along V inv_store (store w) | Inr _ \<Rightarrow> along V free (store w))"
      by (rule holds_tx [where q = "\<lambda>x. case x of Inl _ \<Rightarrow> along V (landed ?i) | Inr _ \<Rightarrow> along V free", THEN holds_post])
        (auto split: sum.splits intro: along_landed_inv along_Release)
    then have "holds (lands V ?i e) (Jobs_Release ?i)
        (\<lambda>x w. case x of Inl _ \<Rightarrow> along V inv_store (store w) | Inr _ \<Rightarrow> along V free (store w))"
      by (rule holds_pre) (simp add: lands_def None)
    then show ?thesis
      by (rule holds_bind) (rule holds_ret, auto simp: None intro: along_free_inv split: sum.splits)
  next
    case (Some x)
    have "holds (lands V ?i e) (Jobs_Release ?i) (\<lambda>_. on_store (along V inv_store))"
      using inv by (rule holds_pre) (simp add: lands_def)
    then show ?thesis
      by (rule holds_bind) (rule holds_ret, auto simp: Some)
  qed
qed

end

section \<open>Recovery and confirmation\<close>

lemma engine_stable_free [simp]: "engine_stable free"
  using engine_stable_landed [of "''''"] by simp

lemma work_stable_free [simp]: "work_stable free"
  using work_stable_landed [of "''''"] by simp

lemma recover_free:
  assumes "inv_store d" "store_Recover now d = Inr (r, d')"
  shows "free d'"
proof -
  have "distinct_ids d" "well_formed d" "dev_quarantined (device d) \<longrightarrow> (\<exists>j \<in> set (jobs d). needs_review j)"
    using assms(1) by (auto simp: inv_store_def quarantine_agrees_def)
  from recover_inv [OF this(1,2) assms(2) this(3)] show ?thesis
    by (auto simp: free_def settled_def)
qed

lemma resolve_free:
  assumes "free d" "store_resolve now i ph d = Inr (r, d')"
  shows "free d'"
proof -
  have "inv_store d" "dev_owner (device d) = ''''" using assms(1) by (auto simp: free_def settled_def)
  moreover have "dev_owner (device d') \<in> {dev_owner (device d), ''''}"
    using assms(2) by (auto elim!: resolve_cases)
  ultimately show ?thesis
    using resolve_inv [OF _ assms(2)] by (auto simp: free_def settled_def)
qed

lemma keeps_ResolveAutomatic: "keeps (on_store (along V free)) (Jobs_ResolveAutomatic i)"
  by (rule keeps_tx [OF along_free(1)])
    (auto simp: store_ResolveAutomatic_def intro: along_step [OF _ step_resolve] resolve_free dest: alongD)

lemma keeps_reconcile: "db_stable p \<Longrightarrow> keeps (on_store p) (for_each (reconcile_kind W all) kinds)"
  unfolding reconcile_kind_def reconcile_entry_def by (intro keeps_rules)

lemma keeps_Resolve: "keeps (on_store inv_store) (Resolve W i)"
proof -
  have "keeps (on_store inv_store) (Jobs_Resolve i)"
    by (rule keeps_tx [OF stable_inv]) (auto simp: store_Resolve_def intro: resolve_inv(1))
  then show ?thesis unfolding Resolve_def by (intro keeps_rules stable_inv)
qed

text \<open>
  Recovery succeeds into the state between jobs, with a restart of the abstract lease behind it; it fails
  into a state that keeps the invariant, before or after that restart.
\<close>

definition restored :: "(string \<Rightarrow> grant) set \<Rightarrow> error \<Rightarrow> world \<Rightarrow> bool" where
  "restored V r w \<longleftrightarrow> along (V \<union> restart V) inv_store (store w) \<and> (r = None \<longrightarrow> along (restart V) free (store w))"

lemma along_recover:
  "along V inv_store d \<Longrightarrow> store_Recover now d = Inr (r, d') \<Longrightarrow> along (restart V) free d'"
  by (rule along_restart [OF _ view_recover]) (auto intro: recover_free dest: alongD)

context device_engine
begin

lemma keeps_recover_device:
  "wk_engine W = E \<Longrightarrow> keeps (on_store (along V free)) (recover_device W j)"
  unfolding recover_device_def
  by (intro keeps_rules keeps_cleanupDevice keeps_ResolveAutomatic along_free)

lemma Recover_restores:
  assumes "wk_engine W = E"
  shows "holds (on_store (along V inv_store)) (Recover W) (restored V)"
proof -
  let ?after = "\<lambda>x w. case x of Inl _ \<Rightarrow> along (V \<union> restart V) inv_store (store w) | Inr _ \<Rightarrow> along (restart V) free (store w)"
  let ?rest = "check Jobs_All (\<lambda>all.
          check (for_each (reconcile_kind W all) [''work'', ''inputs'', ''artifacts'']) (\<lambda>_.
          check (State_Monad.bind (CleanupTemp (wk_root W)) (\<lambda>e. ret (as_result e))) (\<lambda>_.
          check (State_Monad.bind (Expire W) (\<lambda>e. ret (as_result e))) (\<lambda>_.
          for_each (recover_device W) all))))"
  have old: "along (V \<union> restart V) inv_store d" if "along V inv_store d" for d
    by (rule along_mono [OF that]) auto
  have new: "along (V \<union> restart V) inv_store d" if "along (restart V) free d" for d
    by (rule along_mono [OF that]) (auto intro: free_inv)
  have rec: "holds (on_store (along V inv_store)) Jobs_Recover ?after"
    by (rule holds_tx [where q = "\<lambda>x. case x of Inl _ \<Rightarrow> along V inv_store | Inr _ \<Rightarrow> along (restart V) free", THEN holds_post])
      (auto split: sum.splits intro: along_recover old)
  have rest: "keeps (on_store (along (restart V) free)) ?rest"
    by (intro keeps_check keeps_bind keeps_ret keeps_for_each keeps_reconcile keeps_CleanupTemp
        keeps_Expire keeps_recover_device keeps_reads along_free assms)
  have "holds (on_store (along V inv_store)) (check Jobs_Recover (\<lambda>_. ?rest)) ?after"
  proof (rule holds_check [OF rec])
    show "holds (\<lambda>w. case Inr u of Inl _ \<Rightarrow> along (V \<union> restart V) inv_store (store w)
        | Inr _ \<Rightarrow> along (restart V) free (store w)) ?rest ?after" for u :: unit
      unfolding sum.case
      by (rule holds_post [OF keeps_holds [OF rest]]) (auto split: sum.splits intro: new)
  qed simp
  then show ?thesis
    unfolding Recover_def
    by (rule holds_bind) (rule holds_ret, auto simp: restored_def new split: sum.splits)
qed

end

end
