(* ===== verification/Scheduler.thy ===== *)
theory Scheduler
  imports WorkerInvariants
begin

text \<open>
  The serial scheduler (\<open>internal/scheduler/scheduler.go\<close>) over its two interfaces \<open>Queue\<close> and
  \<open>Runner\<close>, and the service it is part of (\<open>cmd/ipa-now/main.go\<close>): recovery, then the loop, any
  number of process lifetimes one after the other. The locale \<open>serial_device\<close> states what the loop
  relies on; its interpretation on the job store and the worker follows in theory Adapter.
\<close>

record queue =
  Claim :: "(go_error + job option) io"

record runner =
  RunJob :: "job \<Rightarrow> error io"
  ExpireAll :: "error io"

definition tick_interval :: int where
  "tick_interval = 500000000"

text \<open>
  One iteration of the loop: \<open>Some r\<close> when \<open>Run\<close> returns \<open>r\<close>, \<open>None\<close> when it goes on. The next tick
  comes at an arbitrary moment within the interval of the ticker.
\<close>

definition sched_iter :: "queue \<Rightarrow> runner \<Rightarrow> error option io" where
  "sched_iter q r = do {
     env_step;
     stop \<leftarrow> gets shutdown;
     if stop then ret (Some None)
     else do {
       e \<leftarrow> ExpireAll r;
       case e of
         Some x \<Rightarrow> ret (Some (Some x))
       | None \<Rightarrow> do {
           c \<leftarrow> Claim q;
           case c of
             Inl x \<Rightarrow> ret (Some (Some x))
           | Inr (Some j) \<Rightarrow> do {
               f \<leftarrow> RunJob r j;
               ret (case f of Some x \<Rightarrow> Some (Some x) | None \<Rightarrow> None) }
           | Inr None \<Rightarrow> do {
               s \<leftarrow> env_step;
               now \<leftarrow> gets clock;
               k \<leftarrow> wait_for shutdown (now + 1 + int (random s) mod tick_interval);
               gets (\<lambda>w. if shutdown w \<and> even k then Some None else None) } } } }"

text \<open>The loop, for \<open>n\<close> iterations; \<open>None\<close>: still running.\<close>

fun scheduler :: "nat \<Rightarrow> queue \<Rightarrow> runner \<Rightarrow> error option io" where
  "scheduler 0 q r = ret None"
| "scheduler (Suc n) q r = do {
     x \<leftarrow> sched_iter q r;
     case x of Some y \<Rightarrow> ret (Some y) | None \<Rightarrow> scheduler n q r }"

text \<open>
  What the loop needs: \<open>idle\<close> holds between jobs and \<open>held j\<close> while \<open>j\<close> runs; a claim leaves \<open>idle\<close> or
  passes to \<open>held\<close>, a run that succeeds passes back, and a failure anywhere leaves \<open>safe\<close>.
\<close>

locale serial_device =
  fixes q :: queue and r :: runner
    and idle :: "db \<Rightarrow> bool" and held :: "job \<Rightarrow> db \<Rightarrow> bool" and safe :: "db \<Rightarrow> bool"
  assumes idle_stable: "db_stable idle"
    and idle_safe: "idle d \<Longrightarrow> safe d"
    and expire_idle: "keeps (on_store idle) (ExpireAll r)"
    and claim_held: "holds (on_store idle) (Claim q) (\<lambda>x w. case x of
          Inl _ \<Rightarrow> safe (store w) | Inr None \<Rightarrow> idle (store w) | Inr (Some j) \<Rightarrow> held j (store w))"
    and run_held: "holds (on_store (held j)) (RunJob r j)
          (\<lambda>e w. safe (store w) \<and> (e = None \<longrightarrow> idle (store w)))"
begin

definition loop_ok :: "error option \<Rightarrow> world \<Rightarrow> bool" where
  "loop_ok x w \<longleftrightarrow> safe (store w) \<and> ((x = None \<or> x = Some None) \<longrightarrow> idle (store w))"

lemma iter_ok: "holds (on_store idle) (sched_iter q r) loop_ok"
proof -
  have go_on: "holds (on_store idle) (ret None) loop_ok" "holds (on_store idle) (ret (Some y)) loop_ok" for y
    by (auto intro!: holds_ret simp: loop_ok_def idle_safe)
  have wait: "holds (on_store idle) (do {
               s \<leftarrow> env_step;
               now \<leftarrow> gets clock;
               k \<leftarrow> wait_for shutdown (now + 1 + int (random s) mod tick_interval);
               gets (\<lambda>w. if shutdown w \<and> even k then Some None else None) }) loop_ok"
    by (intro holds_keep keeps_env_step keeps_gets keeps_wait_for idle_stable)
      (simp add: holds_def gets_def loop_ok_def idle_safe)
  have run: "holds (on_store (held j)) (RunJob r j \<bind>
      (\<lambda>f. ret (case f of Some x \<Rightarrow> Some (Some x) | None \<Rightarrow> None))) loop_ok" for j
    by (rule holds_bind [OF run_held]) (rule holds_ret, auto simp: loop_ok_def split: option.split)
  have claim: "holds (on_store idle) (Claim q \<bind> (\<lambda>c. case c of Inl x \<Rightarrow> ret (Some (Some x))
           | Inr None \<Rightarrow> do {
               s \<leftarrow> env_step;
               now \<leftarrow> gets clock;
               k \<leftarrow> wait_for shutdown (now + 1 + int (random s) mod tick_interval);
               gets (\<lambda>w. if shutdown w \<and> even k then Some None else None) }
           | Inr (Some j) \<Rightarrow> RunJob r j \<bind>
               (\<lambda>f. ret (case f of Some x \<Rightarrow> Some (Some x) | None \<Rightarrow> None)))) loop_ok"
  proof (rule holds_bind [OF claim_held])
    fix c :: "go_error + job option"
    show "holds (\<lambda>w. case c of Inl _ \<Rightarrow> safe (store w) | Inr None \<Rightarrow> idle (store w)
          | Inr (Some j) \<Rightarrow> held j (store w)) (case c of Inl x \<Rightarrow> ret (Some (Some x))
           | Inr None \<Rightarrow> do {
               s \<leftarrow> env_step;
               now \<leftarrow> gets clock;
               k \<leftarrow> wait_for shutdown (now + 1 + int (random s) mod tick_interval);
               gets (\<lambda>w. if shutdown w \<and> even k then Some None else None) }
           | Inr (Some j) \<Rightarrow> RunJob r j \<bind>
               (\<lambda>f. ret (case f of Some x \<Rightarrow> Some (Some x) | None \<Rightarrow> None))) loop_ok"
    proof (cases c)
      case (Inl x)
      then show ?thesis by (simp add: holds_def loop_ok_def)
    next
      case (Inr claimed)
      then show ?thesis using wait run by (cases claimed) simp_all
    qed
  qed
  have stop: "holds (on_store idle) (ret (Some None)) loop_ok" by (rule go_on)
  show ?thesis
    unfolding sched_iter_def
    by (intro holds_keep keeps_env_step keeps_gets idle_stable holds_if stop expire_idle holds_option
        go_on claim)
qed

lemma scheduler_ok: "holds (on_store idle) (scheduler n q r) loop_ok"
proof (induction n)
  case 0
  then show ?case by (auto intro!: holds_ret simp: loop_ok_def idle_safe)
next
  case (Suc n)
  show ?case
    unfolding scheduler.simps
  proof (rule holds_bind [OF iter_ok], rule holds_option)
    fix x :: "error option"
    show "holds (loop_ok x) (scheduler n q r) loop_ok" if "x = None"
      using Suc by (rule holds_pre) (simp add: loop_ok_def that)
    show "holds (loop_ok x) (ret (Some y)) loop_ok" if "x = Some y" for y
      by (rule holds_ret) (simp add: that)
  qed
qed

end

section \<open>Process lifetimes\<close>

definition store_queue :: queue where
  "store_queue = \<lparr>Claim = Jobs_Claim\<rparr>"

definition worker_runner :: "worker \<Rightarrow> runner" where
  "worker_runner W = \<lparr>RunJob = Run W, ExpireAll = Expire W\<rparr>"

text \<open>
  The goroutine that owns the device, in one process: recovery, then \<open>n\<close> iterations of the loop.
\<close>

definition service :: "worker \<Rightarrow> nat \<Rightarrow> error option io" where
  "service W n = do {
     e \<leftarrow> Recover W;
     case e of Some x \<Rightarrow> ret (Some (Some x)) | None \<Rightarrow> scheduler n store_queue (worker_runner W) }"

text \<open>
  Databases that can exist: the fresh one, and whatever a process that started on one of them leaves
  after any number of steps, with any script (so also a crash at any point), any files and any clock.
\<close>

inductive reachable_db :: "worker \<Rightarrow> db \<Rightarrow> bool" for W where
  fresh: "reachable_db W empty_db"
| lifetime: "reachable_db W (store w) \<Longrightarrow> run_state (service W n) w = (r, w') \<Longrightarrow> reachable_db W (store w')"

text \<open>
  A lifetime: from a database with the invariant it moves along the abstract lease, restarts it, and
  moves on; unless it failed it ends between jobs, after the restart.
\<close>

definition served :: "(string \<Rightarrow> grant) set \<Rightarrow> error option \<Rightarrow> world \<Rightarrow> bool" where
  "served V r w \<longleftrightarrow> along (V \<union> restart V) inv_store (store w)
     \<and> (r = None \<or> r = Some None \<longrightarrow> along (restart V) free (store w))"

context device_engine
begin

lemma serial_worker:
  assumes "wk_engine W = E"
  shows "serial_device store_queue (worker_runner W) (along V free)
    (\<lambda>j. along V (holder (job_id j) {Running})) (along V inv_store)"
proof
  show "holds (on_store (along V free)) (Claim store_queue) (\<lambda>x w. case x of Inl _ \<Rightarrow> along V inv_store (store w)
      | Inr None \<Rightarrow> along V free (store w) | Inr (Some j) \<Rightarrow> along V (holder (job_id j) {Running}) (store w))"
  proof -
    have "holds (on_store (along V free)) Jobs_Claim (\<lambda>x w. (case x of Inl _ \<Rightarrow> along V free
      | Inr None \<Rightarrow> along V free | Inr (Some j) \<Rightarrow> along V (holder (job_id j) {Running})) (store w))"
    proof (rule holds_tx [OF along_free(1)])
      fix d now r a d' assume f: "along V free d" and c: "store_Claim now d = Inr (a, d')"
      then have i: "inv_store d" "lease d" using alongD [OF f] by (auto simp: free_def dest: settled_lease)
      show "(case Inr a of Inl _ \<Rightarrow> along V free | Inr None \<Rightarrow> along V free
          | Inr (Some j) \<Rightarrow> along V (holder (job_id j) {Running})) d'"
      proof (cases a)
        case None
        then show ?thesis using c f by (auto dest: claim_none)
      next
        case (Some j)
        then show ?thesis using along_step [OF f step_claim [OF i c], of "holder (job_id j) {Running}"] claim_inv(3) [OF i c Some] by simp
      qed
    qed simp_all
    then show ?thesis
      unfolding store_queue_def queue.simps
      by (rule holds_post) (auto split: sum.splits option.splits intro: along_free_inv)
  qed
  show "keeps (on_store (along V free)) (ExpireAll (worker_runner W))"
    by (simp add: worker_runner_def keeps_Expire)
  show "holds (on_store (along V (holder (job_id j) {Running}))) (RunJob (worker_runner W) j)
      (\<lambda>e w. along V inv_store (store w) \<and> (e = None \<longrightarrow> along V free (store w)))" for j
    using Run_lands [OF assms] by (simp add: worker_runner_def)
qed (auto intro: along_free_inv)

lemma service_serves:
  assumes "wk_engine W = E"
  shows "holds (on_store (along V inv_store)) (service W n) (served V)"
proof -
  note loop = serial_device.scheduler_ok [OF serial_worker [OF assms, of "restart V"], of n]
    serial_device.loop_ok_def [OF serial_worker [OF assms, of "restart V"]]
  have new: "along (V \<union> restart V) inv_store d" if "along (restart V) inv_store d" for d
    by (rule along_mono [OF that]) auto
  show ?thesis
    unfolding service_def
  proof (rule holds_bind [OF Recover_restores [OF assms]], rule holds_option)
    fix e :: error
    show "holds (restored V e) (scheduler n store_queue (worker_runner W)) (served V)"
      if "e = None"
    proof (rule holds_post [OF holds_pre [OF loop(1)]])
      show "restored V e w \<Longrightarrow> on_store (along (restart V) free) w" for w by (simp add: restored_def that)
    qed (simp add: loop(2) served_def new)
    show "holds (restored V e) (ret (Some (Some x))) (served V)" for x
      by (rule holds_ret) (simp add: restored_def served_def)
  qed
qed

lemma reachable_inv:
  assumes "wk_engine W = E" "reachable_db W d"
  shows "inv_store d"
  using assms(2)
proof (induction rule: reachable_db.induct)
  case fresh
  show ?case by (rule empty_db_inv)
next
  case (lifetime w n r w')
  have "served UNIV r w'"
    using holdsD [OF service_serves [where V = UNIV, OF assms(1)] _ lifetime.hyps(2)] lifetime.IH by simp
  then show ?case by (auto simp: served_def dest: alongD)
qed

end

end
