(* ===== verification/Adapter.thy ===== *)
theory Adapter
  imports DecryptLib Logging Scheduler
begin

text \<open>
  The adapter between the worker and the decryption library (\<open>internal/engine/engine.go\<close>): one
  decryption with its HTTP scope, Apple login, durable operation record, callbacks and classification
  of failures; device cleanup over all recorded operations; verification. The functions of the
  library are fields of the record \<open>adapter\<close> (the fields \<open>DecryptFunc\<close> and \<open>CleanupFunc\<close> of the Go
  struct and their defaults), and the job store is the one of the world.
\<close>

text \<open>The levels of \<open>log/slog\<close>, ordered by their numbers: a logger at a level is enabled for those above.\<close>

datatype log_level = LevelDebug | LevelInfo | LevelWarn | LevelError

fun level_number :: "log_level \<Rightarrow> int" where
  "level_number LevelDebug = - 4"
| "level_number LevelInfo = 0"
| "level_number LevelWarn = 4"
| "level_number LevelError = 8"

lemma level_number_inj: "level_number a = level_number b \<Longrightarrow> a = b"
  by (cases a; cases b) simp_all

instantiation log_level :: linorder
begin

definition less_eq_log_level :: "log_level \<Rightarrow> log_level \<Rightarrow> bool" where
  "less_eq_log_level a b \<longleftrightarrow> level_number a \<le> level_number b"

definition less_log_level :: "log_level \<Rightarrow> log_level \<Rightarrow> bool" where
  "less_log_level a b \<longleftrightarrow> level_number a < level_number b"

instance
  by standard (auto simp: less_eq_log_level_def less_log_level_def intro: level_number_inj)

end

record adapter =
  ad_operations :: bool
  ad_journal_dir :: string
  ad_transport :: bool
  ad_device :: device_config
  ad_secrets :: secret_store
  ad_enabled :: "log_level \<Rightarrow> bool"
  ad_phase_name :: "phase \<Rightarrow> string"
  ad_text :: "go_error \<Rightarrow> string"
  ad_unconfirmed :: string
  ad_decrypt :: "ipa_request \<Rightarrow> (ipa_result option \<times> error) lib_run"
  ad_cleanup :: "cleanup_request \<Rightarrow> (cleanup_report \<times> error) lib_run"
  ad_login :: "login_request \<Rightarrow> (go_error + account) lib_run"
  ad_verify :: "path \<Rightarrow> (go_error + verification) lib_run"

definition live :: "(world \<Rightarrow> world) \<Rightarrow> unit io" where
  "live f = modify (\<lambda>w. if crashed w then w else f w)"

section \<open>Helper diagnostics\<close>

definition helperLogQueueSize :: nat where
  "helperLogQueueSize = 128"

definition helperLogFields :: "string list" where
  "helperLogFields = [
     ''action'', ''actual'', ''addr'', ''address'', ''argc'', ''base'', ''budget_ms'', ''bundle'', ''bundle_id'', ''bundle_src'',
     ''bytes'', ''callers'', ''capacity'', ''cdhash'', ''cfrelease'', ''cfstring'', ''code0'', ''code1'', ''compressed'', ''core_foundation'',
     ''count'', ''cpusubtype'', ''cputype'', ''crc32'', ''created'', ''cryptoff'', ''cryptsize'', ''csflags'', ''debugged'', ''dep'',
     ''dependencies'', ''detail'', ''dir'', ''dirfd'', ''dlerror'', ''dst'', ''dyld'', ''dyld_base'', ''encrypted'', ''entries'', ''err'',
     ''error'', ''exception'', ''exec'', ''execs_only'', ''exhausted_at'', ''expected'', ''extras'', ''fat'', ''fault'', ''fault_skips'',
     ''fd'', ''file_size'', ''found'', ''foundation'', ''got'', ''handle'', ''has_error_object'', ''hits'', ''i'', ''image_base'', ''index'',
     ''ipa'', ''kind'', ''kr'', ''launch'', ''libdyld'', ''links'', ''loaded'', ''mach_msg'', ''magic'', ''main'', ''message_id'', ''method'',
     ''mode'', ''ms'', ''n'', ''name'', ''nsyms'', ''objc'', ''old_mode'', ''operation'', ''option'', ''output'', ''pac_strips'', ''pass'',
     ''path'', ''pause'', ''pc'', ''pid'', ''platform'', ''pool'', ''port'', ''prims'', ''pthread_create'', ''rc'', ''read'', ''reason'',
     ''regular'', ''requested'', ''requirements'', ''result'', ''ret'', ''rpaths'', ''scanned'', ''services'', ''signal'', ''size'',
     ''skip_appex'', ''source'', ''springboard_services'', ''src'', ''staging'', ''status'', ''stripped'', ''subcommand'', ''tag'', ''target'',
     ''verbose'', ''wait_result'', ''zlib'']"

fun helperLogLevel :: "string \<Rightarrow> log_level" where
  "helperLogLevel level =
     (if level = ''error'' then LevelError
      else if level = ''warn'' then LevelWarn
      else if level = ''debug'' then LevelDebug
      else LevelInfo)"

fun level_name :: "log_level \<Rightarrow> string" where
  "level_name LevelDebug = ''DEBUG''"
| "level_name LevelInfo = ''INFO''"
| "level_name LevelWarn = ''WARN''"
| "level_name LevelError = ''ERROR''"

text \<open>The queue; the nil channel before the first record counts as empty.\<close>

definition helper_queue :: "world \<Rightarrow> helper_record list" where
  "helper_queue w = (case helper_logs w of None \<Rightarrow> [] | Some q \<Rightarrow> q)"

text \<open>A non-blocking send: a record that finds the queue full is dropped.\<close>

definition helper_send :: "helper_record \<Rightarrow> world \<Rightarrow> world" where
  "helper_send r w =
     w\<lparr>helper_logs := Some (if length (helper_queue w) < helperLogQueueSize
                            then helper_queue w @ [r] else helper_queue w)\<rparr>"

definition enqueueHelperLog :: "adapter \<Rightarrow> log_level \<Rightarrow> string list \<Rightarrow> unit io" where
  "enqueueHelperLog A level args =
     (if \<not> ad_enabled A level then ret ()
      else do { env_step; live (helper_send (HelperLine (level_name level) args)) })"

definition flushHelperLogs :: "ctx \<Rightarrow> bool io" where
  "flushHelperLogs c = do {
     env_step;
     absent \<leftarrow> gets (\<lambda>w. helper_logs w = None);
     if absent then ret True
     else do {
       k \<leftarrow> wait_for (\<lambda>w. ctx_done c w \<or> length (helper_queue w) < helperLogQueueSize) (ctx_deadline c);
       sent \<leftarrow> gets (\<lambda>w. length (helper_queue w) < helperLogQueueSize \<and> (\<not> ctx_done c w \<or> even k));
       if \<not> sent then ret False
       else do {
         live (helper_send HelperFlush);
         k \<leftarrow> wait_for (\<lambda>w. ctx_done c w \<or> HelperFlush \<notin> set (helper_queue w)) (ctx_deadline c);
         gets (\<lambda>w. HelperFlush \<notin> set (helper_queue w) \<and> (\<not> ctx_done c w \<or> even k)) } } }"

section \<open>Callbacks\<close>

text \<open>
  \<open>authCode\<close>: the broker's \<open>Request\<close> with its prologue, its \<open>select\<close> and its deferred reset, each
  atomic under the broker's mutex and open to \<open>Submit\<close> in between.
\<close>

definition authCode :: "ctx \<Rightarrow> string \<Rightarrow> (go_error + string) io" where
  "authCode c i = do {
     env_step;
     b \<leftarrow> State (\<lambda>w. if crashed w then (Inl ErrCanceled, w)
            else case Request_begin i (broker w) of
              Inl e \<Rightarrow> (Inl e, w) | Inr b \<Rightarrow> (Inr (), w\<lparr>broker := b\<rparr>));
     case b of
       Inl e \<Rightarrow> ret (Inl e)
     | Inr _ \<Rightarrow> do {
         k \<leftarrow> wait_for (\<lambda>w. ctx_done c w \<or> Request_receive (broker w) \<noteq> None) (ctx_deadline c);
         r \<leftarrow> State (\<lambda>w.
           case Request_receive (broker w) of
             Some (code, b) \<Rightarrow>
               if \<not> crashed w \<and> (\<not> ctx_done c w \<or> even k) then (Inr code, w\<lparr>broker := b\<rparr>)
               else (Inl (case ctx_error c w of Some e \<Rightarrow> e | None \<Rightarrow> ErrCanceled), w)
           | None \<Rightarrow> (Inl (case ctx_error c w of Some e \<Rightarrow> e | None \<Rightarrow> ErrCanceled), w));
         env_step;
         live (\<lambda>w. w\<lparr>broker := Request_end (broker w)\<rparr>);
         ret r } }"

fun known_phase :: "phase \<Rightarrow> bool" where
  "known_phase (OtherPhase s) = False"
| "known_phase p = True"

text \<open>The arguments of the helper's log line.\<close>

definition helper_args :: "string \<Rightarrow> event \<Rightarrow> string list" where
  "helper_args i e =
     (let shown = Fields (ev_attributes e) helperLogFields
      in [''job'', i, ''action'', Detail (ev_action e)]
         @ (if ev_message e \<noteq> '''' then [''output'', Detail (ev_message e)] else [])
         @ (if shown \<noteq> '''' then [''attributes'', shown] else []))"

text \<open>\<open>OnEvent\<close>; the flag is \<open>touched\<close>.\<close>

definition handle_event :: "adapter \<Rightarrow> engine_request \<Rightarrow> event \<Rightarrow> bool \<Rightarrow> bool io" where
  "handle_event A rq e touched = do {
     let touched = (touched \<or> (ev_phase e \<noteq> PhaseConnecting \<and> ev_phase e \<noteq> PhaseCleaning));
     _ \<leftarrow> (if ev_phase e = PhaseDecrypting \<and> ev_attributes e \<noteq> []
           then enqueueHelperLog A
                  (helperLogLevel (case map_of (ev_attributes e) ''level'' of None \<Rightarrow> '''' | Some l \<Rightarrow> l))
                  (helper_args (rq_id rq) e)
           else ret ());
     _ \<leftarrow> (if known_phase (ev_phase e)
           then rq_progress rq \<lparr>pr_phase = ad_phase_name A (ev_phase e),
                  pr_current = max (ev_current e) 0, pr_total = max (ev_total e) 0\<rparr>
           else ret ());
     ret touched }"

section \<open>Decryption\<close>

definition failure :: "string \<Rightarrow> go_error \<Rightarrow> engine_result \<times> error" where
  "failure code cause = (no_result, Some (ErrFailure code False False (Some cause)))"

text \<open>\<open>LoginWithMACAddress\<close> and the save of the session it returns.\<close>

definition login :: "adapter \<Rightarrow> ctx \<Rightarrow> engine_request \<Rightarrow> account \<Rightarrow> ((engine_result \<times> error) + account) io" where
  "login A c rq a = do {
     (t, r) \<leftarrow> run_lib (no_callbacks\<lparr>on_auth := authCode c (rq_id rq)\<rparr>) c
        (ad_login A \<lparr>lg_dir = rq_workspace rq @ [''login''], lg_email = acc_email a,
           lg_password = acc_password a, lg_mac = acc_mac a\<rparr>) False;
     case r of
       Inl e \<Rightarrow> ret (Inl (failure ''authentication_failed'' e))
     | Inr b \<Rightarrow> do {
         e \<leftarrow> account_Save (ad_secrets A) b;
         ret (case e of Some x \<Rightarrow> Inl (failure ''account_unavailable'' x) | None \<Rightarrow> Inr b) } }"

definition obtain_account :: "adapter \<Rightarrow> ctx \<Rightarrow> engine_request \<Rightarrow> ((engine_result \<times> error) + account option) io" where
  "obtain_account A c rq = do {
     r \<leftarrow> account_Load (ad_secrets A);
     case r of
       Inl e \<Rightarrow> ret (Inl (failure ''account_unavailable'' e))
     | Inr None \<Rightarrow> ret (Inr None)
     | Inr (Some a) \<Rightarrow>
         if acc_token a = '''' \<and> rq_source rq \<noteq> ''installed''
         then do { l \<leftarrow> login A c rq a; ret (case l of Inl x \<Rightarrow> Inl x | Inr b \<Rightarrow> Inr (Some b)) }
         else ret (Inr (Some a)) }"

definition metadata_of :: "ipa_result option \<Rightarrow> engine_result" where
  "metadata_of result =
     (case result of
        None \<Rightarrow> no_result\<lparr>er_review := True\<rparr>
      | Some r \<Rightarrow> \<lparr>er_bundle_id = ir_bundle_id r, er_version = ir_version r, er_installed = ir_installed r,
          er_replaced = ir_reinstalled r, er_uninstalled = ir_uninstalled r, er_review = True\<rparr>)"

definition verified :: "ipa_result option \<Rightarrow> bool" where
  "verified result =
     (case result of
        None \<Rightarrow> False
      | Some r \<Rightarrow> vf_ok (ir_verification r) \<and> 0 < vf_scanned (ir_verification r)
          \<and> vf_missing (ir_verification r) = [])"

definition rejected :: "ipa_result option \<Rightarrow> bool" where
  "rejected result =
     (case result of
        None \<Rightarrow> True
      | Some r \<Rightarrow> \<not> vf_ok (ir_verification r) \<or> vf_scanned (ir_verification r) = 0
          \<or> 0 < length (vf_missing (ir_verification r)))"

text \<open>The code of a failed call and whether the worker may retry it.\<close>

definition classify :: "adapter \<Rightarrow> ctx \<Rightarrow> bool \<Rightarrow> go_error \<Rightarrow> (string \<times> bool) io" where
  "classify A c touched e =
     (if errors_is_lib e DeviceLocked
      then ret (''device_locked'', Contains (error_text (ad_text A) e) ''cannot determine device lock state'')
      else if errors_is_lib e VerificationFailed then ret (''verification_failed'', False)
      else do {
        x \<leftarrow> ctx_Err c;
        ret (if x \<noteq> None then (''interrupted'', False)
             else if \<not> touched \<and> errors_as_net e then (''device_unavailable'', True)
             else (''decryption_failed'', False)) })"

definition conclude_call ::
  "adapter \<Rightarrow> ctx \<Rightarrow> bool \<Rightarrow> ipa_result option \<Rightarrow> error \<Rightarrow> (engine_result \<times> error) io" where
  "conclude_call A c touched result err = do {
     deferred \<leftarrow>
       (if verified result \<and> (case err of None \<Rightarrow> False | Some e \<Rightarrow> errors_is_lib e CleanupUnconfirmed)
        then do { x \<leftarrow> ctx_Err c; ret (x = None) } else ret False);
     if deferred then ret (metadata_of result, None)
     else case err of
       Some e \<Rightarrow> do {
         (code, retry) \<leftarrow> classify A c touched e;
         ret (metadata_of result, Some (ErrFailure code retry True (Some e))) }
     | None \<Rightarrow>
         ret (metadata_of result,
              if rejected result then Some (ErrFailure ''verification_failed'' False True None) else None) }"

definition IsAbs :: "string \<Rightarrow> bool" where
  "IsAbs p = HasPrefix p ''/''"

definition decrypt_request :: "adapter \<Rightarrow> engine_request \<Rightarrow> account option \<Rightarrow> string \<Rightarrow> ipa_request" where
  "decrypt_request A rq a op =
     \<lparr>ir_operation = op, ir_journal = ad_journal_dir A, ir_target = rq_target rq, ir_device = ad_device A,
      ir_apple = a, ir_state_dir = rq_workspace rq @ [''state''], ir_output = rq_workspace rq @ [''output.ipa''],
      ir_source = rq_source rq, ir_extra_verify = (rq_source rq \<noteq> ''installed'')\<rparr>"

definition decrypt_callbacks :: "adapter \<Rightarrow> ctx \<Rightarrow> engine_request \<Rightarrow> callbacks" where
  "decrypt_callbacks A c rq =
     \<lparr>on_event = handle_event A rq, on_account = account_Save (ad_secrets A), on_auth = authCode c (rq_id rq)\<rparr>"

definition decrypt_scoped :: "adapter \<Rightarrow> ctx \<Rightarrow> engine_request \<Rightarrow> (engine_result \<times> error) io" where
  "decrypt_scoped A c rq = do {
     l \<leftarrow> obtain_account A c rq;
     case l of
       Inl x \<Rightarrow> ret x
     | Inr a \<Rightarrow>
         if \<not> ad_operations A \<or> \<not> IsAbs (ad_journal_dir A)
         then ret (failure ''storage_failed'' (ErrText ''durable operation storage required''))
         else do {
           o1 \<leftarrow> Jobs_StartOperation (rq_id rq);
           case o1 of
             Inl e \<Rightarrow> ret (failure ''storage_failed'' e)
           | Inr op \<Rightarrow> do {
               (touched, result, err) \<leftarrow>
                 run_lib (decrypt_callbacks A c rq) c (ad_decrypt A (decrypt_request A rq a op)) False;
               conclude_call A c touched result err } } }"

definition scope_begin :: "ctx \<Rightarrow> (go_error + unit) io" where
  "scope_begin c = do {
     env_step;
     State (\<lambda>w. if crashed w then (Inl ErrCanceled, w)
       else case Scope c (transport w) of Inl e \<Rightarrow> (Inl e, w) | Inr t \<Rightarrow> (Inr (), w\<lparr>transport := t\<rparr>)) }"

definition Adapter_Decrypt :: "adapter \<Rightarrow> ctx \<Rightarrow> engine_request \<Rightarrow> (engine_result \<times> error) io" where
  "Adapter_Decrypt A c rq =
     (if ad_transport A then do {
        s \<leftarrow> scope_begin c;
        case s of
          Inl e \<Rightarrow> ret (failure ''device_unavailable'' e)
        | Inr _ \<Rightarrow> do {
            r \<leftarrow> decrypt_scoped A c rq;
            live (\<lambda>w. w\<lparr>transport := Scope_release (transport w)\<rparr>);
            ret r } }
      else decrypt_scoped A c rq)"

section \<open>Cleanup and verification\<close>

text \<open>The loop over the recorded operations.\<close>

fun cleanup_loop ::
  "adapter \<Rightarrow> ctx \<Rightarrow> string list \<Rightarrow> cleanup_result \<Rightarrow> error \<Rightarrow> (cleanup_result \<times> error) io" where
  "cleanup_loop A c [] res err = ret (res, err)"
| "cleanup_loop A c (op # ops) res err = do {
     x \<leftarrow> ctx_Err c;
     if x \<noteq> None then do { y \<leftarrow> ctx_Err c; ret (\<lparr>cr_confirmed = False, cr_uninstalled = False\<rparr>, errors_join err y) }
     else do {
       (report, e) \<leftarrow> plain_call c (ad_cleanup A \<lparr>cq_operation = op, cq_journal = ad_journal_dir A, cq_device = ad_device A\<rparr>);
       cleanup_loop A c ops
         \<lparr>cr_confirmed = (cr_confirmed res \<and> rp_confirmed report \<and> e = None),
          cr_uninstalled = (cr_uninstalled res \<or> rp_uninstalled report)\<rparr> (errors_join err e) } }"

definition Adapter_Cleanup :: "adapter \<Rightarrow> ctx \<Rightarrow> string \<Rightarrow> (cleanup_result \<times> error) io" where
  "Adapter_Cleanup A c i =
     (let nothing = \<lparr>cr_confirmed = False, cr_uninstalled = False\<rparr>
      in if \<not> ad_operations A \<or> \<not> IsAbs (ad_journal_dir A)
         then ret (nothing, Some (ErrText ''durable operation storage required''))
         else do {
           r \<leftarrow> Jobs_Operations i;
           case r of
             Inl e \<Rightarrow> ret (nothing, Some e)
           | Inr ops \<Rightarrow>
               if length ops = 0 then ret (nothing, Some (ErrLib CleanupUnconfirmed (ad_unconfirmed A)))
               else cleanup_loop A c ops \<lparr>cr_confirmed = True, cr_uninstalled = False\<rparr> None })"

text \<open>The library's verification of a local file, which has no context.\<close>

definition Adapter_Verify :: "adapter \<Rightarrow> path \<Rightarrow> error io" where
  "Adapter_Verify A p = do {
     r \<leftarrow> plain_call (CleanupCtx 0) (ad_verify A p);
     ret (case r of
        Inl e \<Rightarrow> Some e
      | Inr v \<Rightarrow> if \<not> vf_ok v \<or> vf_scanned v = 0 \<or> 0 < length (vf_missing v)
                 then Some (ErrText ''verification failed'') else None) }"

definition adapter_engine :: "adapter \<Rightarrow> engine" where
  "adapter_engine A =
     \<lparr>Decrypt = Adapter_Decrypt A, Verify = Adapter_Verify A, Cleanup = Some (Adapter_Cleanup A)\<rparr>"

section \<open>What the adapter keeps\<close>

lemma keeps_live [keeps_rules]:
  "(\<And>w. store (f w) = store w) \<Longrightarrow> keeps (on_store p) (live f)"
  unfolding live_def by (intro keeps_rules) simp

lemma keeps_pure: "(\<And>w. store (snd (f w)) = store w) \<Longrightarrow> keeps (on_store p) (State f)"
  by (simp add: keeps_def holds_def split: prod.split) (metis snd_conv)

lemma keeps_enqueueHelperLog [keeps_rules]: "db_stable p \<Longrightarrow> keeps (on_store p) (enqueueHelperLog A l args)"
  unfolding enqueueHelperLog_def by (intro keeps_rules) (simp_all add: helper_send_def)

lemma keeps_authCode [keeps_rules]: "db_stable p \<Longrightarrow> keeps (on_store p) (authCode c i)"
  unfolding authCode_def
  by (intro keeps_rules keeps_pure) (auto split: sum.split option.split)

lemma keeps_handle_event [keeps_rules]:
  "db_stable p \<Longrightarrow> (\<And>g. keeps (on_store p) (rq_progress rq g)) \<Longrightarrow> keeps (on_store p) (handle_event A rq e t)"
  unfolding handle_event_def by (intro keeps_rules) simp_all

lemma keeps_obtain_account [keeps_rules]: "db_stable p \<Longrightarrow> keeps (on_store p) (obtain_account A c rq)"
  unfolding obtain_account_def login_def
  by (intro keeps_rules keeps_run_lib) (auto simp: no_callbacks_def intro: keeps_authCode)

lemma keeps_conclude_call [keeps_rules]: "db_stable p \<Longrightarrow> keeps (on_store p) (conclude_call A c t r e)"
  unfolding conclude_call_def classify_def by (intro keeps_rules)

lemma keeps_decrypt_call [keeps_rules]:
  "db_stable p \<Longrightarrow> (\<And>g. keeps (on_store p) (rq_progress rq g)) \<Longrightarrow>
   keeps (on_store p) (run_lib (decrypt_callbacks A c rq) c k t)"
  by (rule keeps_run_lib) (auto simp: decrypt_callbacks_def intro: keeps_handle_event keeps_account_Save keeps_authCode)

lemma keeps_StartOperation:
  "engine_stable p \<Longrightarrow> keeps (on_store p) (Jobs_StartOperation i)"
  by (rule keeps_tx) (auto simp: engine_stable_def journal_stable_def)

lemma keeps_Adapter_Decrypt:
  assumes "engine_stable p" "\<And>g. keeps (on_store p) (rq_progress rq g)"
  shows "keeps (on_store p) (Adapter_Decrypt A c rq)"
proof -
  note s = engine_db_stable [OF assms(1)]
  have "keeps (on_store p) (decrypt_scoped A c rq)"
    unfolding decrypt_scoped_def
    by (intro keeps_rules keeps_StartOperation s assms)
  moreover have "keeps (on_store p) (scope_begin c)"
    unfolding scope_begin_def by (intro keeps_rules keeps_pure s) (auto split: sum.split)
  ultimately show ?thesis
    unfolding Adapter_Decrypt_def by (intro keeps_rules) simp_all
qed

lemma keeps_cleanup_loop: "db_stable p \<Longrightarrow> keeps (on_store p) (cleanup_loop A c ops res err)"
proof (induction ops arbitrary: res err)
  case Nil
  show ?case by (simp add: keeps_ret)
next
  case (Cons op ops)
  then show ?case unfolding cleanup_loop.simps by (intro keeps_rules) simp_all
qed

lemma keeps_Adapter_Cleanup: "engine_stable p \<Longrightarrow> keeps (on_store p) (Adapter_Cleanup A c i)"
  unfolding Adapter_Cleanup_def
  by (intro keeps_rules keeps_cleanup_loop keeps_tx)
    (auto simp: engine_db_stable store_Operations_def)

lemma keeps_Adapter_Verify: "engine_stable p \<Longrightarrow> keeps (on_store p) (Adapter_Verify A f)"
  unfolding Adapter_Verify_def by (intro keeps_rules) (rule engine_db_stable)

text \<open>The adapter satisfies the contract of an engine, for every library behind it.\<close>

interpretation adapter: device_engine "adapter_engine A" for A
proof
  show "keeps (on_store p) (Decrypt (adapter_engine A) c rq)"
    if "engine_stable p" "\<And>g. keeps (on_store p) (rq_progress rq g)" for p c rq
    using that by (simp add: adapter_engine_def keeps_Adapter_Decrypt)
qed (auto simp: adapter_engine_def intro: keeps_Adapter_Verify keeps_Adapter_Cleanup)

end
