(* ===== verification/AdapterContract.thy ===== *)
theory AdapterContract
  imports Adapter
begin

text \<open>
  What the adapter promises the worker: the possible outcomes of a decryption and what each says about
  the durable operation record, and when a cleanup may be reported as confirmed.
\<close>

section \<open>Outcomes of a decryption\<close>

definition early_codes :: "string list" where
  "early_codes = [''device_unavailable'', ''account_unavailable'', ''authentication_failed'', ''storage_failed'']"

definition late_codes :: "string list" where
  "late_codes = [''device_locked'', ''verification_failed'', ''interrupted'', ''device_unavailable'', ''decryption_failed'']"

text \<open>Before the operation is recorded: a failure that needs no review and leaves no record.\<close>

fun early_outcome :: "operation list \<Rightarrow> engine_result \<times> error \<Rightarrow> db \<Rightarrow> bool" where
  "early_outcome ops (res, err) d \<longleftrightarrow>
     operations d = ops \<and> res = no_result
     \<and> (\<exists>code cause. err = Some (ErrFailure code False False (Some cause)) \<and> code \<in> set early_codes)"

definition recorded :: "operation list \<Rightarrow> string \<Rightarrow> db \<Rightarrow> bool" where
  "recorded ops i d \<longleftrightarrow> (\<exists>p. operations d = ops @ [p] \<and> op_job p = i)"

text \<open>After it: the result asks for review, and so does every error.\<close>

fun late_outcome :: "operation list \<Rightarrow> string \<Rightarrow> engine_result \<times> error \<Rightarrow> db \<Rightarrow> bool" where
  "late_outcome ops i (res, err) d \<longleftrightarrow>
     recorded ops i d \<and> er_review res
     \<and> (case err of None \<Rightarrow> True
        | Some e \<Rightarrow> \<exists>code retry cause. e = ErrFailure code retry True cause \<and> code \<in> set late_codes
             \<and> (retry \<longrightarrow> code \<in> {''device_locked'', ''device_unavailable''}))"

lemma api_tx_operations: "api_tx d d' \<Longrightarrow> operations d' = operations d"
  by (induction rule: api_tx.induct)
    (auto simp: store_Progress_def store_Enqueue_def store_Cancel_def store_Resolve_def store_resolve_def
      store_Metadata_def Let_def split: option.splits if_splits)

lemma stable_operations [simp]: "db_stable (\<lambda>d. P (operations d))"
  by (auto simp: db_stable_def api_tx_operations)

lemma stable_same_operations [simp]: "db_stable (\<lambda>d. operations d = ops)"
  by (rule stable_operations [of "\<lambda>os. os = ops"])

lemma stable_recorded [simp]: "db_stable (recorded ops i)"
  using stable_operations [of "\<lambda>os. \<exists>p. os = ops @ [p] \<and> op_job p = i"] by (simp add: recorded_def [abs_def])

lemma start_operation_recorded:
  "store_StartOperation now op i d = Inr (r, d') \<Longrightarrow> operations d = ops \<Longrightarrow> recorded ops i d'"
  by (auto simp: store_StartOperation_def recorded_def split: option.splits if_splits)

definition early_failure :: "engine_result \<times> error \<Rightarrow> bool" where
  "early_failure x \<longleftrightarrow> (\<exists>code e. x = failure code e \<and> code \<in> set early_codes)"

lemma early_failure_code [simp]: "early_failure (failure code e) \<longleftrightarrow> code \<in> set early_codes"
  by (auto simp: early_failure_def failure_def)

lemma early_failureI: "failure code e = x \<Longrightarrow> code \<in> set early_codes \<Longrightarrow> early_failure x"
  by auto

lemma obtain_account_early:
  "holds (on_store (\<lambda>d. operations d = ops)) (obtain_account A c rq)
     (\<lambda>r w. operations (store w) = ops \<and> (\<forall>x. r = Inl x \<longrightarrow> early_outcome ops x (store w)))"
proof (rule holdsI)
  fix w r w' assume "operations (store w) = ops" and run: "run_state (obtain_account A c rq) w = (r, w')"
  then have "operations (store w') = ops"
    using keepsD [OF keeps_obtain_account [OF stable_operations [of "\<lambda>os. os = ops"]]] by blast
  moreover have "early_failure x" if "r = Inl x" for x
    using run that
    by (auto simp: obtain_account_def login_def split: prod.splits sum.splits option.splits if_splits
        elim!: early_failureI; simp add: early_codes_def)
  ultimately show "operations (store w') = ops \<and> (\<forall>x. r = Inl x \<longrightarrow> early_outcome ops x (store w'))"
    by (auto simp: failure_def early_failure_def)
qed

lemma conclude_call_late:
  "holds (on_store (recorded ops i)) (conclude_call A c t result err) (\<lambda>x w. late_outcome ops i x (store w))"
proof (rule holdsI)
  fix w x w' assume "recorded ops i (store w)" and run: "run_state (conclude_call A c t result err) w = (x, w')"
  then have "recorded ops i (store w')"
    using keepsD [OF keeps_conclude_call [OF stable_recorded]] by blast
  moreover have "er_review (metadata_of result)" by (simp add: metadata_of_def split: option.split)
  ultimately show "late_outcome ops i x (store w')"
    using run
    by (auto simp: conclude_call_def classify_def late_codes_def split: prod.splits option.splits if_splits)
qed

lemma decrypt_scoped_outcome:
  assumes "\<And>p g. db_stable p \<Longrightarrow> keeps (on_store p) (rq_progress rq g)"
  shows "holds (on_store (\<lambda>d. operations d = ops)) (decrypt_scoped A c rq)
     (\<lambda>x w. early_outcome ops x (store w) \<or> late_outcome ops (rq_id rq) x (store w))"
proof -
  let ?Q = "\<lambda>x w. early_outcome ops x (store w) \<or> late_outcome ops (rq_id rq) x (store w)"
  have call: "holds (on_store (recorded ops (rq_id rq))) (do {
       (touched, result, err) \<leftarrow> run_lib (decrypt_callbacks A c rq) c k False;
       conclude_call A c touched result err }) ?Q" for k
    by (rule holds_bind [OF keeps_holds [OF keeps_decrypt_call [OF stable_recorded assms [OF stable_recorded]]]])
      (auto intro!: holds_prod holds_post [OF conclude_call_late])
  have start: "holds (on_store (\<lambda>d. operations d = ops)) (Jobs_StartOperation (rq_id rq))
      (\<lambda>r w. case r of Inl e \<Rightarrow> operations (store w) = ops | Inr op \<Rightarrow> recorded ops (rq_id rq) (store w))"
  proof -
    have "holds (on_store (\<lambda>d. operations d = ops)) (Jobs_StartOperation (rq_id rq))
      (\<lambda>r w. (case r of Inl e \<Rightarrow> (\<lambda>d. operations d = ops) | Inr op \<Rightarrow> recorded ops (rq_id rq)) (store w))"
      by (rule holds_tx) (auto dest: start_operation_recorded)
    then show ?thesis by (rule holds_post) (simp split: sum.splits)
  qed
  show ?thesis
    unfolding decrypt_scoped_def
  proof (rule holds_bind [OF obtain_account_early], rule holds_sum)
    fix l :: "(engine_result \<times> error) + account option" and x assume "l = Inl x"
    then show "holds (\<lambda>w. operations (store w) = ops \<and> (\<forall>x. l = Inl x \<longrightarrow> early_outcome ops x (store w)))
      (ret x) ?Q" by (auto intro: holds_ret)
  next
    fix l :: "(engine_result \<times> error) + account option" and a assume "l = Inr a"
    let ?fail = "\<lambda>e. ret (failure ''storage_failed'' e) :: (engine_result \<times> error) io"
    have fail: "holds (on_store (\<lambda>d. operations d = ops)) (?fail e) ?Q" for e
      by (rule holds_ret) (simp add: failure_def early_codes_def)
    have "holds (on_store (\<lambda>d. operations d = ops)) (if \<not> ad_operations A \<or> \<not> IsAbs (ad_journal_dir A)
         then ?fail (ErrText ''durable operation storage required'')
         else do {
           o1 \<leftarrow> Jobs_StartOperation (rq_id rq);
           case o1 of
             Inl e \<Rightarrow> ?fail e
           | Inr op \<Rightarrow> do {
               (touched, result, err) \<leftarrow>
                 run_lib (decrypt_callbacks A c rq) c (ad_decrypt A (decrypt_request A rq a op)) False;
               conclude_call A c touched result err } }) ?Q"
    proof (intro holds_if fail, rule holds_bind [OF start], rule holds_sum)
      fix r :: "go_error + string" and e assume "r = Inl e"
      then show "holds (\<lambda>w. case r of Inl e \<Rightarrow> operations (store w) = ops
          | Inr op \<Rightarrow> recorded ops (rq_id rq) (store w)) (?fail e) ?Q"
        using fail by simp
    next
      fix r :: "go_error + string" and op assume "r = Inr op"
      then show "holds (\<lambda>w. case r of Inl e \<Rightarrow> operations (store w) = ops
          | Inr op \<Rightarrow> recorded ops (rq_id rq) (store w)) (do {
               (touched, result, err) \<leftarrow>
                 run_lib (decrypt_callbacks A c rq) c (ad_decrypt A (decrypt_request A rq a op)) False;
               conclude_call A c touched result err }) ?Q"
        using call by simp
    qed
    then show "holds (\<lambda>w. operations (store w) = ops \<and> (\<forall>x. l = Inl x \<longrightarrow> early_outcome ops x (store w)))
      (if \<not> ad_operations A \<or> \<not> IsAbs (ad_journal_dir A)
         then ?fail (ErrText ''durable operation storage required'')
         else do {
           o1 \<leftarrow> Jobs_StartOperation (rq_id rq);
           case o1 of
             Inl e \<Rightarrow> ?fail e
           | Inr op \<Rightarrow> do {
               (touched, result, err) \<leftarrow>
                 run_lib (decrypt_callbacks A c rq) c (ad_decrypt A (decrypt_request A rq a op)) False;
               conclude_call A c touched result err } }) ?Q"
      by (rule holds_pre) simp
  qed
qed

lemma decrypt_outcome:
  assumes "\<And>p g. db_stable p \<Longrightarrow> keeps (on_store p) (rq_progress rq g)"
  shows "holds (on_store (\<lambda>d. operations d = ops)) (Adapter_Decrypt A c rq)
     (\<lambda>x w. early_outcome ops x (store w) \<or> late_outcome ops (rq_id rq) x (store w))"
proof -
  let ?Q = "\<lambda>x w. early_outcome ops x (store w) \<or> late_outcome ops (rq_id rq) x (store w)"
  note body = decrypt_scoped_outcome [OF assms]
  have "keeps (on_store (\<lambda>d. operations d = ops)) (scope_begin c)"
    unfolding scope_begin_def by (intro keeps_rules keeps_pure) (auto split: sum.split)
  note enter = keeps_holds [OF this]
  have leave: "holds (\<lambda>w. ?Q r w) (live (\<lambda>w. w\<lparr>transport := Scope_release (transport w)\<rparr>)) (\<lambda>_ w. ?Q r w)" for r
    by (auto simp: holds_def live_def modify_def)
  show ?thesis
    unfolding Adapter_Decrypt_def
    by (intro holds_if holds_bind [OF enter] holds_sum holds_bind [OF body] holds_bind [OF leave] body)
      (auto intro!: holds_ret simp: failure_def early_codes_def)
qed

text \<open>
  C14. Every outcome of a decryption: either it fails before touching the device, with a code that says
  why, not to be retried nor reviewed, and leaves no operation record; or exactly one operation of this
  job has been recorded, and then success and failure alike ask for device review, and only a locked
  or unreachable device may be retried.
\<close>

theorem decrypt_outcomes:
  assumes "\<And>p g. db_stable p \<Longrightarrow> keeps (on_store p) (rq_progress rq g)"
    and "run_state (Adapter_Decrypt A c rq) w = ((res, err), w')"
  shows "early_outcome (operations (store w)) (res, err) (store w')
    \<or> late_outcome (operations (store w)) (rq_id rq) (res, err) (store w')"
  using holdsD [OF decrypt_outcome [OF assms(1)] refl assms(2)] .

section \<open>Confirmation of a cleanup\<close>

definition cleanup_request_of :: "adapter \<Rightarrow> string \<Rightarrow> cleanup_request" where
  "cleanup_request_of A op = \<lparr>cq_operation = op, cq_journal = ad_journal_dir A, cq_device = ad_device A\<rparr>"

text \<open>At some moment the library reported, without an error, that nothing of the operation is left.\<close>

definition confirmed_by_library :: "adapter \<Rightarrow> ctx \<Rightarrow> string \<Rightarrow> bool" where
  "confirmed_by_library A c op \<longleftrightarrow> (\<exists>v v' report.
     run_state (plain_call c (ad_cleanup A (cleanup_request_of A op))) v = ((report, None), v')
     \<and> rp_confirmed report)"

lemma cleanup_loop_confirmed:
  "run_state (cleanup_loop A c ops res err) w = ((out, e), w') \<Longrightarrow> cr_confirmed out \<Longrightarrow>
   cr_confirmed res \<and> e = err \<and> (\<forall>op \<in> set ops. confirmed_by_library A c op)"
proof (induction ops arbitrary: w res err)
  case (Cons op ops)
  obtain x w1 where x: "run_state (ctx_Err c) w = (x, w1)" by fastforce
  have none: "x = None"
    using Cons.prems x by (auto split: if_splits prod.splits)
  obtain report e1 w2 where call:
      "run_state (plain_call c (ad_cleanup A (cleanup_request_of A op))) w1 = ((report, e1), w2)"
    by (metis surj_pair)
  have "run_state (cleanup_loop A c ops
         \<lparr>cr_confirmed = (cr_confirmed res \<and> rp_confirmed report \<and> e1 = None),
          cr_uninstalled = (cr_uninstalled res \<or> rp_uninstalled report)\<rparr> (errors_join err e1)) w2 = ((out, e), w')"
    using Cons.prems(1) x none call by (simp add: cleanup_request_of_def)
  from Cons.IH [OF this Cons.prems(2)] call show ?case
    by (auto simp: confirmed_by_library_def) (cases err; simp)
qed auto

lemma cleanup_confirmed:
  assumes "run_state (Adapter_Cleanup A c i) w = ((res, err), w')" "cr_confirmed res"
  shows "err = None \<and> (\<exists>ops v. run_state (Jobs_Operations i) w = (Inr ops, v) \<and> ops \<noteq> []
    \<and> (\<forall>op \<in> set ops. confirmed_by_library A c op))"
proof -
  obtain r v where r: "run_state (Jobs_Operations i) w = (r, v)" by fastforce
  obtain ops where ops: "r = Inr ops" "ops \<noteq> []"
      "run_state (cleanup_loop A c ops \<lparr>cr_confirmed = True, cr_uninstalled = False\<rparr> None) v = ((res, err), w')"
    using assms r by (auto simp: Adapter_Cleanup_def Let_def split: if_splits sum.splits)
  from cleanup_loop_confirmed [OF ops(3) assms(2)] r ops show ?thesis by blast
qed

text \<open>
  C15. A cleanup is reported as confirmed only when operations of the job are on record, the library
  was asked about every one of them and confirmed each without an error, and the report itself carries
  no error: an unreadable record, an empty one, a context that ended or a single refusal prevents it.
\<close>

theorem cleanup_confirms_all:
  assumes "run_state (Adapter_Cleanup A c i) w = ((res, err), w')" "cr_confirmed res"
  shows "err = None \<and> (\<exists>ops v. run_state (Jobs_Operations i) w = (Inr ops, v) \<and> ops \<noteq> []
    \<and> (\<forall>op \<in> set ops. confirmed_by_library A c op))"
  using cleanup_confirmed [OF assms] .

section \<open>Witnesses\<close>

text \<open>
  A library that cannot reach the device, whose cleanup has nothing to do, and an adapter without
  Apple account on top of it.
\<close>

definition sample_device :: device_config where
  "sample_device = \<lparr>dc_host = ''phone'', dc_port = 22, dc_user = ''mobile'', dc_pin = '''',
     dc_auth = \<lparr>da_kind = ''key'', da_key_path = ''/key'', da_passphrase = '''', da_password = ''''\<rparr>,
     dc_known_hosts = ''/hosts''\<rparr>"

definition sample_adapter :: adapter where
  "sample_adapter = \<lparr>ad_operations = True, ad_journal_dir = ''/data/device-journal'', ad_transport = True,
     ad_device = sample_device, ad_secrets = new_secrets sample_json [''data''] '''' '''' '''',
     ad_enabled = (\<lambda>_. False), ad_phase_name = (\<lambda>_. ''phase''), ad_text = (\<lambda>_. ''error''),
     ad_unconfirmed = ''unconfirmed'',
     ad_decrypt = (\<lambda>q. LibReturn (None, Some (ErrNet ''no route to host''))),
     ad_cleanup = (\<lambda>q. LibReturn (\<lparr>rp_confirmed = True, rp_uninstalled = False\<rparr>, None)),
     ad_login = (\<lambda>q. LibReturn (Inl (ErrText ''unused''))),
     ad_verify = (\<lambda>p. LibReturn (Inr \<lparr>vf_ok = True, vf_scanned = 1, vf_missing = []\<rparr>))\<rparr>"

definition sample_request :: engine_request where
  "sample_request = \<lparr>rq_id = sample_id 1, rq_target = ''com.example.app'', rq_source = ''installed'',
     rq_workspace = [''data'', ''work'', sample_id 1], rq_progress = (\<lambda>g. ret ())\<rparr>"

definition running_world :: world where
  "running_world = (quiet_world sample_fs)\<lparr>store := sample_running\<rparr>"

lemmas calls_quiet = live_def modify_def gets_def db_tx_def ctx_Err_def env_step_def next_slot_def idle_slot_def Let_def

theorem decrypt_outcomes_witness:
  "\<exists>res err w'. run_state (Adapter_Decrypt sample_adapter (JobCtx 9) sample_request) running_world = ((res, err), w')
    \<and> err = Some (ErrFailure ''device_unavailable'' True True (Some (ErrNet ''no route to host'')))
    \<and> late_outcome [] (sample_id 1) (res, err) (store w')"
proof -
  have ok: "keeps (on_store p) (rq_progress sample_request g)" for p g
    by (simp add: sample_request_def keeps_ret)
  obtain res err w' where run:
      "run_state (Adapter_Decrypt sample_adapter (JobCtx 9) sample_request) running_world = ((res, err), w')"
      "err = Some (ErrFailure ''device_unavailable'' True True (Some (ErrNet ''no route to host'')))"
    by (simp add: Adapter_Decrypt_def scope_begin_def Scope_def decrypt_scoped_def obtain_account_def
        account_Load_def sample_adapter_def sample_request_def new_secrets_def running_world_def
        quiet_world_def idle_transport_def IsAbs_def HasPrefix_def calls_quiet store_StartOperation_def
        sample_running_def sample_defs step_defs put_store_def conclude_call_def classify_def verified_def
        errors_is_lib_def errors_as_net_def)
  have "operations (store running_world) = []"
    by (simp add: running_world_def sample_running_def sample_db_def update_device_def)
  with decrypt_outcomes [OF ok run(1)] run show ?thesis by (auto simp: sample_request_def)
qed

theorem cleanup_confirms_all_witness:
  "\<exists>res err w' v. run_state (Adapter_Cleanup sample_adapter (CleanupCtx 9) (sample_id 1))
      (running_world\<lparr>store := sample_running\<lparr>operations := [\<lparr>op_id = ''op'', op_job = sample_id 1, op_created = 0\<rparr>]\<rparr>\<rparr>)
      = ((res, err), w')
    \<and> cr_confirmed res \<and> confirmed_by_library sample_adapter (CleanupCtx 9) ''op''"
proof -
  let ?w = "running_world\<lparr>store := sample_running\<lparr>operations := [\<lparr>op_id = ''op'', op_job = sample_id 1, op_created = 0\<rparr>]\<rparr>\<rparr>"
  obtain res err w' where run: "run_state (Adapter_Cleanup sample_adapter (CleanupCtx 9) (sample_id 1)) ?w = ((res, err), w')"
      "cr_confirmed res"
    by (simp add: Adapter_Cleanup_def sample_adapter_def IsAbs_def HasPrefix_def calls_quiet running_world_def
        quiet_world_def store_Operations_def put_store_def plain_call_def)
  obtain v where "run_state (Jobs_Operations (sample_id 1)) ?w = (Inr [''op''], v)"
    by (simp add: calls_quiet running_world_def quiet_world_def store_Operations_def put_store_def)
  with cleanup_confirms_all [OF run] run show ?thesis by auto
qed

end
