(* ===== verification/Service.thy ===== *)
theory Service
  imports AdapterContract
begin

text \<open>
  The service: the adapter behind the worker, the worker behind the scheduler. The interfaces proved
  for any engine and any runner are instantiated on the code's own, and the properties of the whole
  are stated here.
\<close>

definition adapter_worker :: "adapter \<Rightarrow> worker \<Rightarrow> worker" where
  "adapter_worker A W = W\<lparr>wk_engine := adapter_engine A\<rparr>"

lemma adapter_worker_engine [simp]: "wk_engine (adapter_worker A W) = adapter_engine A"
  by (simp add: adapter_worker_def)

interpretation loop: serial_device store_queue "worker_runner (adapter_worker A W)" "along V free"
    "\<lambda>j. along V (holder (job_id j) {Running})" "along V inv_store" for A W V
  by (rule adapter.serial_worker) simp

lemma scheduler_between:
  assumes "free (store w)"
    and "run_state (scheduler n store_queue (worker_runner (adapter_worker A W))) w = (x, w')"
  shows "inv_store (store w') \<and> (x = None \<or> x = Some None \<longrightarrow> free (store w'))"
proof -
  have "along UNIV free (store w)" using assms(1) by simp
  from holdsD [OF loop.scheduler_ok this assms(2)] show ?thesis unfolding loop.loop_ok_def by simp
qed

section \<open>The job store at rest\<close>

text \<open>
  C1. Every database the service can leave behind, over any number of process lifetimes, crashes at
  any point, persistence failures and interleavings with the HTTP handlers and the monitor: at most one
  job is in flight; a cancelled job is never completed and will not be; the device is quarantined exactly
  while some job waits for review, no job is in flight then, and a quarantined device is not handed out.
\<close>

theorem service_single_flight:
  assumes "reachable_db (adapter_worker A W) d"
  shows "(\<forall>j \<in> set (jobs d). \<forall>k \<in> set (jobs d). in_flight j \<longrightarrow> in_flight k \<longrightarrow> job_id j = job_id k)
    \<and> (\<forall>j \<in> set (jobs d). cancel_requested j \<longrightarrow> job_state j \<noteq> Completed
         \<and> (job_state j = Cleaning \<longrightarrow> pending_state j \<noteq> Completed))
    \<and> dev_quarantined (device d) = (\<exists>j \<in> set (jobs d). needs_review j)
    \<and> (dev_quarantined (device d) \<longrightarrow>
         (\<forall>j \<in> set (jobs d). \<not> in_flight j) \<and> store_Claim now d = Inr (None, d))"
proof -
  have inv: "inv_store d" by (rule adapter.reachable_inv [OF adapter_worker_engine assms])
  then have "dev_quarantined (device d) \<longrightarrow> (\<forall>j \<in> set (jobs d). \<not> in_flight j)"
    by (auto simp: inv_store_def quarantine_agrees_def exclusive_def)
  then show ?thesis
    using inv
    by (auto simp: inv_store_def single_flight_def well_formed_def row_ok_def honours_cancel_def
        quarantine_agrees_def store_Claim_def)
qed

section \<open>One job, the loop, recovery\<close>

text \<open>
  C17. A job that was claimed and runs to the end without an error leaves nothing in flight and the
  device without owner, whatever its outcome was and whatever happened meanwhile; if its run returns an
  error or dies anywhere, the job store still satisfies its invariant.
\<close>

theorem worker_run_releases:
  assumes "holder (job_id j) {Running} (store w)" "run_state (Run (adapter_worker A W) j) w = (r, w')"
  shows "inv_store (store w') \<and> (r = None \<longrightarrow>
    (\<forall>k \<in> set (jobs (store w')). \<not> in_flight k) \<and> dev_owner (device (store w')) = '''')"
  using holdsD [OF adapter.Run_lands [where V = UNIV, OF adapter_worker_engine], unfolded along_UNIV, OF assms]
  by (auto simp: free_def settled_def)

text \<open>
  C18. The loop hands jobs to the worker one after the other: started with nothing in flight, after any
  number of iterations, and whether it is still running, has been shut down or has failed, the invariant
  holds, and unless it failed nothing is in flight and the device has no owner.
\<close>

theorem scheduler_serial:
  assumes "free (store w)"
    and "run_state (scheduler n store_queue (worker_runner (adapter_worker A W))) w = (x, w')"
  shows "inv_store (store w') \<and> (x = None \<or> x = Some None \<longrightarrow>
    (\<forall>k \<in> set (jobs (store w')). \<not> in_flight k) \<and> dev_owner (device (store w')) = '''')"
  using scheduler_between [OF assms] by (auto simp: free_def settled_def)

text \<open>
  C28. Recovery from any database of an earlier lifetime: when it succeeds no job is in flight and the
  device has no owner, so the next free moment belongs to the scheduler; when it fails the invariant
  still holds, so it can be tried again.
\<close>

theorem recovery_restores:
  assumes "reachable_db (adapter_worker A W) (store w)"
    and "run_state (Recover (adapter_worker A W)) w = (r, w')"
  shows "inv_store (store w') \<and> (r = None \<longrightarrow>
    (\<forall>k \<in> set (jobs (store w')). \<not> in_flight k) \<and> dev_owner (device (store w')) = '''')"
  using holdsD [OF adapter.Recover_restores [where V = UNIV, OF adapter_worker_engine], unfolded along_UNIV,
      OF adapter.reachable_inv [OF adapter_worker_engine assms(1)] assms(2)]
  by (auto simp: restored_def free_def settled_def dest: alongD)

section \<open>No silent release after device work\<close>

text \<open>Everything but \<open>Decrypt\<close> leaves the operation records alone.\<close>

abbreviation ops_are :: "operation list \<Rightarrow> world \<Rightarrow> bool" where
  "ops_are ops \<equiv> on_store (\<lambda>d. operations d = ops)"

lemma keeps_ops_tx:
  "(\<And>now r d a d'. t now r d = Inr (a, d') \<Longrightarrow> operations d' = operations d) \<Longrightarrow> keeps (ops_are ops) (db_tx t)"
  by (rule keeps_tx) auto

lemma keeps_ops_calls:
  "keeps (ops_are ops) (Jobs_Metadata i cs)" "keeps (ops_are ops) (Jobs_Change i s cs)"
  "keeps (ops_are ops) (Jobs_BeginCleanup i s c m)" "keeps (ops_are ops) (Jobs_Quarantine i why s)"
  "keeps (ops_are ops) (Jobs_Retry i)" "keeps (ops_are ops) (Jobs_Operations i)"
  by (rule keeps_ops_tx, auto simp: store_Metadata_def store_Change_def store_BeginCleanup_def
      store_Quarantine_def store_Retry_def store_Operations_def Let_def split: option.splits if_splits)+

lemma keeps_ops_cleanup_loop: "keeps (ops_are ops) (cleanup_loop A c os res err)"
  by (rule keeps_cleanup_loop) simp

lemma keeps_ops_Cleanup: "keeps (ops_are ops) (Adapter_Cleanup A c i)"
  unfolding Adapter_Cleanup_def Let_def
  by (intro keeps_rules keeps_ops_cleanup_loop keeps_ops_calls)

lemma keeps_ops_cleanupDevice: "keeps (ops_are ops) (cleanupDevice (adapter_worker A W) i)"
  unfolding cleanupDevice_def adapter_worker_engine adapter_engine_def Let_def
  by (auto intro!: keeps_rules keeps_ops_calls keeps_ops_Cleanup)

lemma keeps_ops_conclude: "keeps (ops_are ops) (conclude (adapter_worker A W) i)"
  unfolding conclude_def by (intro keeps_rules keeps_ops_calls keeps_reads) simp_all

lemma keeps_ops_finish: "keeps (ops_are ops) (finish (adapter_worker A W) i s code review)"
  unfolding finish_def
  by (intro keeps_rules keeps_ops_calls keeps_ops_cleanupDevice keeps_ops_conclude) simp_all

lemma keeps_ops_settle: "keeps (ops_are ops) (settle (adapter_worker A W) i c ws result err)"
proof -
  have "keeps (ops_are ops) (Adapter_Verify A f)" for f
    unfolding Adapter_Verify_def by (intro keeps_rules) simp
  then show ?thesis
    unfolding settle_def publish_output_def Let_def adapter_worker_engine adapter_engine_def engine.simps
    by (intro keeps_rules keeps_ops_calls keeps_ops_finish keeps_reads) simp_all
qed

text \<open>
  In database \<open>d\<close> operations are recorded for job \<open>i\<close>, and the library, asked for the cleanup of each of them,
  confirmed it without an error.
\<close>

definition device_clean :: "adapter \<Rightarrow> string \<Rightarrow> db \<Rightarrow> bool" where
  "device_clean A i d \<longleftrightarrow> (\<exists>c ops. store_Operations i d = Inr (ops, d) \<and> ops \<noteq> []
     \<and> (\<forall>op \<in> set ops. confirmed_by_library A c op))"

lemma device_clean_ops: "operations d' = operations d \<Longrightarrow> device_clean A i d' = device_clean A i d"
  by (auto simp: device_clean_def store_Operations_def)

text \<open>What only depends on the operation records is kept wherever they are.\<close>

lemma same_ops: "(\<And>ops. keeps (ops_are ops) m) \<Longrightarrow> run_state m w = (r, w') \<Longrightarrow> operations (store w') = operations (store w)"
  using keepsD [of "ops_are (operations (store w))" m w r w'] by simp

lemma keeps_clean:
  assumes "\<And>ops. keeps (ops_are ops) m"
  shows "keeps (on_store (device_clean A i)) m"
  by (rule keepsI) (use device_clean_ops [OF same_ops [OF assms]] in simp)

lemma Operations_result:
  assumes "run_state (Jobs_Operations i) w = (Inr ops, w')"
  shows "store_Operations i (store w') = Inr (ops, store w')"
  using assms by (auto simp: db_tx_def store_Operations_def put_store_def split: prod.splits if_splits)

lemma Cleanup_confirmed:
  assumes "run_state (Adapter_Cleanup A c i) w = ((res, err), w')" "cr_confirmed res"
  shows "device_clean A i (store w')"
proof -
  obtain ops v where v: "run_state (Jobs_Operations i) w = (Inr ops, v)" "ops \<noteq> []"
      "\<forall>op \<in> set ops. confirmed_by_library A c op"
    using cleanup_confirmed [OF assms] by blast
  then have "device_clean A i (store v)"
    unfolding device_clean_def using Operations_result [OF v(1)] by blast
  moreover have "operations (store w') = operations (store v)"
    using same_ops [OF keeps_ops_calls(6) v(1)] same_ops [OF keeps_ops_Cleanup assms(1)] by simp
  ultimately show ?thesis using device_clean_ops by blast
qed

lemma cleanupDevice_confirmed:
  "holds (\<lambda>_. True) (cleanupDevice (adapter_worker A W) i) (\<lambda>b w. b \<longrightarrow> device_clean A i (store w))"
proof (rule holdsI, rule impI)
  fix w b w' assume run: "run_state (cleanupDevice (adapter_worker A W) i) w = (b, w')" and b: b
  obtain now v where now: "run_state time_now w = (now, v)" by fastforce
  then obtain c res err v' where cl: "run_state (Adapter_Cleanup A c i) v = ((res, err), v')" "cr_confirmed res"
    using run b
    by (auto simp: cleanupDevice_def adapter_engine_def Let_def split: prod.splits if_splits)
  have "operations (store v) = operations (store w)"
    by (rule same_ops [OF _ now]) (intro keeps_rules, simp)
  moreover have "operations (store v') = operations (store v)" by (rule same_ops [OF keeps_ops_Cleanup cl(1)])
  moreover have "operations (store w') = operations (store w)" by (rule same_ops [OF keeps_ops_cleanupDevice run])
  ultimately have "operations (store w') = operations (store v')" by simp
  from device_clean_ops [OF this] Cleanup_confirmed [OF cl] show "device_clean A i (store w')" by simp
qed

lemma quarantine_sets:
  "holds P (Jobs_Quarantine i why s \<bind> (\<lambda>q. ret (error_of q)))
     (\<lambda>r w. r = None \<longrightarrow> dev_quarantined (device (store w)) \<or> C w)"
proof (rule holdsI, rule impI)
  fix w r w' assume "run_state (Jobs_Quarantine i why s \<bind> (\<lambda>q. ret (error_of q))) w = (r, w')" "r = None"
  then show "dev_quarantined (device (store w')) \<or> C w'"
    by (auto simp: db_tx_def store_Quarantine_def put_store_def update_device_def
        split: prod.splits sum.splits if_splits)
qed

lemma holds_skip: "(\<And>a. holds (\<lambda>_. True) (f a) Q) \<Longrightarrow> holds (\<lambda>_. True) (m \<bind> f) Q"
  by (rule holds_bind [of _ _ "\<lambda>_ _. True"]) (simp_all add: holds_def split: prod.split)

lemma finish_confirmed:
  assumes "run_state (finish (adapter_worker A W) i s code True) w = (None, w')"
  shows "dev_quarantined (device (store w')) \<or> device_clean A i (store w')"
proof -
  let ?Q = "\<lambda>r w. r = None \<longrightarrow> dev_quarantined (device (store w)) \<or> device_clean A i (store w)"
  let ?C = "\<lambda>review w. \<not> review \<longrightarrow> device_clean A i (store w)"
  have clean: "holds (\<lambda>_. True) (cleanupDevice (adapter_worker A W) i \<bind> (\<lambda>ok. ret (\<not> ok))) ?C"
    by (rule holds_bind [OF cleanupDevice_confirmed]) (simp add: holds_def)
  have conclude: "holds (?C review) (conclude (adapter_worker A W) i) ?Q" if "\<not> review" for review
    by (rule holdsI) (use keepsD [OF keeps_clean [OF keeps_ops_conclude]] that in blast)
  have fail: "holds (\<lambda>_. True) (ret (Some e)) ?Q" for e by (simp add: holds_def)
  have "holds (\<lambda>_. True) (finish (adapter_worker A W) i s code True) ?Q"
    unfolding finish_def if_True
    by (intro holds_skip holds_sum fail holds_bind [OF clean] holds_if quarantine_sets conclude)
  from holdsD [OF this TrueI assms] show ?thesis by simp
qed

text \<open>
  C16. A job that did device work cannot finish by itself unless the device is known to be clean: when
  \<open>finish\<close> with a required review returns without an error, then in the database it leaves behind either the
  device is quarantined, or operations are recorded for this very job and the library confirmed the cleanup
  of each of them without an error.
\<close>

theorem finish_needs_confirmation:
  assumes "run_state (finish (adapter_worker A W) i s code True) w = (None, w')"
  shows "dev_quarantined (device (store w')) \<or> device_clean A i (store w')"
  using finish_confirmed [OF assms] .

section \<open>Every recorded operation is accounted for\<close>

text \<open>Between the attempts: no operation recorded, or those of the job confirmed clean.\<close>

definition clean_so_far :: "adapter \<Rightarrow> string \<Rightarrow> operation list \<Rightarrow> db \<Rightarrow> bool" where
  "clean_so_far A i ops d \<longleftrightarrow> operations d = ops \<or> device_clean A i d"

text \<open>After them: the same, or a review is asked for.\<close>

definition accounted :: "adapter \<Rightarrow> string \<Rightarrow> operation list \<Rightarrow> engine_result \<times> error \<Rightarrow> world \<Rightarrow> bool" where
  "accounted A i ops x w \<longleftrightarrow> snd (snd (decide (fst x) (snd x))) \<or> clean_so_far A i ops (store w)"

lemma so_far_ops: "operations d' = operations d \<Longrightarrow> clean_so_far A i ops d' = clean_so_far A i ops d"
  using device_clean_ops [of d' d A i] by (simp add: clean_so_far_def)

lemma keeps_so_far:
  assumes "\<And>os. keeps (ops_are os) m"
  shows "keeps (on_store (clean_so_far A i ops)) m"
  by (rule keepsI) (use so_far_ops [OF same_ops [OF assms]] in simp)

lemma stable_so_far: "db_stable (clean_so_far A i ops)"
  unfolding db_stable_def by (intro allI impI) (use so_far_ops [OF api_tx_operations] in simp)

lemma late_review: "late_outcome ops i x d \<Longrightarrow> snd (snd (decide (fst x) (snd x)))"
  by (cases x) (auto simp: decide_def split: option.splits)

lemma early_not_retried:
  "early_outcome ops (res, err) d \<Longrightarrow> Option.bind err as_failure = Some (code, retry, needs) \<Longrightarrow> \<not> retry"
  by auto

lemma late_needs:
  "late_outcome ops i (res, err) d \<Longrightarrow> Option.bind err as_failure = Some (code, retry, needs) \<Longrightarrow> needs"
  by (auto split: option.splits)

text \<open>One attempt: it recorded nothing, or it asks for a review.\<close>

lemma attempt_accounted:
  assumes "\<And>p g. db_stable p \<Longrightarrow> keeps (on_store p) (rq_progress rq g)" "rq_id rq = i"
    and "clean_so_far A i ops (store w)" "run_state (Adapter_Decrypt A c rq) w = ((res, err), w')"
  shows "accounted A i ops (res, err) w'"
proof -
  consider (early) "early_outcome (operations (store w)) (res, err) (store w')"
    | (late) "late_outcome (operations (store w)) i (res, err) (store w')"
    using holdsD [OF decrypt_outcome [OF assms(1)] refl assms(4)] assms(2) by blast
  then show ?thesis
  proof cases
    case early
    then have "clean_so_far A i ops (store w')"
      using assms(3) so_far_ops [of "store w'" "store w" A i ops] by simp
    then show ?thesis by (simp add: accounted_def)
  next
    case late
    then show ?thesis using late_review by (auto simp: accounted_def)
  qed
qed

lemma attempts_accounted:
  assumes "rq_id rq = i" "\<And>p g. db_stable p \<Longrightarrow> keeps (on_store p) (rq_progress rq g)"
  shows "accounted A i ops prev w \<Longrightarrow>
    run_state (attempts_loop (adapter_worker A W) c rq k a prev) w = (x, w') \<Longrightarrow>
    clean_so_far A i ops (store w) \<Longrightarrow> accounted A i ops x w'"
proof (induction k arbitrary: a prev w)
  case (Suc k)
  obtain res err w1 where dec: "run_state (Adapter_Decrypt A c rq) w = ((res, err), w1)"
    by (metis surj_pair)
  have now: "accounted A i ops (res, err) w1"
    by (rule attempt_accounted [OF assms(2,1) Suc.prems(3) dec])
  show ?case
  proof (cases "Option.bind err as_failure")
    case None
    then show ?thesis using Suc.prems(2) dec now by (auto simp: adapter_engine_def)
  next
    case (Some f)
    obtain code retry needs where f: "f = (code, retry, needs)" by (cases f)
    show ?thesis
    proof (cases "\<not> retry \<or> k = 0")
      case True
      then show ?thesis using Suc.prems(2) dec now Some f by (auto simp: adapter_engine_def)
    next
      case False
      then have late: "late_outcome (operations (store w)) i (res, err) (store w1)" and needs: needs
        using holdsD [OF decrypt_outcome [OF assms(2)] refl dec] assms(1) early_not_retried late_needs Some f
        by blast+
      have review: "accounted A i ops (res, err) v" for v
        using late_review [OF late] by (simp add: accounted_def)
      obtain e w2 where ctx: "run_state (ctx_Err c) w1 = (e, w2)" by fastforce
      obtain ok w3 where cl: "run_state (cleanupDevice (adapter_worker A W) i) w2 = (ok, w3)" by fastforce
      show ?thesis
      proof (cases "e \<noteq> None \<or> \<not> ok")
        case True
        then show ?thesis
          using Suc.prems(2) dec Some f False ctx cl needs assms(1) review
          by (auto simp: adapter_engine_def split: if_splits)
      next
        case goes_on: False
        then have "device_clean A i (store w3)" using holdsD [OF cleanupDevice_confirmed TrueI cl] by simp
        then have w3: "clean_so_far A i ops (store w3)" by (simp add: clean_so_far_def)
        obtain r w4 where retry: "run_state (Jobs_Retry i) w3 = (r, w4)" by fastforce
        have w4: "clean_so_far A i ops (store w4)"
          by (rule keepsD [OF keeps_so_far [OF keeps_ops_calls(5)] w3 retry])
        obtain err2 w5 where bo: "run_state (backoff c ((if wk_retry_delay W = 0 then second else wk_retry_delay W) * 2 ^ (a - 1)) err) w4 = (err2, w5)"
          by fastforce
        have w5: "clean_so_far A i ops (store w5)"
          by (rule keepsD [OF keeps_backoff [OF stable_so_far] w4 bo])
        obtain y w6 where y: "run_state (ctx_Err c) w5 = (y, w6)" by fastforce
        have w6: "clean_so_far A i ops (store w6)"
          by (rule keepsD [OF keeps_ctx_Err [OF stable_so_far] w5 y])
        note unfolded = Suc.prems(2) dec Some f False ctx cl needs assms(1) goes_on retry bo y
        show ?thesis
        proof (cases r)
          case (Inl e)
          then have "x = (res, Some e)" "w' = w4" using unfolded by (auto simp: adapter_engine_def adapter_worker_def)
          then show ?thesis using w4 by (simp add: accounted_def)
        next
          case (Inr u)
          then have "(x, w') = ((res, err2), w6) \<or>
              run_state (attempts_loop (adapter_worker A W) c rq k (a + 1) (res, err2)) w6 = (x, w')"
            using unfolded by (auto simp: adapter_engine_def adapter_worker_def split: if_splits)
          then show ?thesis using Suc.IH w6 by (auto simp: accounted_def)
        qed
      qed
    qed
  qed
qed simp

lemma settle_accounted:
  assumes "accounted A i ops (result, err) w"
    "run_state (settle (adapter_worker A W) i c ws result err) w = (None, w')"
  shows "dev_quarantined (device (store w')) \<or> clean_so_far A i ops (store w')"
proof (cases "snd (snd (decide result err))")
  case False
  then have "clean_so_far A i ops (store w)" using assms(1) by (simp add: accounted_def)
  then show ?thesis using keepsD [OF keeps_so_far [OF keeps_ops_settle] _ assms(2)] by blast
next
  case True
  then obtain s code where d: "decide result err = (s, code, True)"
    by (cases "decide result err") auto
  let ?Q = "\<lambda>r w. r = None \<longrightarrow> dev_quarantined (device (store w)) \<or> device_clean A i (store w)"
  have fin: "holds (\<lambda>_. True) (finish (adapter_worker A W) i t cod True) ?Q" for t cod
    by (rule holdsI) (auto dest: finish_confirmed)
  have fail: "holds (\<lambda>_. True) (ret (Some e)) ?Q" for e by (simp add: holds_def)
  have "holds (\<lambda>_. True) (settle (adapter_worker A W) i c ws result err) ?Q"
    unfolding settle_def d Let_def prod.case
    by (intro holds_skip holds_sum fail holds_prod holds_if fin)
  from holdsD [OF this TrueI assms(2)] show ?thesis by (auto simp: clean_so_far_def)
qed

text \<open>
  C5. No device work is forgotten: when the run of a job comes to its end without an error, then in the
  database it leaves behind either it recorded no operation at all, or the device is quarantined for review,
  or the library has confirmed, without an error, the cleanup of every operation recorded for this job,
  through all attempts, failures, timeouts and cancellations.
\<close>

theorem device_work_accounted:
  assumes "run_state (run_job (adapter_worker A W) j) w = (None, w')"
  shows "operations (store w') = operations (store w) \<or> dev_quarantined (device (store w'))
    \<or> device_clean A (job_id j) (store w')"
proof -
  let ?W = "adapter_worker A W" and ?ops = "operations (store w)" and ?i = "job_id j"
  let ?S = "on_store (clean_so_far A ?i ?ops)"
  let ?Q = "\<lambda>r w. r = None \<longrightarrow> dev_quarantined (device (store w)) \<or> clean_so_far A ?i ?ops (store w)"
  have fin: "holds ?S (finish ?W ?i Cancelled '''' False) ?Q"
    by (rule holds_post [OF keeps_holds [OF keeps_so_far [OF keeps_ops_finish]]]) simp
  have fail: "holds P (ret (Some e)) ?Q" for P e by (simp add: holds_def)
  have attempts: "holds ?S (attempts_loop ?W c rq k 1 (no_result, None)) (accounted A ?i ?ops)"
    if "rq_id rq = ?i" "rq_progress rq = emit" for c rq k
    by (rule holdsI, rule attempts_accounted [OF that(1)])
      (auto simp: accounted_def that(2) intro: keeps_emit)
  have settle: "holds (accounted A ?i ?ops (result, err)) (settle ?W ?i c ws result err) ?Q" for c ws result err
    by (rule holdsI) (use settle_accounted in blast)
  have stop: "holds (accounted A ?i ?ops x) stop_monitor (\<lambda>_. accounted A ?i ?ops x)" for x
    using keepsD [OF keeps_monitor(2) [OF stable_so_far [of A ?i ?ops]]]
    by (intro holdsI) (auto simp: accounted_def)
  have core: "holds ?S (attempts_loop ?W c rq k 1 (no_result, None) \<bind>
      (\<lambda>(result, err). stop_monitor \<bind> (\<lambda>m. case m of Some e \<Rightarrow> ret (Some e)
         | None \<Rightarrow> settle ?W ?i c ws result err))) ?Q"
    if "rq_id rq = ?i" "rq_progress rq = emit" for c rq k ws
    by (intro holds_bind [OF attempts [OF that]] holds_prod holds_option)
      (auto intro!: holds_bind [OF stop] holds_option fail settle)
  have "holds ?S (run_job ?W j) ?Q"
    unfolding run_job_def Let_def
    by (intro holds_if fin fail holds_keep [OF keeps_Workspace] holds_keep [OF keeps_time_now]
        holds_keep [OF keeps_monitor(1)] holds_sum stable_so_far core)
      simp_all
  moreover have "?S w" by (simp add: clean_so_far_def)
  ultimately show ?thesis using holdsD [OF _ _ assms] by (fastforce simp: clean_so_far_def)
qed

section \<open>Shutdown\<close>

lemma act_shutdown: "shutdown w \<Longrightarrow> shutdown (act a w)"
  by (cases a)
    (auto simp: commit_def monitor_tick_def monitor_stop_def Let_def split: sum.split option.split)

lemma env_step_shutdown:
  assumes "run_state env_step w = (s, w')" "shutdown w"
  shows "shutdown w'"
proof -
  have "shutdown (fold act as v)" if "shutdown v" for as v
    using that by (induction "as" arbitrary: v) (auto intro: act_shutdown)
  then show ?thesis
    using assms by (auto simp: env_step_def next_slot_def Let_def split: if_splits list.splits)
qed

text \<open>
  C19. Once the process context is cancelled the loop returns without an error at its next iteration and
  starts no further job, with any queue and any runner.
\<close>

theorem scheduler_stops:
  assumes "shutdown w"
  shows "fst (run_state (scheduler (Suc n) q r) w) = Some None
    \<and> store (snd (run_state (scheduler (Suc n) q r) w)) = store (snd (run_state env_step w))"
proof -
  obtain s w1 where step: "run_state env_step w = (s, w1)" by fastforce
  then have "shutdown w1" using assms by (rule env_step_shutdown)
  then show ?thesis by (simp add: sched_iter_def step gets_def)
qed

end
