(* ===== verification/Http.thy ===== *)
theory Http
  imports Validation Service
begin

text \<open>
  The HTTP API (\<open>internal/httpapi/server.go\<close>): the guards in front of the router, the routes, and the
  handlers as programs on the world. The JSON decoders, the media-type and URL parsers are parameters
  (\<open>http_lib\<close>); a request carries the header fields the code reads, its escaped path and its body, with a
  flag when the body breaks off. A response is a status, header fields and a \<open>reply\<close>, the value that is
  encoded. \<open>Resolve\<close> is the worker's, as \<open>main\<close> wires it.
\<close>

section \<open>Requests and responses\<close>

record http_lib =
  hl_url :: "string \<Rightarrow> url option"
  hl_lower :: "string \<Rightarrow> string"
  hl_media :: "string \<Rightarrow> string option"
  hl_enqueue :: "string \<Rightarrow> (string \<times> string \<times> bool) option"
  hl_empty :: "string \<Rightarrow> unit option"
  hl_code :: "string \<Rightarrow> string option"
  hl_confirm :: "string \<Rightarrow> bool option"
  hl_text :: "go_error \<Rightarrow> string"
  hl_index :: bool
  hl_static :: "string \<Rightarrow> string \<Rightarrow> nat \<times> string"

record request =
  hq_method :: string
  hq_host :: string
  hq_escaped :: string
  hq_tls :: bool
  hq_app :: string
  hq_origin :: string
  hq_content_type :: string
  hq_ack :: string
  hq_data :: string
  hq_broken :: bool

text \<open>The fields of a job its JSON encoding shows; the columns tagged \<open>json:"-"\<close> are left out.\<close>

record job_view =
  vw_id :: string
  vw_target :: string
  vw_source :: string
  vw_state :: string
  vw_phase :: string
  vw_attempts :: int
  vw_cancel :: bool
  vw_error :: "string \<times> string \<times> string"
  vw_apps :: "bool \<times> bool \<times> bool"
  vw_progress :: "int \<times> int"
  vw_artifact :: "int \<times> string \<times> string \<times> string"
  vw_times :: "int \<times> int \<times> int option"
  vw_expired :: bool

definition view_of :: "job \<Rightarrow> job_view" where
  "view_of j = \<lparr>vw_id = job_id j, vw_target = job_target j, vw_source = job_source j,
     vw_state = state_string (job_state j), vw_phase = job_phase j, vw_attempts = attempts j,
     vw_cancel = cancel_requested j, vw_error = (error_code j, error_message j, cleanup_error j),
     vw_apps = (job_installed j, job_replaced j, job_uninstalled j), vw_progress = (job_current j, job_total j),
     vw_artifact = (job_bytes j, job_sha256 j, job_bundle_id j, job_version j),
     vw_times = (created_at j, updated_at j, expires_at j), vw_expired = artifact_expired j\<rparr>"

datatype reply =
    Problem string string
  | JobReply job_view
  | JobsReply "job_view list"
  | StatusReply string bool string string bool int int
  | CancelReply
  | NoContent
  | FileReply string string
  | RedirectReply string
  | UIReply string
  | TextReply string

record response =
  rs_status :: nat
  rs_headers :: "(string \<times> string) list"
  rs_body :: reply

definition respond :: "nat \<Rightarrow> reply \<Rightarrow> response" where
  "respond status v = \<lparr>rs_status = status, rs_headers = [(''Content-Type'', ''application/json'')], rs_body = v\<rparr>"

definition problem :: "nat \<Rightarrow> string \<Rightarrow> string \<Rightarrow> response" where
  "problem status code message = respond status (Problem code message)"

definition bare :: "nat \<Rightarrow> reply \<Rightarrow> response" where
  "bare status v = \<lparr>rs_status = status, rs_headers = [], rs_body = v\<rparr>"

definition storeError :: "go_error \<Rightarrow> response" where
  "storeError e =
     (if errors_is e ErrRecordNotFound then problem 404 ''not_found'' ''Job not found.''
      else if errors_is e ErrConflict then problem 409 ''state_conflict'' ''The job no longer accepts that action.''
      else if errors_is e ErrQueueFull then problem 429 ''queue_full'' ''The queue is full. Wait for a job to finish.''
      else problem 500 ''storage_error'' ''The operation could not be persisted.'')"

text \<open>
  \<open>decode\<close>: one JSON value of at most 4096 bytes without unknown fields and nothing after it. A body that
  is longer or breaks off never ends in \<open>io.EOF\<close>.
\<close>

definition decode :: "http_lib \<Rightarrow> request \<Rightarrow> (string \<Rightarrow> 'a option) \<Rightarrow> response + 'a" where
  "decode L q parse =
     (if hl_media L (hq_content_type q) \<noteq> Some ''application/json''
      then Inl (problem 415 ''invalid_type'' ''Use application/json.'')
      else case (if 4096 < length (hq_data q) \<or> hq_broken q then None else parse (hq_data q)) of
        None \<Rightarrow> Inl (problem 400 ''invalid_request'' ''The request body is invalid.'')
      | Some v \<Rightarrow> Inr v)"

section \<open>Download names\<close>

definition name_char :: "char \<Rightarrow> bool" where
  "name_char c = in_ranges [(CHR ''a'', CHR ''z''), (CHR ''A'', CHR ''Z''), (CHR ''0'', CHR ''9''), (CHR ''.'', CHR ''.'')] c"

text \<open>\<open>for _, r := range s\<close>: a rune, or one byte where no rune starts.\<close>

function safe_runes :: "string \<Rightarrow> string" where
  "safe_runes s =
     (if s = [] then []
      else (if name_char (hd s) then hd s else CHR ''-'') # safe_runes (drop (max 1 (rune_len s)) s))"
  by pat_completeness auto
termination by (relation "measure length") auto

declare safe_runes.simps [simp del]

definition sanitizeNamePart :: "string \<Rightarrow> string" where
  "sanitizeNamePart s = Trim (safe_runes s) ''.-''"

definition downloadName :: "job \<Rightarrow> string" where
  "downloadName j =
     (let parts = filter (\<lambda>s. s \<noteq> '''') (map sanitizeNamePart [job_bundle_id j, job_version j]);
          joined = join_with ''-'' parts;
          name = (if joined = '''' then job_id j else joined)
      in (if 150 < length name then take 150 name else name) @ ''.ipa'')"

section \<open>Handlers\<close>

record server =
  sv_hosts :: "string list"
  sv_origin :: string
  sv_worker :: worker
  sv_max_upload :: int
  sv_queue_limit :: int
  sv_apple :: bool
  sv_lib :: http_lib
  sv_enabled :: "log_level \<Rightarrow> bool"

abbreviation "sv_root S \<equiv> wk_root (sv_worker S)"

definition handle_status :: "server \<Rightarrow> response io" where
  "handle_status S = do {
     d \<leftarrow> Jobs_Device;
     case d of
       Inl e \<Rightarrow> ret (problem 500 ''storage_error'' ''Unable to read device status.'')
     | Inr v \<Rightarrow> do {
         pending \<leftarrow> gets (\<lambda>w. Pending (broker w));
         ret (respond 200 (StatusReply (dev_owner v) (dev_quarantined v) (dev_reason v) pending
                (sv_apple S) (sv_max_upload S) (sv_queue_limit S))) } }"

definition handle_list :: "server \<Rightarrow> response io" where
  "handle_list S = do {
     r \<leftarrow> Jobs_List;
     ret (case r of
        Inl e \<Rightarrow> problem 500 ''storage_error'' ''Unable to read jobs.''
      | Inr js \<Rightarrow> respond 200 (JobsReply (map view_of js))) }"

definition handle_enqueue :: "server \<Rightarrow> request \<Rightarrow> response io" where
  "handle_enqueue S q =
     (case decode (sv_lib S) q (hl_enqueue (sv_lib S)) of
        Inl r \<Rightarrow> ret r
      | Inr (target, source, allow) \<Rightarrow>
          (case ValidateTarget (hl_url (sv_lib S)) (hl_lower (sv_lib S)) target source of
             Inl e \<Rightarrow> ret (problem 400 ''invalid_target'' (error_text (hl_text (sv_lib S)) e))
           | Inr t \<Rightarrow>
               if source = ''app-store'' \<and> (\<not> sv_apple S \<or> \<not> allow)
               then ret (problem 400 ''app_store_unavailable'' ''Configure an Apple account and acknowledge replacement and automatic uninstall.'')
               else do {
                 r \<leftarrow> db_tx (\<lambda>now n. store_Enqueue now (new_job (NewID n) t source) (sv_queue_limit S));
                 ret (case r of Inl e \<Rightarrow> storeError e | Inr j \<Rightarrow> respond 202 (JobReply (view_of j))) }))"

text \<open>
  \<open>io.Copy\<close> of the limited body: whatever arrives is written; more than the limit, a broken body and
  a failing write end it with an error.
\<close>

definition receive_body :: "server \<Rightarrow> request \<Rightarrow> path \<Rightarrow> (response + unit) io" where
  "receive_body S q p = do {
     w \<leftarrow> sys (os_Write p (take (nat (sv_max_upload S)) (hq_data q)));
     ret (case w of
        Inl e \<Rightarrow> Inl (problem 400 ''upload_failed'' ''The upload was interrupted.'')
      | Inr _ \<Rightarrow>
          if sv_max_upload S < int (length (hq_data q))
          then Inl (problem 413 ''upload_too_large'' ''The IPA exceeds the configured upload limit.'')
          else if hq_broken q then Inl (problem 400 ''upload_failed'' ''The upload was interrupted.'')
          else Inr ()) }"

definition unsaved :: response where
  "unsaved = problem 500 ''storage_error'' ''Unable to save upload.''"

text \<open>The part of \<open>upload\<close> after the body has arrived: durable file, inspection, durable entry, admission.\<close>

definition admit_upload :: "server \<Rightarrow> string \<Rightarrow> path \<Rightarrow> (response + response) io" where
  "admit_upload S i p = do {
     s \<leftarrow> sys (os_Sync p);
     case s of Inl e \<Rightarrow> ret (Inl unsaved) | Inr _ \<Rightarrow> do {
     c \<leftarrow> sys os_Close;
     case c of Inl e \<Rightarrow> ret (Inl unsaved) | Inr _ \<Rightarrow> do {
     v \<leftarrow> ValidateIPA (wk_archives (sv_worker S)) p (word_of_int (sv_max_upload S) * 4);
     case v of
       Some e \<Rightarrow> ret (Inl (problem 400 ''invalid_archive'' (error_text (hl_text (sv_lib S)) e)))
     | None \<Rightarrow> do {
     y \<leftarrow> SyncInputs (sv_root S);
     case y of
       Some e \<Rightarrow> ret (Inl (problem 500 ''storage_error'' ''Unable to persist upload.''))
     | None \<Rightarrow> do {
     r \<leftarrow> db_tx (\<lambda>now n. store_Enqueue now (new_job i ''Uploaded IPA'' ''upload'') (sv_queue_limit S));
     ret (case r of Inl e \<Rightarrow> Inl (storeError e) | Inr j \<Rightarrow> Inr (respond 202 (JobReply (view_of j)))) } } } } }"

definition accept_upload :: "server \<Rightarrow> request \<Rightarrow> string \<Rightarrow> path \<Rightarrow> (response + response) io" where
  "accept_upload S q i p = check (receive_body S q p) (\<lambda>_. admit_upload S i p)"

definition upload_locked :: "server \<Rightarrow> request \<Rightarrow> response io" where
  "upload_locked S q =
     (if hq_ack q \<noteq> ''true''
      then ret (problem 400 ''acknowledgement_required'' ''Confirm the device replacement and automatic uninstall policy.'')
      else if hl_media (sv_lib S) (hq_content_type q) \<noteq> Some ''application/octet-stream''
      then ret (problem 415 ''invalid_type'' ''Upload the raw IPA as application/octet-stream.'')
      else do {
        n \<leftarrow> gets (\<lambda>w. random (fst (next_slot w)));
        let i = NewID n;
        let p = sv_root S @ [''inputs'', i];
        f \<leftarrow> sys (os_CreateExcl p perm_file);
        case f of
          Inl e \<Rightarrow> ret (problem 500 ''storage_error'' ''Unable to receive upload.'')
        | Inr _ \<Rightarrow> do {
            r \<leftarrow> accept_upload S q i p;
            case r of
              Inr ok \<Rightarrow> ret ok
            | Inl bad \<Rightarrow> do { _ \<leftarrow> Remove (sv_root S) ''inputs'' i; ret bad } } })"

definition handle_upload :: "server \<Rightarrow> request \<Rightarrow> response io" where
  "handle_upload S q = do {
     env_step;
     busy \<leftarrow> gets uploading;
     if busy then ret (problem 429 ''upload_busy'' ''Another upload is in progress.'')
     else do {
       live (\<lambda>w. w\<lparr>uploading := True\<rparr>);
       r \<leftarrow> upload_locked S q;
       live (\<lambda>w. w\<lparr>uploading := False\<rparr>);
       ret r } }"

definition lookup_job :: "string \<Rightarrow> (response + job) io" where
  "lookup_job i =
     (if \<not> ValidID i then ret (Inl (problem 404 ''not_found'' ''Job not found.''))
      else do {
        r \<leftarrow> Jobs_Get i;
        ret (case r of Inl e \<Rightarrow> Inl (storeError e) | Inr j \<Rightarrow> Inr j) })"

definition with_job :: "string \<Rightarrow> (job \<Rightarrow> response io) \<Rightarrow> response io" where
  "with_job i k = do {
     r \<leftarrow> lookup_job i;
     case r of Inl p \<Rightarrow> ret p | Inr j \<Rightarrow> k j }"

definition with_body :: "response + 'a \<Rightarrow> ('a \<Rightarrow> response io) \<Rightarrow> response io" where
  "with_body b k = (case b of Inl p \<Rightarrow> ret p | Inr v \<Rightarrow> k v)"

definition handle_get :: "server \<Rightarrow> string \<Rightarrow> response io" where
  "handle_get S i = with_job i (\<lambda>j. ret (respond 200 (JobReply (view_of j))))"

definition handle_cancel :: "server \<Rightarrow> request \<Rightarrow> string \<Rightarrow> response io" where
  "handle_cancel S q i =
     with_body (decode (sv_lib S) q (hl_empty (sv_lib S))) (\<lambda>_. with_job i (\<lambda>j. do {
       r \<leftarrow> Jobs_Cancel (job_id j);
       ret (case r of Inl e \<Rightarrow> storeError e | Inr _ \<Rightarrow> respond 202 CancelReply) }))"

definition submit_code :: "string \<Rightarrow> string \<Rightarrow> (go_error + unit) io" where
  "submit_code i code = do {
     env_step;
     State (\<lambda>w. case Submit i code (broker w) of
        Inl e \<Rightarrow> (Inl e, w)
      | Inr b \<Rightarrow> (Inr (), if crashed w then w else w\<lparr>broker := b\<rparr>)) }"

definition handle_authCode :: "server \<Rightarrow> request \<Rightarrow> string \<Rightarrow> response io" where
  "handle_authCode S q i =
     with_job i (\<lambda>j. with_body (decode (sv_lib S) q (hl_code (sv_lib S))) (\<lambda>code. do {
       r \<leftarrow> submit_code (job_id j) code;
       ret (case r of
          Inl e \<Rightarrow> problem 409 ''invalid_challenge'' (error_text (hl_text (sv_lib S)) e)
        | Inr _ \<Rightarrow> bare 204 NoContent) }))"

definition handle_confirm :: "server \<Rightarrow> request \<Rightarrow> string \<Rightarrow> response io" where
  "handle_confirm S q i =
     with_job i (\<lambda>j. with_body (decode (sv_lib S) q (hl_confirm (sv_lib S))) (\<lambda>confirmed.
       if \<not> confirmed
       then ret (problem 400 ''confirmation_required'' ''Confirm that you inspected the device and completed cleanup.'')
       else do {
         e \<leftarrow> Resolve (sv_worker S) (job_id j);
         ret (case e of Some x \<Rightarrow> storeError x | None \<Rightarrow> bare 204 NoContent) }))"

definition handle_download :: "server \<Rightarrow> string \<Rightarrow> response io" where
  "handle_download S i =
     with_job i (\<lambda>j. do {
       now \<leftarrow> time_now;
       if job_state j \<noteq> Completed \<or> artifact_expired j
          \<or> (case expires_at j of None \<Rightarrow> True | Some t \<Rightarrow> t < now)
       then ret (problem 409 ''artifact_unavailable'' ''No retained, completed artifact is available.'')
       else do {
         let p = sv_root S @ [''artifacts'', job_id j];
         info \<leftarrow> sys (os_Lstat p);
         case info of
           Inl e \<Rightarrow> ret (problem 404 ''artifact_unavailable'' ''Artifact is unavailable.'')
         | Inr n \<Rightarrow>
             if node_type n \<noteq> Regular then ret (problem 404 ''artifact_unavailable'' ''Artifact is unavailable.'')
             else do {
               f \<leftarrow> sys (os_ReadFile p);
               ret (case f of
                  Inl e \<Rightarrow> problem 404 ''artifact_unavailable'' ''Artifact is unavailable.''
                | Inr content \<Rightarrow>
                    \<lparr>rs_status = 200,
                     rs_headers = [(''Content-Type'', ''application/octet-stream''),
                       (''Content-Disposition'', ''attachment; filename='' @ [CHR 0x22] @ downloadName j @ [CHR 0x22])],
                     rs_body = FileReply (downloadName j) content\<rparr>) } } })"

section \<open>Routing\<close>

text \<open>\<open>url.PathUnescape\<close>: a malformed escape leaves the whole segment as it is.\<close>

definition hex_value :: "char \<Rightarrow> nat option" where
  "hex_value c =
     (let n = (of_char c :: nat)
      in if 48 \<le> n \<and> n \<le> 57 then Some (n - 48)
         else if 97 \<le> n \<and> n \<le> 102 then Some (n - 87)
         else if 65 \<le> n \<and> n \<le> 70 then Some (n - 55) else None)"

fun unescape_bytes :: "string \<Rightarrow> string option" where
  "unescape_bytes [] = Some []"
| "unescape_bytes (c # s) =
     (if c \<noteq> CHR ''%'' then map_option (\<lambda>t. c # t) (unescape_bytes s)
      else case s of
        a # b # r \<Rightarrow>
          (case (hex_value a, hex_value b) of
             (Some m, Some n) \<Rightarrow> map_option (\<lambda>t. char_of (16 * m + n) # t) (unescape_bytes r)
           | _ \<Rightarrow> None)
      | _ \<Rightarrow> None)"

definition path_unescape :: "string \<Rightarrow> string" where
  "path_unescape s = (case unescape_bytes s of None \<Rightarrow> s | Some t \<Rightarrow> t)"

text \<open>The router's canonical form of a path.\<close>

definition clean_path :: "string \<Rightarrow> string" where
  "clean_path p =
     (let q = (if HasPrefix p ''/'' then p else CHR ''/'' # p); c = path_Clean q
      in if HasSuffix q ''/'' \<and> c \<noteq> ''/'' then c @ ''/'' else c)"

datatype route =
    RouteStatus | RouteList | RouteEnqueue | RouteUpload | RouteGet string | RouteCancel string
  | RouteAuthCode string | RouteConfirm string | RouteDownload string | RouteUnknown | RouteUI
  | RouteRedirect string

definition route_segments :: "string \<Rightarrow> string list \<Rightarrow> route" where
  "route_segments m segs =
     (let get = (m = ''GET'' \<or> m = ''HEAD''); post = (m = ''POST'')
      in case segs of
        [a] \<Rightarrow> if a = ''api'' then RouteRedirect ''/api/'' else RouteUI
      | a # b # rest \<Rightarrow>
          if a \<noteq> ''api'' then RouteUI
          else (case rest of
              [] \<Rightarrow> if b = ''status'' \<and> get then RouteStatus
                    else if b = ''jobs'' \<and> get then RouteList
                    else if b = ''jobs'' \<and> post then RouteEnqueue
                    else if b = ''uploads'' \<and> post then RouteUpload else RouteUnknown
            | [i] \<Rightarrow> if b = ''jobs'' \<and> i \<noteq> '''' \<and> get then RouteGet i else RouteUnknown
            | [i, op] \<Rightarrow>
                if b \<noteq> ''jobs'' \<or> i = '''' then RouteUnknown
                else if op = ''cancel'' \<and> post then RouteCancel i
                else if op = ''auth-code'' \<and> post then RouteAuthCode i
                else if op = ''confirm-cleanup'' \<and> post then RouteConfirm i
                else if op = ''artifact'' \<and> get then RouteDownload i else RouteUnknown
            | _ \<Rightarrow> RouteUnknown)
      | [] \<Rightarrow> RouteUI)"

definition route_of :: "request \<Rightarrow> route" where
  "route_of q =
     (if hq_method q \<noteq> ''CONNECT'' \<and> clean_path (hq_escaped q) \<noteq> hq_escaped q
      then RouteRedirect (clean_path (hq_escaped q))
      else route_segments (hq_method q) (map path_unescape (tl (split_on CHR ''/'' (hq_escaped q)))))"

text \<open>\<open>r.URL.Path\<close>\<close>

definition url_path :: "request \<Rightarrow> string" where
  "url_path q = path_unescape (hq_escaped q)"

text \<open>
  The user interface (\<open>internal/web/web.go\<close>): the file server over the embedded directory is the parameter
  \<open>hl_static\<close>, by method and path; \<open>hl_index\<close> says whether the build embedded an \<open>index.html\<close>.
\<close>

definition web_Handler :: "http_lib \<Rightarrow> request \<Rightarrow> response" where
  "web_Handler L q =
     (if url_path q = ''/'' \<and> \<not> hl_index L
      then \<lparr>rs_status = 503,
        rs_headers = [(''Content-Type'', ''text/plain; charset=utf-8''), (''X-Content-Type-Options'', ''nosniff'')],
        rs_body = TextReply ''Frontend not built. Run make frontend, then rebuild the server.''\<rparr>
      else (case hl_static L (hq_method q) (url_path q) of (status, content) \<Rightarrow> bare status (UIReply content)))"

fun dispatch :: "server \<Rightarrow> request \<Rightarrow> route \<Rightarrow> response io" where
  "dispatch S q RouteStatus = handle_status S"
| "dispatch S q RouteList = handle_list S"
| "dispatch S q RouteEnqueue = handle_enqueue S q"
| "dispatch S q RouteUpload = handle_upload S q"
| "dispatch S q (RouteGet i) = handle_get S i"
| "dispatch S q (RouteCancel i) = handle_cancel S q i"
| "dispatch S q (RouteAuthCode i) = handle_authCode S q i"
| "dispatch S q (RouteConfirm i) = handle_confirm S q i"
| "dispatch S q (RouteDownload i) = handle_download S i"
| "dispatch S q RouteUnknown = ret (problem 404 ''not_found'' ''Endpoint not found.'')"
| "dispatch S q RouteUI = ret (web_Handler (sv_lib S) q)"
| "dispatch S q (RouteRedirect p) = ret (bare 307 (RedirectReply p))"

section \<open>The guards\<close>

definition quote :: string where
  "quote = [CHR 0x27]"

definition security_headers :: "request \<Rightarrow> (string \<times> string) list" where
  "security_headers q =
     (let self = quote @ ''self'' @ quote; none = quote @ ''none'' @ quote
      in [(''X-Content-Type-Options'', ''nosniff''), (''Referrer-Policy'', ''no-referrer''), (''X-Frame-Options'', ''DENY''),
          (''Content-Security-Policy'', ''default-src '' @ self @ ''; style-src '' @ self @ ''; script-src '' @ self
             @ ''; img-src '' @ self @ '' data:; connect-src '' @ self @ ''; frame-ancestors '' @ none
             @ ''; base-uri '' @ none @ ''; form-action '' @ self)]
         @ (if HasPrefix (url_path q) ''/api/'' then [(''Cache-Control'', ''no-store'')] else []))"

definition add_headers :: "(string \<times> string) list \<Rightarrow> response \<Rightarrow> response" where
  "add_headers hs r = r\<lparr>rs_headers := hs @ rs_headers r\<rparr>"

definition host_allowed :: "server \<Rightarrow> request \<Rightarrow> bool" where
  "host_allowed S q \<longleftrightarrow> length (sv_hosts S) = 0 \<or> list_ex (\<lambda>h. hq_host q = h) (sv_hosts S)"

definition mutation :: "request \<Rightarrow> bool" where
  "mutation q \<longleftrightarrow> hq_method q \<noteq> ''GET'' \<and> hq_method q \<noteq> ''HEAD'' \<and> hq_method q \<noteq> ''OPTIONS''"

definition expected_origin :: "server \<Rightarrow> request \<Rightarrow> string" where
  "expected_origin S q =
     (if sv_origin S = '''' then (if hq_tls q then ''https'' else ''http'') @ ''://'' @ hq_host q else sv_origin S)"

definition origin_allowed :: "server \<Rightarrow> request \<Rightarrow> bool" where
  "origin_allowed S q \<longleftrightarrow> hq_origin q = '''' \<or>
     (case hl_url (sv_lib S) (hq_origin q) of None \<Rightarrow> False | Some u \<Rightarrow> u_string u = expected_origin S q)"

definition serve :: "server \<Rightarrow> request \<Rightarrow> response io" where
  "serve S q =
     (if \<not> host_allowed S q then ret (problem 403 ''host_denied'' ''Use the configured service address.'')
      else do {
        r \<leftarrow> (if mutation q \<and> hq_app q \<noteq> ''1''
              then ret (problem 403 ''origin_denied'' ''A same-origin application request is required.'')
              else if mutation q \<and> \<not> origin_allowed S q
              then ret (problem 403 ''origin_denied'' ''Cross-origin requests are not allowed.'')
              else dispatch S q (route_of q));
        ret (add_headers (security_headers q) r) })"

section \<open>The request log\<close>

text \<open>
  One line for every rejected request and every request of the API, when the logger is enabled for its
  level; \<open>statusWriter\<close> remembers the status the handler wrote.
\<close>

record log_line =
  ln_level :: log_level
  ln_message :: string
  ln_method :: string
  ln_path :: string
  ln_status :: "nat option"

definition response_level :: "nat \<Rightarrow> log_level" where
  "response_level status =
     (if 500 \<le> status then LevelError else if 400 \<le> status then LevelWarn else LevelDebug)"

definition log_at :: "server \<Rightarrow> request \<Rightarrow> log_level \<Rightarrow> string \<Rightarrow> nat option \<Rightarrow> log_line option" where
  "log_at S q level message status =
     (if sv_enabled S level
      then Some \<lparr>ln_level = level, ln_message = message, ln_method = hq_method q, ln_path = url_path q, ln_status = status\<rparr>
      else None)"

definition request_log :: "server \<Rightarrow> request \<Rightarrow> response \<Rightarrow> log_line option" where
  "request_log S q r =
     (if \<not> host_allowed S q then log_at S q LevelWarn ''request rejected by host check'' None
      else if mutation q \<and> hq_app q \<noteq> ''1'' then log_at S q LevelWarn ''mutation rejected by same-origin check'' None
      else if mutation q \<and> \<not> origin_allowed S q then log_at S q LevelWarn ''mutation rejected by origin check'' None
      else if \<not> HasPrefix (url_path q) ''/api/'' then None
      else log_at S q (response_level (rs_status r)) ''api request'' (Some (rs_status r)))"

text \<open>
  Where warnings are visible, an answer to an API request is an error exactly when the request leaves a
  line at warning level or above; the reads the browser repeats stay below.
\<close>

theorem rejections_logged:
  assumes "run_state (serve S q) w = (r, w')" "HasPrefix (url_path q) ''/api/''"
    and "sv_enabled S = (\<lambda>l. c \<le> l)" "c \<le> LevelWarn"
  shows "400 \<le> rs_status r \<longleftrightarrow> (\<exists>l. request_log S q r = Some l \<and> LevelWarn \<le> ln_level l)"
proof -
  have visible: "sv_enabled S l" if "LevelWarn \<le> l" for l using assms(3,4) that by (simp add: order.trans)
  have status: "rs_status r = 403"
    if "\<not> host_allowed S q \<or> mutation q \<and> (hq_app q \<noteq> ''1'' \<or> \<not> origin_allowed S q)"
    using assms(1) that by (auto simp: serve_def problem_def respond_def add_headers_def split: if_splits)
  have level: "LevelWarn \<le> response_level n \<longleftrightarrow> 400 \<le> n" for n
    by (simp add: response_level_def less_eq_log_level_def)
  show ?thesis
    using assms(2) status visible [of LevelWarn] level [of "rs_status r"] visible [of "response_level (rs_status r)"]
    by (auto simp: request_log_def log_at_def)
qed

end
