(* ===== verification/HttpContract.thy ===== *)
theory HttpContract
  imports Http
begin

text \<open>
  What the HTTP API guarantees: its effect on the job store is made of the atomic actions the worker's
  theorems allow for, a request changes something only when it passed the guards, a download shows only
  a retained completed artifact under a harmless name, and an upload leaves a file only for an admitted
  job.
\<close>

section \<open>The handlers are the environment of the worker\<close>

lemma stable_api_runs [simp]: "db_stable (api_tx\<^sup>*\<^sup>* d)"
  unfolding db_stable_def by (meson rtranclp.rtrancl_into_rtrancl)

lemma keeps_api_tx:
  assumes "\<And>now r d a d'. t now r d = Inr (a, d') \<Longrightarrow> d' = d \<or> api_tx d d'"
  shows "keeps (on_store (api_tx\<^sup>*\<^sup>* v)) (db_tx t)"
proof (rule keeps_tx [OF stable_api_runs])
  fix d now r a d' assume "api_tx\<^sup>*\<^sup>* v d" "t now r d = Inr (a, d')"
  then show "api_tx\<^sup>*\<^sup>* v d'" using assms [of now r d a d'] by (auto intro: rtranclp.rtrancl_into_rtrancl)
qed

lemma keeps_api_calls:
  "keeps (on_store (api_tx\<^sup>*\<^sup>* v)) Jobs_Device" "keeps (on_store (api_tx\<^sup>*\<^sup>* v)) Jobs_List"
  "keeps (on_store (api_tx\<^sup>*\<^sup>* v)) (Jobs_Cancel i)" "keeps (on_store (api_tx\<^sup>*\<^sup>* v)) (Jobs_Resolve i)"
  "keeps (on_store (api_tx\<^sup>*\<^sup>* v)) (db_tx (\<lambda>now n. store_Enqueue now (new_job (NewID n) t s) limit))"
  "keeps (on_store (api_tx\<^sup>*\<^sup>* v)) (db_tx (\<lambda>now n. store_Enqueue now (new_job (NewID k) t s) limit))"
  by (rule keeps_api_tx, auto simp: store_Device_def store_List_def intro: api_tx.intros)+

lemma keeps_api_Resolve: "keeps (on_store (api_tx\<^sup>*\<^sup>* v)) (Resolve W i)"
  unfolding Resolve_def by (intro keeps_rules keeps_api_calls stable_api_runs)

lemma keeps_api_SyncInputs [keeps_rules]: "db_stable p \<Longrightarrow> keeps (on_store p) (SyncInputs root)"
  unfolding SyncInputs_def by (intro keeps_rules)

lemma keeps_api_with_job:
  "(\<And>j. keeps (on_store (api_tx\<^sup>*\<^sup>* v)) (k j)) \<Longrightarrow> keeps (on_store (api_tx\<^sup>*\<^sup>* v)) (with_job i k)"
  unfolding with_job_def lookup_job_def by (intro keeps_rules) simp_all

lemma keeps_with_body: "(\<And>x. keeps I (k x)) \<Longrightarrow> keeps I (with_body b k)"
  unfolding with_body_def by (intro keeps_rules)

lemma keeps_api_upload: "keeps (on_store (api_tx\<^sup>*\<^sup>* v)) (handle_upload S q)"
proof -
  have "keeps (on_store (api_tx\<^sup>*\<^sup>* v)) (accept_upload S q (NewID n) p)" for n p
    unfolding accept_upload_def admit_upload_def receive_body_def
    by (intro keeps_rules keeps_api_calls stable_api_runs)
  then show ?thesis
    unfolding handle_upload_def upload_locked_def Let_def
    by (intro keeps_rules stable_api_runs) simp_all
qed

lemma keeps_api_dispatch: "keeps (on_store (api_tx\<^sup>*\<^sup>* v)) (dispatch S q r)"
proof (cases r)
  case RouteStatus
  then show ?thesis by (simp add: handle_status_def) (intro keeps_rules keeps_api_calls)
next
  case RouteList
  then show ?thesis by (simp add: handle_list_def) (intro keeps_rules keeps_api_calls)
next
  case RouteEnqueue
  then show ?thesis by (simp add: handle_enqueue_def) (intro keeps_rules keeps_api_calls)
next
  case RouteUpload
  then show ?thesis by (simp add: keeps_api_upload)
next
  case (RouteGet i)
  then show ?thesis by (simp add: handle_get_def) (intro keeps_rules keeps_api_with_job)
next
  case (RouteCancel i)
  then show ?thesis
    by (simp add: handle_cancel_def) (intro keeps_rules keeps_with_body keeps_api_with_job keeps_api_calls)
next
  case (RouteAuthCode i)
  have "keeps (on_store (api_tx\<^sup>*\<^sup>* v)) (submit_code j c)" for j c
    unfolding submit_code_def by (intro keeps_rules keeps_pure) (simp_all split: sum.split)
  then show ?thesis
    using RouteAuthCode
    by (simp add: handle_authCode_def) (intro keeps_rules keeps_with_body keeps_api_with_job)
next
  case (RouteConfirm i)
  then show ?thesis
    by (simp add: handle_confirm_def) (intro keeps_rules keeps_with_body keeps_api_with_job keeps_api_Resolve)
next
  case (RouteDownload i)
  then show ?thesis
    by (simp add: handle_download_def Let_def) (intro keeps_rules keeps_api_with_job stable_api_runs)
qed (simp_all add: keeps_ret)

lemma serve_environment:
  assumes "run_state (serve S q) w = (r, w')"
  shows "api_tx\<^sup>*\<^sup>* (store w) (store w')"
proof -
  have "keeps (on_store (api_tx\<^sup>*\<^sup>* (store w))) (serve S q)"
    unfolding serve_def by (intro keeps_rules keeps_api_dispatch)
  from keepsD [OF this _ assms] show ?thesis by simp
qed

text \<open>
  C3. Whatever request the API serves, its effect on the job store is a sequence of the atomic actions
  that the theorems about the worker allow other goroutines to take between two of its calls: the model
  of the environment over-approximates the code of the handlers.
\<close>

theorem http_refines_environment:
  assumes "run_state (serve S q) w = (r, w')"
  shows "api_tx\<^sup>*\<^sup>* (store w) (store w')"
  using assms by (rule serve_environment)

section \<open>Only guarded requests change anything\<close>

definition same_data :: "world \<Rightarrow> world \<Rightarrow> bool" where
  "same_data v w \<longleftrightarrow> solo w \<and> store w = store v \<and> files w = files v \<and> broker w = broker v"

lemma same_env_step: "keeps (same_data v) env_step"
proof (rule keepsI)
  fix w s w' assume w: "same_data v w" and run: "run_state env_step w = (s, w')"
  have "store w' = store w \<and> broker w' = broker w"
    using w run
    by (cases "script w")
      (auto simp: same_data_def solo_def env_step_def next_slot_def idle_slot_def Let_def split: if_splits)
  moreover have "solo w' \<and> files w' = files w"
    using w env_step_solo [OF _ run] by (simp add: same_data_def)
  ultimately show "same_data v w'" using w by (simp add: same_data_def)
qed

lemma same_tx:
  assumes "\<And>now r d a d'. t now r d = Inr (a, d') \<Longrightarrow> d' = d"
  shows "keeps (same_data v) (db_tx t)"
  unfolding db_tx_def
proof (rule keeps_bind [OF same_env_step], rule keepsI)
  fix s w a w'
  assume w: "same_data v w" and run: "run_state (State (\<lambda>w. if outcome s \<noteq> Succeed then (Inl ErrDatabase, w)
      else case t (clock w) (random s) (store w) of Inl e \<Rightarrow> (Inl e, w) | Inr (a, d) \<Rightarrow> (Inr a, put_store d w))) w = (a, w')"
  have "put_store (store w) w = w" by (simp add: put_store_def)
  then show "same_data v w'"
    using w run by (auto dest!: assms split: if_splits sum.splits prod.splits)
qed

lemma same_sys:
  assumes "\<And>f a f'. c f = Inr (a, f') \<Longrightarrow> f' = f"
  shows "keeps (same_data v) (sys c)"
  unfolding sys_def
proof (rule keeps_bind [OF same_env_step], rule keepsI)
  fix s w a w'
  assume w: "same_data v w" and run: "run_state (State (\<lambda>w. if outcome s \<noteq> Succeed then (Inl ErrIO, w)
      else case c (files w) of Inl e \<Rightarrow> (Inl e, w) | Inr (a, f) \<Rightarrow> (Inr a, w\<lparr>files := f\<rparr>))) w = (a, w')"
  show "same_data v w'"
    using w run by (auto dest!: assms split: if_splits sum.splits prod.splits)
qed

lemma same_reads:
  "keeps (same_data v) Jobs_Device" "keeps (same_data v) Jobs_List" "keeps (same_data v) (Jobs_Get i)"
  by (rule same_tx, auto simp: store_Device_def store_List_def store_Get_def split: option.splits)+

lemma same_with_job: "(\<And>j. keeps (same_data v) (k j)) \<Longrightarrow> keeps (same_data v) (with_job i k)"
  unfolding with_job_def lookup_job_def by (intro keeps_rules same_reads) simp_all

lemma same_download: "keeps (same_data v) (handle_download S i)"
proof -
  have "keeps (same_data v) time_now"
    unfolding time_now_def by (intro keeps_bind same_env_step) (simp add: keeps_def holds_def)
  moreover have "keeps (same_data v) (sys (os_Lstat p))" "keeps (same_data v) (sys (os_ReadFile p))" for p
    by (rule same_sys, auto simp: os_Lstat_def os_ReadFile_def split: option.splits if_splits)+
  ultimately show ?thesis
    unfolding handle_download_def Let_def by (intro keeps_rules same_with_job) simp_all
qed

lemma same_dispatch:
  assumes "hq_method q \<noteq> ''POST''"
  shows "keeps (same_data v) (dispatch S q (route_of q))"
proof -
  have get: "keeps (same_data v) (handle_status S)" "keeps (same_data v) (handle_list S)"
      "keeps (same_data v) (handle_get S i)" for i
    unfolding handle_status_def handle_list_def handle_get_def
    by (intro keeps_rules same_reads same_with_job)+
  have "route_of q \<notin> {RouteEnqueue, RouteUpload} \<and>
      (\<forall>i. route_of q \<notin> {RouteCancel i, RouteAuthCode i, RouteConfirm i})"
    using assms by (auto simp: route_of_def route_segments_def Let_def split: list.splits if_splits)
  then show ?thesis
    using get same_download by (cases "route_of q") (auto simp: keeps_ret)
qed

text \<open>
  C20. A request that changes the job store, the data directory or the 2FA challenge is a POST that
  carries the application's header, was addressed to an allowed host, and, when the browser names its
  origin, comes from the expected one: plain cross-site requests change nothing.
\<close>

theorem changes_are_guarded:
  assumes "solo w" "run_state (serve S q) w = (r, w')"
    and "(store w', files w', broker w') \<noteq> (store w, files w, broker w)"
  shows "hq_method q = ''POST'' \<and> hq_app q = ''1'' \<and> host_allowed S q \<and> origin_allowed S q"
proof (rule ccontr)
  assume bad: "\<not> ?thesis"
  have "keeps (same_data w) (serve S q)"
  proof (cases "host_allowed S q \<and> (mutation q \<longrightarrow> hq_app q = ''1'' \<and> origin_allowed S q)")
    case True
    then have "hq_method q \<noteq> ''POST''" using bad by (auto simp: mutation_def)
    then show ?thesis unfolding serve_def by (intro keeps_rules same_dispatch)
  next
    case False
    then show ?thesis unfolding serve_def by (auto intro!: keeps_rules)
  qed
  from keepsD [OF this _ assms(2)] assms(1,3) show False by (simp add: same_data_def)
qed

section \<open>Downloads\<close>

lemma env_step_frame:
  assumes "solo w" "run_state env_step w = (s, w')"
  shows "\<exists>ss c. w' = w\<lparr>script := ss, crashed := c\<rparr>"
proof (cases "crashed w")
  case True
  then have "w' = w\<lparr>script := script w, crashed := crashed w\<rparr>" using assms by (simp add: env_step_def)
  then show ?thesis by blast
next
  case False
  show ?thesis
  proof (cases "script w")
    case Nil
    then have "w' = w\<lparr>script := script w, crashed := crashed w\<rparr>"
      using assms False by (simp add: env_step_def next_slot_def idle_slot_def)
    then show ?thesis by blast
  next
    case (Cons x xs)
    then have "w' = w\<lparr>script := xs, crashed := (outcome x = Crash \<or> crashed w)\<rparr>"
      using assms False by (auto simp: env_step_def next_slot_def solo_def Let_def split: if_splits)
    then show ?thesis by blast
  qed
qed

lemma run_tx_solo:
  assumes "solo w" "run_state (db_tx t) w = (Inr a, w')"
  shows "\<exists>n. t (clock w) n (store w) = Inr (a, store w')" "solo w'" "files w' = files w" "clock w' = clock w"
proof -
  obtain s w1 where s: "run_state env_step w = (s, w1)" by fastforce
  obtain ss c where w1: "w1 = w\<lparr>script := ss, crashed := c\<rparr>" using env_step_frame [OF assms(1) s] by blast
  have "solo w1" using env_step_solo [OF assms(1) s] by simp
  then show "\<exists>n. t (clock w) n (store w) = Inr (a, store w')" "solo w'" "files w' = files w" "clock w' = clock w"
    using assms(2) s w1
    by (auto simp: db_tx_def put_store_def solo_def split: if_splits sum.splits prod.splits)
qed

lemma time_now_solo:
  assumes "solo w" "run_state time_now w = (t, w')"
  shows "t = clock w" "solo w'" "files w' = files w"
proof -
  obtain s w1 where s: "run_state env_step w = (s, w1)" by fastforce
  obtain ss c where w1: "w1 = w\<lparr>script := ss, crashed := c\<rparr>" using env_step_frame [OF assms(1) s] by blast
  then show "t = clock w" "solo w'" "files w' = files w"
    using assms(2) s env_step_solo [OF assms(1) s] by (auto simp: time_now_def)
qed

lemma download_shows:
  assumes "solo w" "run_state (handle_download S i) w = (r, w')" "rs_body r = FileReply name content"
  shows "\<exists>j t n. find_job i (store w) = Some j \<and> job_state j = Completed \<and> \<not> artifact_expired j
    \<and> expires_at j = Some t \<and> clock w \<le> t \<and> ValidID i
    \<and> fs_get (sv_root S @ [''artifacts'', i]) (files w) = Some n \<and> node_type n = Regular \<and> content = node_data n
    \<and> name = downloadName j
    \<and> (''Content-Disposition'', ''attachment; filename='' @ [CHR 0x22] @ name @ [CHR 0x22]) \<in> set (rs_headers r)"
proof -
  have shown: "rs_body (problem s c m) \<noteq> FileReply name content" "rs_body (storeError e) \<noteq> FileReply name content" for s c m e
    by (simp_all add: problem_def respond_def storeError_def)
  have valid: "ValidID i"
    using assms(2,3) shown by (auto simp: handle_download_def with_job_def lookup_job_def split: if_splits)
  obtain g w1 where g: "run_state (Jobs_Get i) w = (g, w1)" by fastforce
  obtain j where j: "g = Inr j"
    using assms(2,3) shown valid g
    by (cases g) (auto simp: handle_download_def with_job_def lookup_job_def)
  note w1 = run_tx_solo [OF assms(1) g [unfolded j]]
  have find: "find_job i (store w) = Some j" using w1(1) by (auto simp: store_Get_def split: option.splits)
  obtain now w2 where now: "run_state time_now w1 = (now, w2)" by fastforce
  note w2 = time_now_solo [OF w1(2) now]
  let ?p = "sv_root S @ [''artifacts'', job_id j]"
  have id: "job_id j = i" using find_job_Some [OF find] by simp
  obtain st w3 where st: "run_state (sys (os_Lstat ?p)) w2 = (st, w3)" by fastforce
  obtain cn w4 where cn: "run_state (sys (os_ReadFile ?p)) w3 = (cn, w4)" by fastforce
  have run: "run_state (do {
       now \<leftarrow> time_now;
       if job_state j \<noteq> Completed \<or> artifact_expired j
          \<or> (case expires_at j of None \<Rightarrow> True | Some t \<Rightarrow> t < now)
       then ret (problem 409 ''artifact_unavailable'' ''No retained, completed artifact is available.'')
       else do {
         info \<leftarrow> sys (os_Lstat ?p);
         case info of
           Inl e \<Rightarrow> ret (problem 404 ''artifact_unavailable'' ''Artifact is unavailable.'')
         | Inr n \<Rightarrow>
             if node_type n \<noteq> Regular then ret (problem 404 ''artifact_unavailable'' ''Artifact is unavailable.'')
             else do {
               f \<leftarrow> sys (os_ReadFile ?p);
               ret (case f of
                  Inl e \<Rightarrow> problem 404 ''artifact_unavailable'' ''Artifact is unavailable.''
                | Inr content \<Rightarrow>
                    \<lparr>rs_status = 200,
                     rs_headers = [(''Content-Type'', ''application/octet-stream''),
                       (''Content-Disposition'', ''attachment; filename='' @ [CHR 0x22] @ downloadName j @ [CHR 0x22])],
                     rs_body = FileReply (downloadName j) content\<rparr>) } } }) w1 = (r, w')"
    using assms(2) valid g j unfolding handle_download_def with_job_def lookup_job_def Let_def by simp
  have cond: "job_state j = Completed" "\<not> artifact_expired j" "\<exists>t. expires_at j = Some t \<and> now \<le> t"
    using run now assms(3) shown by (auto split: if_splits option.splits)
  then obtain n where n: "st = Inr n" "node_type n = Regular"
    using run now st assms(3) shown by (cases st) (auto split: if_splits)
  then obtain content' where c: "cn = Inr content'"
    using run now st cn cond assms(3) shown by (cases cn) (auto split: if_splits)
  have r: "content' = content" "name = downloadName j"
      "(''Content-Disposition'', ''attachment; filename='' @ [CHR 0x22] @ name @ [CHR 0x22]) \<in> set (rs_headers r)"
    using run now st cn cond n c assms(3) by auto
  have "fs_get ?p (files w) = Some n" "content = node_data n"
    using run_sys_Inr [OF w2(2) st [unfolded n(1)]] run_sys_Inr [of w3 "os_ReadFile ?p" content' w4] cn c r(1)
      w2(3) w1(3)
    by (auto simp: os_Lstat_def os_ReadFile_def split: option.splits if_splits)
  then show ?thesis using valid find cond n(2) r w2(1) w1(4) id by auto
qed

text \<open>A property of the value a program returns in every world.\<close>

definition yields :: "('a \<Rightarrow> bool) \<Rightarrow> 'a io \<Rightarrow> bool" where
  "yields R m \<longleftrightarrow> (\<forall>w. R (fst (run_state m w)))"

named_theorems yields_rules

lemma yields_ret [yields_rules]: "R x \<Longrightarrow> yields R (ret x)"
  by (simp add: yields_def)

lemma yields_bind [yields_rules]: "(\<And>x. yields R (k x)) \<Longrightarrow> yields R (m \<bind> k)"
  by (simp add: yields_def split: prod.split)

lemma yields_if [yields_rules]: "(b \<Longrightarrow> yields R m) \<Longrightarrow> (\<not> b \<Longrightarrow> yields R n) \<Longrightarrow> yields R (if b then m else n)"
  by simp

lemma yields_sum [yields_rules]:
  "(\<And>x. yields R (f x)) \<Longrightarrow> (\<And>y. yields R (g y)) \<Longrightarrow> yields R (case s of Inl x \<Rightarrow> f x | Inr y \<Rightarrow> g y)"
  by (cases s) auto

lemma yields_prod [yields_rules]: "(\<And>x y. yields R (f x y)) \<Longrightarrow> yields R (case p of (x, y) \<Rightarrow> f x y)"
  by (cases p) auto

lemma yields_then: "yields Q m \<Longrightarrow> (\<And>x. Q x \<Longrightarrow> yields R (k x)) \<Longrightarrow> yields R (m \<bind> k)"
  by (simp add: yields_def split: prod.split) (metis fst_conv)

lemma yieldsD: "yields R m \<Longrightarrow> run_state m w = (x, w') \<Longrightarrow> R x"
  unfolding yields_def by (metis fst_conv)

abbreviation "no_file r \<equiv> \<forall>name content. rs_body r \<noteq> FileReply name content"

lemma no_file_simps [simp]:
  "no_file (problem s c m)" "no_file (storeError e)" "no_file (respond s (JobReply v))"
  "no_file (respond s (JobsReply vs))" "no_file (respond s (StatusReply a b c' d e' f g))"
  "no_file (respond s CancelReply)" "no_file (bare s NoContent)" "no_file unsaved"
  "no_file (web_Handler L q)"
  by (simp_all add: problem_def respond_def storeError_def bare_def unsaved_def web_Handler_def split: prod.split)

lemma decode_no_file: "decode L q f = Inl r \<Longrightarrow> no_file r"
  by (auto simp: decode_def problem_def respond_def split: if_splits option.splits)

lemma yields_with_job: "(\<And>j. yields no_file (k j)) \<Longrightarrow> yields no_file (with_job i k)"
proof -
  assume k: "\<And>j. yields no_file (k j)"
  show ?thesis
  proof (unfold yields_def, rule allI)
    fix w
    show "no_file (fst (run_state (with_job i k) w))"
      using k
      by (auto simp: with_job_def lookup_job_def yields_def problem_def respond_def storeError_def
          split: prod.split sum.split)
  qed
qed

lemma yields_with_body: "(\<And>x. yields no_file (k x)) \<Longrightarrow> yields no_file (with_body (decode L q f) k)"
  using decode_no_file [of L q f] by (auto simp: with_body_def split: sum.split intro!: yields_rules)

abbreviation "no_file_sum r \<equiv> case r of Inl x \<Rightarrow> no_file x | Inr x \<Rightarrow> no_file x"

lemma yields_accept: "yields no_file_sum (accept_upload S q i p)"
proof -
  have receive: "yields (\<lambda>r. case r of Inl x \<Rightarrow> no_file x | Inr u \<Rightarrow> True) (receive_body S q p)"
    unfolding receive_body_def by (intro yields_rules) (simp split: sum.split)
  show ?thesis
    unfolding accept_upload_def admit_upload_def check_def
    by (intro yields_then [OF receive])
      (auto intro!: yields_rules split: sum.split option.split)
qed

lemma yields_upload: "yields no_file (handle_upload S q)"
proof -
  have "yields no_file (accept_upload S q i p \<bind> (\<lambda>r. case r of
      Inl bad \<Rightarrow> Remove (sv_root S) ''inputs'' i \<bind> (\<lambda>_. ret bad) | Inr x \<Rightarrow> ret x))" for i p
    by (rule yields_then [OF yields_accept]) (auto intro!: yields_rules split: sum.splits)
  note saved = this
  have locked: "yields no_file (upload_locked S q)"
    unfolding upload_locked_def Let_def
    by (rule yields_if, rule yields_ret, simp, rule yields_if, rule yields_ret, simp, rule yields_bind,
        rule yields_bind, rule yields_sum, rule yields_ret, simp, rule saved)
  show ?thesis
    unfolding handle_upload_def
    by (rule yields_bind, rule yields_bind, rule yields_if, rule yields_ret, simp,
        rule yields_bind, rule yields_then [OF locked], rule yields_bind, erule yields_ret)
qed

lemma yields_dispatch:
  assumes "\<And>i. d \<noteq> RouteDownload i"
  shows "yields no_file (dispatch S q d)"
proof (cases d)
  case RouteStatus
  then show ?thesis by (simp add: handle_status_def) (intro yields_rules, simp_all)
next
  case RouteList
  then show ?thesis by (simp add: handle_list_def) (intro yields_rules, simp split: sum.split)
next
  case RouteEnqueue
  then show ?thesis
    using decode_no_file [of "sv_lib S" q "hl_enqueue (sv_lib S)"]
    by (auto simp: handle_enqueue_def intro!: yields_rules split: sum.split)
      (simp_all split: sum.splits)
next
  case RouteUpload
  then show ?thesis using yields_upload by simp
next
  case (RouteGet i)
  then show ?thesis by (simp add: handle_get_def) (intro yields_with_job yields_rules, simp)
next
  case (RouteCancel i)
  then show ?thesis
    by (simp add: handle_cancel_def) (intro yields_with_body yields_with_job yields_rules, simp split: sum.split)
next
  case (RouteAuthCode i)
  then show ?thesis
    by (simp add: handle_authCode_def) (intro yields_with_job yields_with_body yields_rules, simp split: sum.split)
next
  case (RouteConfirm i)
  then show ?thesis
    by (simp add: handle_confirm_def) (intro yields_with_job yields_with_body yields_rules, simp_all split: option.split)
next
  case (RouteDownload i)
  then show ?thesis using assms by blast
qed (auto intro!: yields_rules simp: bare_def)

text \<open>
  C22. A download is only ever answered with the bytes of the job's own artifact, a regular file, while
  the job is completed, its artifact has not been expired and its retention has not elapsed.
\<close>

theorem download_gate:
  assumes "solo w" "run_state (serve S q) w = (r, w')" "rs_body r = FileReply name content"
  shows "\<exists>i j t n. route_of q = RouteDownload i \<and> host_allowed S q \<and> find_job i (store w) = Some j
    \<and> job_state j = Completed \<and> \<not> artifact_expired j \<and> expires_at j = Some t \<and> clock w \<le> t
    \<and> fs_get (sv_root S @ [''artifacts'', i]) (files w) = Some n \<and> node_type n = Regular
    \<and> content = node_data n \<and> name = downloadName j"
proof -
  have plain: "rs_body (problem s c m) \<noteq> FileReply name content" for s c m
    by (simp add: problem_def respond_def)
  obtain x where x: "run_state (dispatch S q (route_of q)) w = (x, w')" "rs_body x = rs_body r" "host_allowed S q"
    using assms(2,3) plain
    by (auto simp: serve_def add_headers_def split: if_splits prod.splits)
  show ?thesis
  proof (cases "\<exists>i. route_of q = RouteDownload i")
    case True
    then obtain i where i: "route_of q = RouteDownload i" by blast
    then show ?thesis using download_shows [OF assms(1), of S i x w' name content] x assms(3) by auto
  next
    case False
    then have "no_file x" using yieldsD [OF yields_dispatch x(1)] by blast
    then show ?thesis using x(2) assms(3) by auto
  qed
qed

section \<open>Download names\<close>

abbreviation "name_part c \<equiv> name_char c \<or> c = CHR ''-''"

lemma safe_runes_chars: "c \<in> set (safe_runes s) \<Longrightarrow> name_part c"
proof (induction s rule: safe_runes.induct)
  case (1 s)
  have s: "s \<noteq> []" using "1.prems" by (auto simp: safe_runes.simps [of s])
  then have "c = hd s \<and> name_char (hd s) \<or> c = CHR ''-'' \<or> c \<in> set (safe_runes (drop (max 1 (rune_len s)) s))"
    using "1.prems" by (subst (asm) safe_runes.simps) (auto split: if_splits)
  then show ?case using "1.IH" [OF s] by blast
qed

lemma sanitize_part: "c \<in> set (sanitizeNamePart s) \<Longrightarrow> name_part c"
  unfolding sanitizeNamePart_def Trim_def using trim_both_subset safe_runes_chars by blast

lemma sanitize_first: "sanitizeNamePart s \<noteq> '''' \<Longrightarrow> hd (sanitizeNamePart s) \<notin> {CHR ''.'', CHR ''-''}"
  unfolding sanitizeNamePart_def Trim_def by (drule trim_both_ends(1)) auto

lemma hex_part: "lower_hex c \<Longrightarrow> name_part c \<and> c \<notin> {CHR ''.'', CHR ''-''}"
proof -
  have "list_all (\<lambda>c. name_part c \<and> c \<noteq> CHR ''.'' \<and> c \<noteq> CHR ''-'') ''0123456789abcdef''" by code_simp
  then show "lower_hex c \<Longrightarrow> name_part c \<and> c \<notin> {CHR ''.'', CHR ''-''}"
    unfolding lower_hex_def list_all_iff by blast
qed

lemma header_safe:
  assumes "list_all name_part s"
  shows "set s \<inter> {CHR ''/'', CHR 0x5C, CHR 0x22, CHR '' '', CHR 0x0A, CHR 0x0D, CHR 0x00} = {}"
proof -
  have "list_all (\<lambda>c. \<not> name_part c) [CHR ''/'', CHR 0x5C, CHR 0x22, CHR '' '', CHR 0x0A, CHR 0x0D, CHR 0x00]"
    by code_simp
  then show ?thesis using assms by (auto simp: list_all_iff)
qed

lemma downloadName_stem:
  assumes "ValidID (job_id j)"
  obtains stem where "downloadName j = stem @ ''.ipa''" "stem \<noteq> ''''" "length stem \<le> 150"
    "\<forall>c \<in> set stem. name_part c" "hd stem \<notin> {CHR ''.'', CHR ''-''}"
proof -
  let ?a = "sanitizeNamePart (job_bundle_id j)" and ?b = "sanitizeNamePart (job_version j)"
  define joined where "joined = (if ?a = '''' then ?b else if ?b = '''' then ?a else ?a @ ''-'' @ ?b)"
  define name where "name = (if joined = '''' then job_id j else joined)"
  have down: "downloadName j = take 150 name @ ''.ipa''"
    by (simp add: downloadName_def Let_def name_def joined_def)
  have hex: "name_part c \<and> c \<notin> {CHR ''.'', CHR ''-''}" if "lower_hex c" for c
    using that by (rule hex_part)
  have chars: "\<forall>c \<in> set joined. name_part c"
    using sanitize_part by (auto simp: joined_def)
  have first: "hd joined \<notin> {CHR ''.'', CHR ''-''}" if "joined \<noteq> ''''"
    using that sanitize_first by (auto simp: joined_def split: if_splits)
  have name: "name \<noteq> ''''" "\<forall>c \<in> set name. name_part c" "hd name \<notin> {CHR ''.'', CHR ''-''}"
    using chars first hex assms ValidID_nonempty [OF assms] hd_in_set [of "job_id j"]
    by (simp_all add: name_def ValidID_iff) blast+
  show ?thesis
  proof (rule that)
    show "downloadName j = take 150 name @ ''.ipa''" by (rule down)
    show "take 150 name \<noteq> ''''" "length (take 150 name) \<le> 150" using name(1) by simp_all
    show "\<forall>c \<in> set (take 150 name). name_part c" using name(2) by (meson in_set_takeD)
    show "hd (take 150 name) \<notin> {CHR ''.'', CHR ''-''}" using name(1,3) by simp
  qed
qed

text \<open>
  C40. The file name a download proposes is a non-empty stem of at most 150 bytes and the suffix
  \<open>.ipa\<close>; it consists of letters, digits, dots and hyphens and does not start with a dot or a hyphen,
  whatever the bundle identifier and the version in the archive are: no separator, quote, space or
  control character reaches the header.
\<close>

theorem downloadName_safe:
  assumes "ValidID (job_id j)"
  shows "length (downloadName j) \<le> 154 \<and> HasSuffix (downloadName j) ''.ipa''
    \<and> 4 < length (downloadName j) \<and> hd (downloadName j) \<notin> {CHR ''.'', CHR ''-''}
    \<and> set (downloadName j) \<inter> {CHR ''/'', CHR 0x5C, CHR 0x22, CHR '' '', CHR 0x0A, CHR 0x0D, CHR 0x00} = {}
    \<and> list_all (\<lambda>c. name_char c \<or> c = CHR ''-'') (downloadName j)"
proof -
  obtain stem where s: "downloadName j = stem @ ''.ipa''" "stem \<noteq> ''''" "length stem \<le> 150"
      "\<forall>c \<in> set stem. name_part c" "hd stem \<notin> {CHR ''.'', CHR ''-''}"
    using downloadName_stem [OF assms] .
  have "list_all name_part ''.ipa''" by code_simp
  then have chars: "list_all name_part (downloadName j)"
    using s(4) by (simp add: s(1) list_all_iff)
  have ends: "length (downloadName j) \<le> 154" "HasSuffix (downloadName j) ''.ipa''" "4 < length (downloadName j)"
      "hd (downloadName j) \<notin> {CHR ''.'', CHR ''-''}"
    using s(2,3,5) by (simp_all add: s(1) HasSuffix_def)
  show ?thesis using chars header_safe [OF chars] ends by blast
qed

end
