(* ===== verification/Config.thy ===== *)
theory Config
  imports Adapter Validation
begin

text \<open>
  The configuration (\<open>internal/config/config.go\<close>): \<open>Parse\<close> reads the environment through a lookup
  function and validates every setting, in the order of the code, up to the first error. Integers and
  \<open>host:port\<close> pairs are parsed here; \<open>net.ParseIP\<close>, \<open>net.ParseMAC\<close>, \<open>mail.ParseAddress\<close> and
  \<open>time.ParseDuration\<close>, and the parsers of private keys and known-hosts files, are the parameters of
  \<open>config_lib\<close>. Durations are nanoseconds.
\<close>

record config =
  cf_listen :: string
  cf_domain :: string
  cf_data_dir :: string
  cf_level :: log_level
  cf_format :: string
  cf_device :: device_config
  cf_email :: string
  cf_password :: string
  cf_mac :: string
  cf_timeout :: int
  cf_retention :: int
  cf_max_upload :: int
  cf_queue_limit :: int
  cf_max_attempts :: int

text \<open>\<open>cl_ip\<close> gives the sixteen bytes of an address, \<open>cl_mac\<close> the bytes of a hardware address.\<close>

record config_lib =
  cl_ip :: "string \<Rightarrow> nat list option"
  cl_mac :: "string \<Rightarrow> nat list option"
  cl_address :: "string \<Rightarrow> string option"
  cl_duration :: "string \<Rightarrow> int option"
  cl_lower :: "string \<Rightarrow> string"
  cl_key :: "string \<Rightarrow> string option \<Rightarrow> bool"
  cl_known :: "string \<Rightarrow> bool"
  cl_text :: "go_error \<Rightarrow> string"
  cl_cwd :: "string option"

section \<open>Parsers of the standard library\<close>

text \<open>\<open>strconv.ParseInt(s, 10, 64)\<close>, which on 64-bit platforms is also \<open>strconv.Atoi(s)\<close>.\<close>

definition digits_value :: "string \<Rightarrow> int" where
  "digits_value s = foldl (\<lambda>n c. 10 * n + (of_char c - 48)) 0 s"

definition parse_int :: "string \<Rightarrow> int option" where
  "parse_int s =
     (let neg = HasPrefix s ''-'';
          ds = (if neg \<or> HasPrefix s ''+'' then tl s else s);
          n = (if neg then - digits_value ds else digits_value ds)
      in if ds = '''' \<or> \<not> list_all (in_ranges digits_0_9) ds then None
         else if n < - (2 ^ 63) \<or> 2 ^ 63 \<le> n then None else Some n)"

text \<open>\<open>net.SplitHostPort\<close>: the port follows the last colon; a host with colons stands in brackets.\<close>

definition has_char :: "char \<Rightarrow> string \<Rightarrow> bool" where
  "has_char c s \<longleftrightarrow> list_ex (\<lambda>d. d = c) s"

definition after_last :: "char \<Rightarrow> string \<Rightarrow> string" where
  "after_last c s = last (split_on c s)"

definition before_last :: "char \<Rightarrow> string \<Rightarrow> string" where
  "before_last c s = take (length s - length (after_last c s) - 1) s"

definition SplitHostPort :: "string \<Rightarrow> (string \<times> string) option" where
  "SplitHostPort s =
     (if \<not> has_char CHR '':'' s then None
      else let i = length (before_last CHR '':'' s); port = after_last CHR '':'' s
      in if hd s = CHR ''['' then
           (let e = length (takeWhile (\<lambda>c. c \<noteq> CHR '']'') s)
            in if e = length s \<or> e + 1 \<noteq> i then None
               else if has_char CHR ''['' (drop 1 s) \<or> has_char CHR '']'' (drop (e + 1) s) then None
               else Some (take (e - 1) (drop 1 s), port))
         else if has_char CHR '':'' (before_last CHR '':'' s) \<or> has_char CHR ''['' s \<or> has_char CHR '']'' s then None
         else Some (before_last CHR '':'' s, port))"

text \<open>\<open>IP.IsLoopback\<close> and \<open>IP.IsPrivate\<close> on sixteen bytes; IPv4 addresses are mapped into them.\<close>

definition is_v4 :: "nat list \<Rightarrow> bool" where
  "is_v4 b \<longleftrightarrow> take 12 b = replicate 10 0 @ [255, 255]"

definition IsLoopback :: "nat list \<Rightarrow> bool" where
  "IsLoopback b \<longleftrightarrow> (if is_v4 b then b ! 12 = 127 else b = replicate 15 0 @ [1])"

definition IsPrivate :: "nat list \<Rightarrow> bool" where
  "IsPrivate b \<longleftrightarrow>
     (if is_v4 b then b ! 12 = 10 \<or> b ! 12 = 172 \<and> 16 \<le> b ! 13 \<and> b ! 13 < 32 \<or> b ! 12 = 192 \<and> b ! 13 = 168
      else length b = 16 \<and> 252 \<le> b ! 0 \<and> b ! 0 < 254)"

text \<open>\<open>HardwareAddr.String\<close>\<close>

definition mac_string :: "nat list \<Rightarrow> string" where
  "mac_string b = join_with '':'' (map (\<lambda>n. hex_encode [n]) b)"

text \<open>\<open>strings.IndexFunc(s, unicode.IsControl) >= 0\<close> on valid UTF-8.\<close>

function has_control :: "string \<Rightarrow> bool" where
  "has_control s =
     (if s = [] then False
      else byte (hd s) < 32 \<or> byte (hd s) = 127
        \<or> (byte (hd s) = 194 \<and> 1 < length s \<and> byte (s ! 1) < 160)
        \<or> has_control (drop (max 1 (rune_len s)) s))"
  by pat_completeness auto
termination by (relation "measure length") auto

declare has_control.simps [simp del]

text \<open>\<open>filepath.Abs\<close>; \<open>cl_cwd\<close> is the result of \<open>os.Getwd\<close>.\<close>

definition filepath_Abs :: "config_lib \<Rightarrow> string \<Rightarrow> go_error + string" where
  "filepath_Abs L p =
     (if IsAbs p then Inr (path_Clean p)
      else case cl_cwd L of None \<Rightarrow> Inl ErrIO | Some d \<Rightarrow> Inr (path_Clean (d @ ''/'' @ p)))"

text \<open>The file an absolute path names.\<close>

definition os_path :: "string \<Rightarrow> path" where
  "os_path p = filter (\<lambda>c. c \<noteq> '''') (split_on CHR ''/'' (path_Clean p))"

section \<open>Validators\<close>

definition alnum :: "(char \<times> char) list" where
  "alnum = [(CHR ''a'', CHR ''z''), (CHR ''A'', CHR ''Z''), (CHR ''0'', CHR ''9'')]"

definition alnum_hyphen :: "(char \<times> char) list" where
  "alnum_hyphen = alnum @ [(CHR ''-'', CHR ''-'')]"

text \<open>\<open>^[a-zA-Z0-9](?:[a-zA-Z0-9-]{0,61}[a-zA-Z0-9])?$\<close>\<close>

definition host_label :: rx where
  "host_label = Cat (Cls True alnum) (rx_opt (Cat (upto_times 61 (Cls True alnum_hyphen)) (Cls True alnum)))"

definition validHostname :: "string \<Rightarrow> bool" where
  "validHostname host \<longleftrightarrow> host \<noteq> '''' \<and> list_all (matches host_label) (split_on CHR ''.'' (TrimSuffix host ''.''))"

text \<open>\<open>^[a-zA-Z_][a-zA-Z0-9_-]{0,31}$\<close>\<close>

definition user_pattern :: rx where
  "user_pattern =
     Cat (Cls True [(CHR ''a'', CHR ''z''), (CHR ''A'', CHR ''Z''), (CHR ''_'', CHR ''_'')])
       (upto_times 31 (Cls True [(CHR ''a'', CHR ''z''), (CHR ''A'', CHR ''Z''), (CHR ''0'', CHR ''9''),
          (CHR ''_'', CHR ''_''), (CHR ''-'', CHR ''-'')]))"

definition privateFile :: "string \<Rightarrow> error io" where
  "privateFile p =
     (if \<not> IsAbs p then ret (Some (ErrText ''an absolute path is required''))
      else do {
        i \<leftarrow> sys (os_Lstat (os_path p));
        case i of
          Inl e \<Rightarrow> ret (Some (ErrText ''file is missing or unreadable''))
        | Inr n \<Rightarrow>
            if \<not> private_regular n
            then ret (Some (ErrText ''must be a regular file with mode 0600 or stricter''))
            else do {
              f \<leftarrow> sys (os_Open (os_path p));
              (case f of
                 Inl e \<Rightarrow> ret (Some e)
               | Inr _ \<Rightarrow> do { c \<leftarrow> sys os_Close; ret (error_of c) }) } })"

section \<open>Parse\<close>

definition val :: "(string \<Rightarrow> string) \<Rightarrow> string \<Rightarrow> string \<Rightarrow> string" where
  "val get k d = (let v = get (''IPA_NOW_'' @ k) in if v = '''' then d else v)"

definition port_number :: "string \<Rightarrow> int option" where
  "port_number s = (case parse_int s of None \<Rightarrow> None | Some p \<Rightarrow> if p < 1 \<or> 65535 < p then None else Some p)"

definition bad :: "string \<Rightarrow> go_error + 'a" where
  "bad s = Inl (ErrText s)"

text \<open>The listen address with the bytes of its IP.\<close>

definition parse_listen :: "config_lib \<Rightarrow> (string \<Rightarrow> string) \<Rightarrow> go_error + (string \<times> nat list)" where
  "parse_listen L get =
     (let listen = val get ''LISTEN'' ''127.0.0.1:8080''
      in case SplitHostPort listen of
        None \<Rightarrow> bad ''IPA_NOW_LISTEN must be an IP address and port''
      | Some (host, port) \<Rightarrow>
          (case (port_number port, cl_ip L host) of
             (Some _, Some ip) \<Rightarrow> Inr (listen, ip)
           | _ \<Rightarrow> bad ''IPA_NOW_LISTEN must be an IP address and port''))"

definition domain_host :: "string \<Rightarrow> go_error + string" where
  "domain_host domain =
     (if \<not> Contains domain '':'' then Inr domain
      else case SplitHostPort domain of
        None \<Rightarrow> bad ''IPA_NOW_DOMAIN must be a hostname with an optional port''
      | Some (host, port) \<Rightarrow>
          (case port_number port of None \<Rightarrow> bad ''invalid IPA_NOW_DOMAIN port'' | Some _ \<Rightarrow> Inr host))"

definition parse_domain :: "config_lib \<Rightarrow> (string \<Rightarrow> string) \<Rightarrow> nat list \<Rightarrow> go_error + string" where
  "parse_domain L get ip =
     (let domain = ToLower (cl_lower L) (val get ''DOMAIN'' '''')
      in if domain = '''' \<and> \<not> IsLoopback ip \<and> \<not> IsPrivate ip
         then bad ''IPA_NOW_LISTEN must use a loopback or private IP unless IPA_NOW_DOMAIN is configured''
         else if domain = '''' then Inr domain
         else case domain_host domain of
           Inl e \<Rightarrow> Inl e
         | Inr host \<Rightarrow>
             if host \<noteq> TrimSpace host \<or> HasSuffix host ''.'' \<or> cl_ip L host \<noteq> None \<or> \<not> validHostname host
             then bad ''IPA_NOW_DOMAIN must be a hostname with an optional port''
             else Inr domain)"

text \<open>The settings of the device, given their texts.\<close>

definition check_device ::
    "config_lib \<Rightarrow> string \<Rightarrow> string \<Rightarrow> string \<Rightarrow> string \<Rightarrow> device_auth \<Rightarrow> string \<Rightarrow> go_error + device_config" where
  "check_device L host port user pin auth known =
     (if 253 < length host \<or> cl_ip L host = None \<and> \<not> validHostname host
      then bad ''IPA_NOW_DEVICE_HOST is required and must be a hostname or IP''
      else case port_number port of
        None \<Rightarrow> bad ''invalid IPA_NOW_DEVICE_PORT''
      | Some n \<Rightarrow>
          if \<not> matches user_pattern user then bad ''invalid IPA_NOW_DEVICE_USER''
          else if pin \<noteq> '''' \<and> (\<not> ValidString pin \<or> 64 < length pin \<or> TrimSpace pin \<noteq> pin \<or> has_control pin)
          then bad ''invalid IPA_NOW_DEVICE_UNLOCK_PIN''
          else Inr \<lparr>dc_host = host, dc_port = n, dc_user = user, dc_pin = pin, dc_auth = auth, dc_known_hosts = known\<rparr>)"

definition parse_device :: "config_lib \<Rightarrow> (string \<Rightarrow> string) \<Rightarrow> go_error + device_config" where
  "parse_device L get =
     check_device L (val get ''DEVICE_HOST'' '''') (val get ''DEVICE_PORT'' ''22'') (val get ''DEVICE_USER'' ''mobile'')
       (val get ''DEVICE_UNLOCK_PIN'' '''')
       \<lparr>da_kind = val get ''SSH_AUTH'' ''key'', da_key_path = val get ''SSH_KEY_PATH'' '''',
        da_passphrase = val get ''SSH_KEY_PASSPHRASE'' '''', da_password = val get ''SSH_PASSWORD'' ''''\<rparr>
       (val get ''KNOWN_HOSTS_PATH'' '''')"

definition check_auth :: "config_lib \<Rightarrow> device_auth \<Rightarrow> (go_error + unit) io" where
  "check_auth L a =
     (if da_kind a = ''key'' then do {
        e \<leftarrow> privateFile (da_key_path a);
        case e of
          Some x \<Rightarrow> ret (Inl (ErrWrap (''IPA_NOW_SSH_KEY_PATH: '' @ error_text (cl_text L) x) x))
        | None \<Rightarrow> do {
            k \<leftarrow> sys (os_ReadFile (os_path (da_key_path a)));
            ret (case k of
               Inl x \<Rightarrow> bad ''unable to read IPA_NOW_SSH_KEY_PATH''
             | Inr key \<Rightarrow>
                 if cl_key L key (if da_passphrase a \<noteq> '''' then Some (da_passphrase a) else None) then Inr ()
                 else bad ''invalid SSH private key or passphrase'') } }
      else if da_kind a = ''password''
      then ret (if da_password a = '''' then bad ''IPA_NOW_SSH_PASSWORD is required'' else Inr ())
      else ret (bad ''IPA_NOW_SSH_AUTH must be key or password''))"

definition has_host_key :: "string \<Rightarrow> bool" where
  "has_host_key known \<longleftrightarrow>
     list_ex (\<lambda>line. TrimSpace line \<noteq> '''' \<and> \<not> HasPrefix (TrimSpace line) ''#'') (split_on CHR 0x0A known)"

text \<open>\<open>knownhosts.New\<close> reads the file again.\<close>

definition check_known_hosts :: "config_lib \<Rightarrow> string \<Rightarrow> (go_error + unit) io" where
  "check_known_hosts L p = do {
     e \<leftarrow> privateFile p;
     case e of
       Some x \<Rightarrow> ret (Inl (ErrWrap (''IPA_NOW_KNOWN_HOSTS_PATH: '' @ error_text (cl_text L) x) x))
     | None \<Rightarrow> do {
         k \<leftarrow> sys (os_ReadFile (os_path p));
         case k of
           Inl x \<Rightarrow> ret (bad ''unable to read known-hosts material'')
         | Inr known \<Rightarrow> do {
             f \<leftarrow> sys (os_ReadFile (os_path p));
             ret (case f of
                Inr again \<Rightarrow>
                  if cl_known L again \<and> has_host_key known then Inr ()
                  else bad ''known-hosts file must contain valid, explicitly verified host keys''
              | Inl x \<Rightarrow> bad ''known-hosts file must contain valid, explicitly verified host keys'') } } }"

text \<open>The three Apple settings together.\<close>

definition check_apple :: "config_lib \<Rightarrow> string \<Rightarrow> string \<Rightarrow> string \<Rightarrow> go_error + (string \<times> string \<times> string)" where
  "check_apple L email password mac =
     (if email \<noteq> '''' \<and> (cl_address L email \<noteq> Some email \<or> 254 < length email)
      then bad ''invalid IPA_NOW_APPLE_EMAIL''
      else if email = '''' \<and> (password \<noteq> '''' \<or> mac \<noteq> '''')
      then bad ''IPA_NOW_APPLE_EMAIL is required with Apple account settings''
      else if mac = '''' then Inr (email, password, mac)
      else case cl_mac L (TrimSpace mac) of
        None \<Rightarrow> bad ''IPA_NOW_APPLE_MAC_ADDRESS must be a six-byte MAC address''
      | Some b \<Rightarrow>
          if length b \<noteq> 6 then bad ''IPA_NOW_APPLE_MAC_ADDRESS must be a six-byte MAC address''
          else Inr (email, password, mac_string b))"

definition parse_apple :: "config_lib \<Rightarrow> (string \<Rightarrow> string) \<Rightarrow> go_error + (string \<times> string \<times> string)" where
  "parse_apple L get =
     check_apple L (val get ''APPLE_EMAIL'' '''') (val get ''APPLE_PASSWORD'' '''') (val get ''APPLE_MAC_ADDRESS'' '''')"

text \<open>A number between two bounds.\<close>

definition ranged :: "int option \<Rightarrow> int \<Rightarrow> int \<Rightarrow> string \<Rightarrow> go_error + int" where
  "ranged v lo hi message =
     (case v of None \<Rightarrow> bad message | Some n \<Rightarrow> if n < lo \<or> hi < n then bad message else Inr n)"

definition parse_timeout :: "config_lib \<Rightarrow> (string \<Rightarrow> string) \<Rightarrow> go_error + int" where
  "parse_timeout L get =
     ranged (cl_duration L (val get ''JOB_TIMEOUT'' ''30m'')) second (24 * 3600 * second) ''invalid IPA_NOW_JOB_TIMEOUT (1s to 24h)''"

definition parse_retention :: "config_lib \<Rightarrow> (string \<Rightarrow> string) \<Rightarrow> go_error + int" where
  "parse_retention L get =
     ranged (cl_duration L (val get ''ARTIFACT_RETENTION'' ''24h'')) (60 * second) (365 * 24 * 3600 * second)
       ''invalid IPA_NOW_ARTIFACT_RETENTION (1m to 8760h)''"

definition parse_max_upload :: "(string \<Rightarrow> string) \<Rightarrow> go_error + int" where
  "parse_max_upload get =
     ranged (parse_int (val get ''MAX_UPLOAD_BYTES'' ''2147483648'')) 1 (8 * 2 ^ 30)
       ''invalid IPA_NOW_MAX_UPLOAD_BYTES (1 to 8 GiB)''"

definition parse_queue_limit :: "(string \<Rightarrow> string) \<Rightarrow> go_error + int" where
  "parse_queue_limit get = ranged (parse_int (val get ''QUEUE_LIMIT'' ''20'')) 1 1000 ''invalid IPA_NOW_QUEUE_LIMIT''"

definition parse_max_attempts :: "(string \<Rightarrow> string) \<Rightarrow> go_error + int" where
  "parse_max_attempts get = ranged (parse_int (val get ''MAX_ATTEMPTS'' ''3'')) 1 5 ''invalid IPA_NOW_MAX_ATTEMPTS''"

definition parse_level :: "config_lib \<Rightarrow> (string \<Rightarrow> string) \<Rightarrow> go_error + log_level" where
  "parse_level L get =
     (let s = ToLower (cl_lower L) (val get ''LOG_LEVEL'' ''info'')
      in if s = ''debug'' then Inr LevelDebug
         else if s = ''info'' then Inr LevelInfo
         else if s = ''warn'' \<or> s = ''warning'' then Inr LevelWarn
         else if s = ''error'' then Inr LevelError
         else bad ''invalid IPA_NOW_LOG_LEVEL (debug, info, warn, or error)'')"

definition parse_format :: "config_lib \<Rightarrow> (string \<Rightarrow> string) \<Rightarrow> go_error + string" where
  "parse_format L get =
     (let s = ToLower (cl_lower L) (val get ''LOG_FORMAT'' ''text'')
      in if s \<noteq> ''text'' \<and> s \<noteq> ''json'' then bad ''invalid IPA_NOW_LOG_FORMAT (text or json)'' else Inr s)"

definition Parse :: "config_lib \<Rightarrow> (string \<Rightarrow> string) \<Rightarrow> (go_error + config) io" where
  "Parse L get =
     check (ret (parse_listen L get)) (\<lambda>(listen, ip).
     check (ret (parse_domain L get ip)) (\<lambda>domain.
     check (ret (filepath_Abs L (val get ''DATA_DIR'' ''./data''))) (\<lambda>dir.
     check (ret (parse_device L get)) (\<lambda>dev.
     check (check_auth L (dc_auth dev)) (\<lambda>_.
     check (check_known_hosts L (dc_known_hosts dev)) (\<lambda>_.
     check (ret (parse_apple L get)) (\<lambda>(email, password, mac).
     check (ret (parse_timeout L get)) (\<lambda>timeout.
     check (ret (parse_retention L get)) (\<lambda>retention.
     check (ret (parse_max_upload get)) (\<lambda>max_upload.
     check (ret (parse_queue_limit get)) (\<lambda>queue_limit.
     check (ret (parse_max_attempts get)) (\<lambda>max_attempts.
     check (ret (parse_level L get)) (\<lambda>level.
     check (ret (parse_format L get)) (\<lambda>format.
     ret (Inr \<lparr>cf_listen = listen, cf_domain = domain, cf_data_dir = dir, cf_level = level, cf_format = format,
       cf_device = dev, cf_email = email, cf_password = password, cf_mac = mac, cf_timeout = timeout,
       cf_retention = retention, cf_max_upload = max_upload, cf_queue_limit = queue_limit,
       cf_max_attempts = max_attempts\<rparr>)))))))))))))))"

section \<open>What a parsed configuration satisfies\<close>

definition listen_ok :: "config_lib \<Rightarrow> config \<Rightarrow> bool" where
  "listen_ok L c \<longleftrightarrow> (\<exists>host port ip. SplitHostPort (cf_listen c) = Some (host, port) \<and> port_number port \<noteq> None
     \<and> cl_ip L host = Some ip \<and> (cf_domain c = '''' \<longrightarrow> IsLoopback ip \<or> IsPrivate ip))"

definition device_ok :: "config_lib \<Rightarrow> device_config \<Rightarrow> bool" where
  "device_ok L v \<longleftrightarrow> dc_host v \<noteq> '''' \<and> length (dc_host v) \<le> 253 \<and> (cl_ip L (dc_host v) \<noteq> None \<or> validHostname (dc_host v))
     \<and> 1 \<le> dc_port v \<and> dc_port v \<le> 65535 \<and> matches user_pattern (dc_user v)
     \<and> length (dc_pin v) \<le> 64 \<and> (dc_pin v \<noteq> '''' \<longrightarrow> ValidString (dc_pin v) \<and> \<not> has_control (dc_pin v))
     \<and> da_kind (dc_auth v) \<in> {''key'', ''password''}
     \<and> (da_kind (dc_auth v) = ''password'' \<longrightarrow> da_password (dc_auth v) \<noteq> '''')"

definition numbers_ok :: "config \<Rightarrow> bool" where
  "numbers_ok c \<longleftrightarrow> second \<le> cf_timeout c \<and> cf_timeout c \<le> 86400 * second
     \<and> 60 * second \<le> cf_retention c \<and> cf_retention c \<le> 31536000 * second
     \<and> 1 \<le> cf_max_upload c \<and> cf_max_upload c \<le> 2 ^ 33
     \<and> 1 \<le> cf_queue_limit c \<and> cf_queue_limit c \<le> 1000 \<and> 1 \<le> cf_max_attempts c \<and> cf_max_attempts c \<le> 5"

text \<open>A private regular file at an absolute path.\<close>

definition secret_file :: "string \<Rightarrow> fs \<Rightarrow> bool" where
  "secret_file p f \<longleftrightarrow> IsAbs p \<and> (case fs_get (os_path p) f of None \<Rightarrow> False | Some n \<Rightarrow> private_regular n)"

definition config_ok :: "config_lib \<Rightarrow> fs \<Rightarrow> config \<Rightarrow> bool" where
  "config_ok L f c \<longleftrightarrow> listen_ok L c \<and> device_ok L (cf_device c) \<and> numbers_ok c
     \<and> secret_file (dc_known_hosts (cf_device c)) f
     \<and> (da_kind (dc_auth (cf_device c)) = ''key'' \<longrightarrow> secret_file (da_key_path (dc_auth (cf_device c))) f)
     \<and> (cf_email c = '''' \<longrightarrow> cf_password c = '''' \<and> cf_mac c = '''') \<and> length (cf_email c) \<le> 254
     \<and> (cf_mac c = '''' \<or> length (cf_mac c) = 17) \<and> cf_format c \<in> {''text'', ''json''}"

lemma run_pure:
  "run_state (check (ret x) k) w = (Inr b, w') \<longleftrightarrow> (\<exists>a. x = Inr a \<and> run_state (k a) w = (Inr b, w'))"
  by (cases x) auto

lemma ranged_Inr: "ranged v lo hi m = Inr n \<Longrightarrow> lo \<le> n \<and> n \<le> hi"
  by (auto simp: ranged_def bad_def split: option.splits if_splits)

lemma port_range: "port_number s = Some p \<Longrightarrow> 1 \<le> p \<and> p \<le> 65535"
  by (auto simp: port_number_def split: option.splits if_splits)

lemma parse_listen_Inr:
  "parse_listen L get = Inr (listen, ip) \<Longrightarrow> parse_domain L get ip = Inr domain \<Longrightarrow>
   cf_listen c = listen \<Longrightarrow> cf_domain c = domain \<Longrightarrow> listen_ok L c"
  by (auto simp: parse_listen_def parse_domain_def Let_def bad_def listen_ok_def split: option.splits prod.splits if_splits sum.splits)

lemma check_device_Inr:
  assumes "check_device L host port user pin auth known = Inr v" "da_kind (dc_auth v) \<in> {''key'', ''password''}"
    and "da_kind (dc_auth v) = ''password'' \<longrightarrow> da_password (dc_auth v) \<noteq> ''''" "cl_ip L '''' = None"
  shows "device_ok L v"
proof -
  obtain n where n: "port_number port = Some n" "\<not> (253 < length host \<or> cl_ip L host = None \<and> \<not> validHostname host)"
      "matches user_pattern user" "\<not> (pin \<noteq> '''' \<and> (\<not> ValidString pin \<or> 64 < length pin \<or> TrimSpace pin \<noteq> pin \<or> has_control pin))"
      "v = \<lparr>dc_host = host, dc_port = n, dc_user = user, dc_pin = pin, dc_auth = auth, dc_known_hosts = known\<rparr>"
    using assms(1) unfolding check_device_def bad_def by (simp split: if_splits option.splits)
  have "host \<noteq> ''''" using n(2) assms(4) by (auto simp: validHostname_def)
  then show ?thesis using n port_range [OF n(1)] assms(2,3) unfolding device_ok_def by auto
qed

lemma length_join: "b \<noteq> [] \<Longrightarrow> (\<And>x. length (f x) = 2) \<Longrightarrow> length (join_with '':'' (map f b)) = 3 * length b - 1"
proof (induction b)
  case (Cons x b)
  then show ?case by (cases b) auto
qed simp

lemma mac_length: "length b = 6 \<Longrightarrow> length (mac_string b) = 17"
  unfolding mac_string_def by (subst length_join) (auto simp: length_hex_encode)

lemma check_apple_Inr:
  "check_apple L e p m = Inr (email, password, mac) \<Longrightarrow> (email = '''' \<longrightarrow> password = '''' \<and> mac = '''')
     \<and> length email \<le> 254 \<and> (mac = '''' \<or> length mac = 17)"
  by (auto simp: check_apple_def bad_def mac_length split: option.splits if_splits)

lemmas parse_apple_Inr = check_apple_Inr [of _ "val get ''APPLE_EMAIL'' ''''" "val get ''APPLE_PASSWORD'' ''''"
    "val get ''APPLE_MAC_ADDRESS'' ''''" for get, folded parse_apple_def]

lemma parse_format_Inr: "parse_format L get = Inr s \<Longrightarrow> s \<in> {''text'', ''json''}"
  by (auto simp: parse_format_def Let_def bad_def split: if_splits)

lemma privateFile_None:
  assumes "solo w" "run_state (privateFile p) w = (None, w')"
  shows "secret_file p (files w)" "solo w'" "files w' = files w"
proof -
  have abs: "IsAbs p" using assms(2) by (auto simp: privateFile_def split: if_splits)
  obtain i w1 where i: "run_state (sys (os_Lstat (os_path p))) w = (i, w1)" by fastforce
  then obtain n where n: "i = Inr n" "private_regular n"
    using assms(2) abs by (cases i) (auto simp: privateFile_def split: if_splits)
  note s1 = run_sys_Inr [OF assms(1) i [unfolded n(1)]]
  obtain f w2 where f: "run_state (sys (os_Open (os_path p))) w1 = (f, w2)" by fastforce
  then obtain m where m: "f = Inr m"
    using assms(2) abs i n by (cases f) (auto simp: privateFile_def split: if_splits)
  note s2 = run_sys_Inr [OF s1(2) f [unfolded m]]
  obtain c w3 where c: "run_state (sys os_Close) w2 = (c, w3)" by fastforce
  then have "c = Inr ()" "w' = w3"
    using assms(2) abs i n f m by (auto simp: privateFile_def split: if_splits)
  note s3 = run_sys_Inr [OF s2(2) c [unfolded this(1)]]
  show "secret_file p (files w)" "solo w'" "files w' = files w"
    using s1 s2 s3 n(2) abs \<open>w' = w3\<close>
    by (auto simp: secret_file_def os_Lstat_def os_Open_def os_Close_def split: option.splits)
qed

lemma check_auth_Inr:
  assumes "solo w" "run_state (check_auth L a) w = (Inr u, w')"
  shows "da_kind a \<in> {''key'', ''password''}" "da_kind a = ''password'' \<longrightarrow> da_password a \<noteq> ''''"
    and "da_kind a = ''key'' \<longrightarrow> secret_file (da_key_path a) (files w)" "solo w'" "files w' = files w"
proof -
  show "da_kind a \<in> {''key'', ''password''}" "da_kind a = ''password'' \<longrightarrow> da_password a \<noteq> ''''"
    using assms(2) by (auto simp: check_auth_def bad_def split: if_splits)
  have "(da_kind a = ''key'' \<longrightarrow> secret_file (da_key_path a) (files w)) \<and> solo w' \<and> files w' = files w"
  proof (cases "da_kind a = ''key''")
    case False
    then show ?thesis using assms by (auto simp: check_auth_def bad_def split: if_splits)
  next
    case True
    obtain e w1 where e: "run_state (privateFile (da_key_path a)) w = (e, w1)" by fastforce
    then have "e = None" using assms(2) True by (cases e) (auto simp: check_auth_def)
    note p = privateFile_None [OF assms(1) e [unfolded this]]
    obtain k w2 where k: "run_state (sys (os_ReadFile (os_path (da_key_path a)))) w1 = (k, w2)" by fastforce
    then obtain key where "k = Inr key" "w' = w2"
      using assms(2) True e \<open>e = None\<close> by (cases k) (auto simp: check_auth_def bad_def)
    then show ?thesis
      using p run_sys_Inr [OF p(2) k [unfolded \<open>k = Inr key\<close>]]
      by (auto simp: os_ReadFile_def split: option.splits if_splits)
  qed
  then show "da_kind a = ''key'' \<longrightarrow> secret_file (da_key_path a) (files w)" "solo w'" "files w' = files w"
    by simp_all
qed

lemma check_known_hosts_Inr:
  assumes "solo w" "run_state (check_known_hosts L p) w = (Inr u, w')"
  shows "secret_file p (files w)" "solo w'" "files w' = files w"
proof -
  obtain e w1 where e: "run_state (privateFile p) w = (e, w1)" by fastforce
  then have "e = None" using assms(2) by (cases e) (auto simp: check_known_hosts_def)
  note p = privateFile_None [OF assms(1) e [unfolded this]]
  obtain k w2 where k: "run_state (sys (os_ReadFile (os_path p))) w1 = (k, w2)" by fastforce
  obtain f w3 where f: "run_state (sys (os_ReadFile (os_path p))) w2 = (f, w3)" by fastforce
  obtain d where d: "k = Inr d"
    using assms(2) e \<open>e = None\<close> k by (cases k) (auto simp: check_known_hosts_def bad_def)
  note s2 = run_sys_Inr [OF p(2) k [unfolded d]]
  obtain d' where d': "f = Inr d'" "w' = w3"
    using assms(2) e \<open>e = None\<close> k d f by (cases f) (auto simp: check_known_hosts_def bad_def)
  note s3 = run_sys_Inr [OF s2(2) f [unfolded d'(1)]]
  show "secret_file p (files w)" "solo w'" "files w' = files w"
    using p s2 s3 d'(2) by (auto simp: os_ReadFile_def split: option.splits if_splits)
qed

lemma Parse_ok:
  assumes "solo w" "run_state (Parse L get) w = (Inr c, w')" "cl_ip L '''' = None"
  shows "config_ok L (files w) c" "solo w'" "files w' = files w"
proof -
  obtain ip dev w1 w2 where
      l: "parse_listen L get = Inr (cf_listen c, ip)" and d: "parse_domain L get ip = Inr (cf_domain c)"
    and v: "parse_device L get = Inr dev" "cf_device c = dev"
    and a: "run_state (check_auth L (dc_auth dev)) w = (Inr (), w1)"
    and k: "run_state (check_known_hosts L (dc_known_hosts dev)) w1 = (Inr (), w2)"
    and ap: "parse_apple L get = Inr (cf_email c, cf_password c, cf_mac c)"
    and n: "parse_timeout L get = Inr (cf_timeout c)" "parse_retention L get = Inr (cf_retention c)"
      "parse_max_upload get = Inr (cf_max_upload c)" "parse_queue_limit get = Inr (cf_queue_limit c)"
      "parse_max_attempts get = Inr (cf_max_attempts c)"
    and f: "parse_format L get = Inr (cf_format c)" and w: "w' = w2"
    using assms(2) unfolding Parse_def
    by (auto simp: run_pure split: prod.splits elim!: run_check_Inr)
  note auth = check_auth_Inr [OF assms(1) a]
  note kh = check_known_hosts_Inr [OF auth(4) k]
  have "numbers_ok c"
    using n by (auto simp: numbers_ok_def parse_timeout_def parse_retention_def parse_max_upload_def
        parse_queue_limit_def parse_max_attempts_def dest!: ranged_Inr)
  moreover have "listen_ok L c" by (rule parse_listen_Inr [OF l d]) simp_all
  moreover have "device_ok L dev" using v(1) auth(1,2) assms(3) unfolding parse_device_def by (rule check_device_Inr)
  ultimately show "config_ok L (files w) c" "solo w'" "files w' = files w"
    using auth kh parse_apple_Inr [OF ap] parse_format_Inr [OF f] v(2) w
    by (simp_all add: config_ok_def)
qed

text \<open>
  C25. A configuration that \<open>Parse\<close> accepts is well formed: without a domain the service listens only on a
  loopback or private address; the device has a host name or address, a port and a user of the allowed
  shape; key and known-hosts material are private regular files; every number is in its documented
  range, so four times the upload limit, the bound on the expanded archive, does not wrap around in 64
  bits. (The hypothesis is documented of \<open>net.ParseIP\<close>: the empty string is not an address.)
\<close>

theorem Parse_well_formed:
  assumes "solo w" "run_state (Parse L get) w = (Inr c, w')" "cl_ip L '''' = None"
  shows "config_ok L (files w) c \<and> files w' = files w
    \<and> unat (word_of_int (cf_max_upload c) * 4 :: 64 word) = 4 * nat (cf_max_upload c)"
proof -
  have ok: "config_ok L (files w) c" "files w' = files w" using Parse_ok [OF assms] by simp_all
  then have r: "1 \<le> cf_max_upload c" "cf_max_upload c \<le> 2 ^ 33" by (simp_all add: config_ok_def numbers_ok_def)
  obtain n where n: "cf_max_upload c = int n" using r(1) by (metis int_nat_eq of_nat_1 order.trans zero_le_one nat_0_le)
  then have "word_of_int (cf_max_upload c) * 4 = (word_of_nat (4 * n) :: 64 word)" by simp
  moreover have "4 * n < 2 ^ LENGTH(64)" using r n by simp
  then have "unat (word_of_nat (4 * n) :: 64 word) = 4 * n" by (subst unat_of_nat) simp
  ultimately have "unat (word_of_int (cf_max_upload c) * 4 :: 64 word) = 4 * n" by simp
  then show ?thesis using ok n by simp
qed

section \<open>A minimal environment\<close>

definition sample_env :: "string \<Rightarrow> string" where
  "sample_env k =
     (if k = ''IPA_NOW_DEVICE_HOST'' then ''127.0.0.1''
      else if k = ''IPA_NOW_SSH_AUTH'' then ''password''
      else if k = ''IPA_NOW_SSH_PASSWORD'' then ''alpine''
      else if k = ''IPA_NOW_KNOWN_HOSTS_PATH'' then ''/known''
      else if k = ''IPA_NOW_DATA_DIR'' then ''/data'' else '''')"

definition sample_config_lib :: config_lib where
  "sample_config_lib = \<lparr>cl_ip = (\<lambda>s. if s = ''127.0.0.1'' then Some (replicate 10 0 @ [255, 255, 127, 0, 0, 1]) else None),
     cl_mac = (\<lambda>_. None), cl_address = (\<lambda>_. None),
     cl_duration = (\<lambda>s. if s = ''30m'' then Some (1800 * second) else if s = ''24h'' then Some (86400 * second) else None),
     cl_lower = id, cl_key = (\<lambda>_ _. False), cl_known = (\<lambda>_. True), cl_text = (\<lambda>_. ''''), cl_cwd = None\<rparr>"

definition known_fs :: fs where
  "known_fs = \<lparr>entries = [([''known''], file_node perm_file ''phone.local ssh-ed25519 AAAA'')], locks = []\<rparr>"

definition sample_device :: device_config where
  "sample_device = \<lparr>dc_host = ''127.0.0.1'', dc_port = 22, dc_user = ''mobile'', dc_pin = '''',
     dc_auth = \<lparr>da_kind = ''password'', da_key_path = '''', da_passphrase = '''', da_password = ''alpine''\<rparr>,
     dc_known_hosts = ''/known''\<rparr>"

definition sample_config :: config where
  "sample_config = \<lparr>cf_listen = ''127.0.0.1:8080'', cf_domain = '''', cf_data_dir = ''/data'', cf_level = LevelInfo,
     cf_format = ''text'', cf_device = sample_device, cf_email = '''', cf_password = '''', cf_mac = '''',
     cf_timeout = 1800 * second, cf_retention = 86400 * second, cf_max_upload = 2147483648, cf_queue_limit = 20,
     cf_max_attempts = 3\<rparr>"

lemma sample_parts:
  "parse_listen sample_config_lib sample_env = Inr (''127.0.0.1:8080'', replicate 10 0 @ [255, 255, 127, 0, 0, 1])"
  "parse_domain sample_config_lib sample_env (replicate 10 0 @ [255, 255, 127, 0, 0, 1]) = Inr ''''"
  "filepath_Abs sample_config_lib (val sample_env ''DATA_DIR'' ''./data'') = Inr ''/data''"
  "parse_device sample_config_lib sample_env = Inr sample_device"
  "parse_apple sample_config_lib sample_env = Inr ('''', '''', '''')"
  "parse_timeout sample_config_lib sample_env = Inr (1800 * second)"
  "parse_retention sample_config_lib sample_env = Inr (86400 * second)"
  "parse_max_upload sample_env = Inr 2147483648"
  "parse_queue_limit sample_env = Inr 20" "parse_max_attempts sample_env = Inr 3"
  "parse_level sample_config_lib sample_env = Inr LevelInfo" "parse_format sample_config_lib sample_env = Inr ''text''"
  by code_simp+

lemma sample_trimmed: "TrimSpace ''phone.local ssh-ed25519 AAAA'' = ''phone.local ssh-ed25519 AAAA''" (is "TrimSpace ?s = ?s")
proof -
  have codes: "list_all (\<lambda>p. p \<noteq> [] \<and> hd p \<noteq> CHR ''p'' \<and> last p \<noteq> CHR ''A'') space_codes"
    by code_simp
  have "\<not> HasPrefix ?s p" "\<not> HasSuffix ?s p" if "p \<in> set space_codes" for p
  proof -
    have p: "p \<noteq> []" "hd p \<noteq> CHR ''p''" "last p \<noteq> CHR ''A''" using codes that by (auto simp: list_all_iff)
    show "\<not> HasPrefix ?s p" using p(1,2) by (cases p) (auto simp: HasPrefix_def)
    show "\<not> HasSuffix ?s p"
    proof
      assume "HasSuffix ?s p"
      then obtain t where "?s = t @ p" unfolding HasSuffix_iff by blast
      then have "last ?s = last p" using p(1) by (metis last_appendR)
      then show False using p(3) by simp
    qed
  qed
  then have "find (HasPrefix ?s) space_codes = None" "find (HasSuffix ?s) space_codes = None"
    by (auto simp: find_None_iff)
  then show ?thesis by (simp add: TrimSpace_def trim_spaces_left.simps trim_spaces_right.simps)
qed

lemma sample_host_key: "has_host_key ''phone.local ssh-ed25519 AAAA''" "os_path ''/known'' = [''known'']"
    "IsAbs ''/known''" "private_regular (file_node perm_file s)"
proof -
  have "split_on CHR 0x0A ''phone.local ssh-ed25519 AAAA'' = [''phone.local ssh-ed25519 AAAA'']" by code_simp
  then show "has_host_key ''phone.local ssh-ed25519 AAAA''" by (simp add: has_host_key_def sample_trimmed HasPrefix_def)
  show "os_path ''/known'' = [''known'']" "IsAbs ''/known''" by code_simp+
  show "private_regular (file_node perm_file s)"
    by (simp add: private_regular_def file_node_def exposed_def perm_file_def)
qed

lemma Parse_evaluates:
  assumes "script w = []" "\<not> crashed w" "files w = known_fs"
  shows "run_state (Parse sample_config_lib sample_env) w = (Inr sample_config, w)"
proof -
  have w: "w\<lparr>files := known_fs\<rparr> = w" using assms(3) by (cases w) simp
  have f: "fs_get [''known''] known_fs = Some (file_node perm_file ''phone.local ssh-ed25519 AAAA'')"
    by (simp add: known_fs_def fs_get_def)
  have "run_state (check_auth sample_config_lib (dc_auth sample_device)) w = (Inr (), w)"
    by (simp add: check_auth_def sample_device_def)
  moreover have "run_state (check_known_hosts sample_config_lib (dc_known_hosts sample_device)) w = (Inr (), w)"
    using sample_host_key
    by (simp add: check_known_hosts_def privateFile_def sample_device_def sys_quiet assms w f os_Lstat_def os_Open_def os_Close_def
        os_ReadFile_def) (simp add: file_node_def sample_config_lib_def)
  ultimately show ?thesis by (simp add: Parse_def sample_parts run_check sample_config_def del: One_nat_def)
qed

theorem Parse_well_formed_witness:
  "run_state (Parse sample_config_lib sample_env) (quiet_world known_fs) = (Inr sample_config, quiet_world known_fs)
     \<and> config_ok sample_config_lib known_fs sample_config"
proof -
  have "cl_ip sample_config_lib '''' = None" by (simp add: sample_config_lib_def)
  moreover have "run_state (Parse sample_config_lib sample_env) (quiet_world known_fs) = (Inr sample_config, quiet_world known_fs)"
    by (rule Parse_evaluates) (simp_all add: quiet_world_def)
  ultimately show ?thesis using Parse_well_formed [OF solo_quiet] by simp
qed

end
