(* ===== verification/Startup.thy ===== *)
theory Startup
  imports HttpContract Config
begin

text \<open>
  The process (\<open>cmd/ipa-now/main.go\<close>): \<open>run\<close> opens the data directory and the database, wires the
  components together, recovers, binds the address, and ends when a signal arrives or one of its two
  goroutines returns. The operations of the library, the archive and digest functions and the JSON codec
  of the session come in through the records of the components (\<open>pc_adapter\<close>, \<open>pc_worker\<close>, \<open>pc_http\<close>);
  every field the program sets itself is set here.
\<close>

record process =
  pc_config :: config_lib
  pc_env :: "string \<Rightarrow> string"
  pc_database :: db_file
  pc_json :: account_json
  pc_adapter :: adapter
  pc_worker :: worker
  pc_http :: http_lib

section \<open>Wiring\<close>

definition data_path :: "config \<Rightarrow> path" where
  "data_path c = os_path (cf_data_dir c)"

definition wire_secrets :: "process \<Rightarrow> config \<Rightarrow> secret_store" where
  "wire_secrets P c = new_secrets (pc_json P) (data_path c) (cf_email c) (cf_password c) (cf_mac c)"

definition wire_adapter :: "process \<Rightarrow> config \<Rightarrow> adapter" where
  "wire_adapter P c = (pc_adapter P)\<lparr>
     ad_operations := True,
     ad_journal_dir := path_string (data_path c @ [''device-journal'']),
     ad_transport := True,
     ad_device := cf_device c,
     ad_secrets := wire_secrets P c,
     ad_enabled := (\<lambda>l. cf_level c \<le> l)\<rparr>"

text \<open>\<open>RetryDelay\<close> and \<open>CleanupTimeout\<close> keep their zero values.\<close>

definition wire_worker :: "process \<Rightarrow> config \<Rightarrow> worker" where
  "wire_worker P c = adapter_worker (wire_adapter P c) ((pc_worker P)\<lparr>
     wk_root := data_path c, wk_timeout := cf_timeout c, wk_retention := cf_retention c,
     wk_max_attempts := cf_max_attempts c, wk_retry_delay := 0, wk_cleanup_timeout := 0\<rparr>)"

definition wire_server :: "process \<Rightarrow> config \<Rightarrow> server" where
  "wire_server P c =
     \<lparr>sv_hosts = [if cf_domain c \<noteq> '''' then cf_domain c else cf_listen c],
      sv_origin = (if cf_domain c \<noteq> '''' then ''https://'' @ cf_domain c else ''http://'' @ cf_listen c),
      sv_worker = wire_worker P c, sv_max_upload = cf_max_upload c, sv_queue_limit = cf_queue_limit c,
      sv_apple = (cf_email c \<noteq> ''''), sv_lib = pc_http P,
      sv_enabled = (\<lambda>l. cf_level c \<le> l)\<rparr>"

section \<open>Opening the database\<close>

text \<open>\<open>jobs.Open\<close>: the database and its two companions must be private regular files or missing.\<close>

definition db_path :: "path \<Rightarrow> string \<Rightarrow> path" where
  "db_path root sfx = root @ [''jobs.db'' @ sfx]"

definition db_guard :: "path \<Rightarrow> string \<Rightarrow> (go_error + unit) io" where
  "db_guard root sfx = do {
     i \<leftarrow> sys (os_Lstat (db_path root sfx));
     ret (case i of
        Inr n \<Rightarrow>
          if \<not> private_regular n then Inl (ErrText ''database files must be private regular files'') else Inr ()
      | Inl e \<Rightarrow> if errors_is e ErrNotExist then Inr () else Inl e) }"

definition load_db :: "db_file \<Rightarrow> unit tx" where
  "load_db fl d = (case open_db fl of Inl e \<Rightarrow> Inl e | Inr d' \<Rightarrow> Inr ((), d'))"

definition jobs_Open :: "path \<Rightarrow> db_file \<Rightarrow> (go_error + unit) io" where
  "jobs_Open root fl =
     check (for_each (db_guard root) ['''', ''-wal'', ''-shm'']) (\<lambda>_.
     check (sys (os_OpenCreate (db_path root '''') perm_file)) (\<lambda>_.
     check (sys os_Close) (\<lambda>_.
     check (db_tx (\<lambda>now r. load_db fl)) (\<lambda>_. do {
     modify (\<lambda>w. w\<lparr>db_open := True\<rparr>);
     ret (Inr ()) }))))"

text \<open>\<open>Store.Close\<close>: the connection is gone even when closing it reports an error.\<close>

definition jobs_Close :: "(go_error + unit) io" where
  "jobs_Close = do {
     s \<leftarrow> env_step;
     State (\<lambda>w.
       if outcome s = Crash then (Inl ErrDatabase, w)
       else (if outcome s = Succeed then Inr () else Inl ErrDatabase, w\<lparr>db_open := False\<rparr>)) }"

section \<open>Start\<close>

definition net_Listen :: "unit syscall" where
  "net_Listen f = Inr ((), f)"

text \<open>\<open>run\<close> from the opened database to the moment the goroutines start.\<close>

definition start_opened :: "process \<Rightarrow> config \<Rightarrow> (go_error + server) io" where
  "start_opened P c = do {
     a \<leftarrow> account_Load (wire_secrets P c);
     case a of
       Inl e \<Rightarrow> ret (Inl (ErrText ''unable to load the configured Apple account''))
     | Inr _ \<Rightarrow> do {
         e \<leftarrow> Recover (wire_worker P c);
         case e of
           Some x \<Rightarrow> ret (Inl (ErrText ''startup reconciliation failed; inspect the private data directory''))
         | None \<Rightarrow> do {
             l \<leftarrow> sys net_Listen;
             ret (case l of
                Inl x \<Rightarrow> Inl (ErrText ''unable to bind the configured listen address'')
              | Inr _ \<Rightarrow> Inr (wire_server P c)) } } }"

text \<open>From the opened data directory; the deferred \<open>store.Close\<close> closes the database on every later error.\<close>

definition start :: "process \<Rightarrow> config \<Rightarrow> (go_error + server) io" where
  "start P c =
     (if has_char CHR 0x00 (path_string (data_path c @ [''tmp'']))
      then ret (Inl (ErrText ''unable to isolate temporary files''))
      else do {
        d \<leftarrow> jobs_Open (data_path c) (pc_database P);
        case d of
          Inl e \<Rightarrow> ret (Inl (ErrText ''unable to open SQLite job database''))
        | Inr _ \<Rightarrow> do {
            r \<leftarrow> start_opened P c;
            case r of
              Inl e \<Rightarrow> do { _ \<leftarrow> jobs_Close; ret (Inl e) }
            | Inr S \<Rightarrow> ret (Inr S) } })"

text \<open>The deferred \<open>files.Close\<close> gives the lock back on every later error.\<close>

definition boot :: "process \<Rightarrow> (go_error + config \<times> server) io" where
  "boot P =
     check (Parse (pc_config P) (pc_env P)) (\<lambda>c.
     check (storage_Open (data_path c)) (\<lambda>_. do {
       s \<leftarrow> start P c;
       case s of
         Inl e \<Rightarrow> do { _ \<leftarrow> storage_Close (data_path c); ret (Inl e) }
       | Inr S \<Rightarrow> ret (Inr (c, S)) }))"

section \<open>Stop\<close>

text \<open>Which case of the first \<open>select\<close> fired. \<open>srv.Serve\<close> always returns an error.\<close>

datatype stop_cause = StopSignal | WorkerEnded | ServerEnded go_error






section \<open>A started service\<close>

lemma load_db_triple:
  assumes "\<And>d. open_db fl = Inr d \<Longrightarrow> inv_store d"
  shows "holds (\<lambda>_. True) (db_tx (\<lambda>now r. load_db fl)) (\<lambda>r w. \<forall>u. r = Inr u \<longrightarrow> inv_store (store w))"
  unfolding db_tx_def
  by (rule holds_bind [where R = "\<lambda>_ _. True"])
    (auto simp: holds_def load_db_def put_store_def assms split: sum.splits prod.splits)

lemma holds_any: "(\<And>a. holds (\<lambda>_. True) (k a) Q) \<Longrightarrow> (\<And>e s. Q (Inl e) s) \<Longrightarrow> holds (\<lambda>_. True) (check m k) Q"
  by (rule holds_check [where R = "\<lambda>_ _. True"]) (simp_all add: holds_def split: prod.split)

lemma jobs_Open_triple:
  assumes "\<And>d. open_db fl = Inr d \<Longrightarrow> inv_store d"
  shows "holds (\<lambda>_. True) (jobs_Open root fl) (\<lambda>r w. \<forall>u. r = Inr u \<longrightarrow> inv_store (store w))"
proof -
  let ?Q = "\<lambda>r w. \<forall>u :: unit. r = Inr u \<longrightarrow> inv_store (store w)"
  have "holds (\<lambda>_. True) (check (db_tx (\<lambda>now r. load_db fl)) (\<lambda>_. do {
     modify (\<lambda>w. w\<lparr>db_open := True\<rparr>);
     ret (Inr ()) })) ?Q"
    by (rule holds_check [OF load_db_triple [OF assms]]) (auto simp: holds_def modify_def)
  note last = this
  show ?thesis
    unfolding jobs_Open_def
    by (rule holds_any, rule holds_any, rule holds_any, rule last) simp_all
qed

lemma keeps_jobs_Close [keeps_rules]: "db_stable p \<Longrightarrow> keeps (on_store p) jobs_Close"
  unfolding jobs_Close_def by (intro keeps_rules) (auto simp: keeps_def holds_def)

lemma start_opened_triple:
  "holds (on_store inv_store) (start_opened P c) (\<lambda>r w. \<forall>S. r = Inr S \<longrightarrow> S = wire_server P c \<and> free (store w))"
proof -
  let ?Q = "\<lambda>r w. \<forall>S. r = Inr S \<longrightarrow> S = wire_server P c \<and> free (store w)"
  have fail: "holds X (ret (Inl e)) ?Q" for X e by (simp add: holds_def)
  have listen: "holds (on_store free) (do {
      l \<leftarrow> sys net_Listen;
      ret (case l of
         Inl x \<Rightarrow> Inl (ErrText ''unable to bind the configured listen address'')
       | Inr _ \<Rightarrow> Inr (wire_server P c)) }) ?Q"
    by (rule holds_bind [OF keeps_holds [OF keeps_sys [OF stable_free]] holds_ret]) (simp split: sum.split)
  have recover: "holds (on_store inv_store) (Recover (wire_worker P c)) (restored UNIV)"
    unfolding wire_worker_def
    using adapter.Recover_restores [where V = UNIV, OF adapter_worker_engine] by simp
  have load: "holds (on_store inv_store) (account_Load (wire_secrets P c)) (\<lambda>_. on_store inv_store)"
    by (rule keeps_holds [OF keeps_account_Load [OF stable_inv]])
  show ?thesis
    unfolding start_opened_def
    by (rule holds_bind [OF load], rule holds_sum, rule fail,
        rule holds_bind [OF recover], rule holds_option, rule holds_pre [OF listen],
        auto simp: restored_def dest: alongD intro: fail)
qed

lemma start_triple:
  assumes "\<And>d. open_db (pc_database P) = Inr d \<Longrightarrow> inv_store d"
  shows "holds (\<lambda>_. True) (start P c) (\<lambda>r w. \<forall>S. r = Inr S \<longrightarrow> S = wire_server P c \<and> free (store w))"
proof -
  let ?Q = "\<lambda>r w. \<forall>S. r = Inr S \<longrightarrow> S = wire_server P c \<and> free (store w)"
  have fail: "holds X (ret (Inl e)) ?Q" for X e by (simp add: holds_def)
  have close: "holds X (jobs_Close \<bind> (\<lambda>_. ret (Inl e))) ?Q" for X e
    by (simp add: holds_def split: prod.split)
  have opened: "holds (on_store inv_store) (do {
      r \<leftarrow> start_opened P c;
      case r of
        Inl e \<Rightarrow> do { _ \<leftarrow> jobs_Close; ret (Inl e) }
      | Inr S \<Rightarrow> ret (Inr S) }) ?Q"
    by (rule holds_bind [OF start_opened_triple], rule holds_sum, rule close, rule holds_ret) simp
  show ?thesis
    unfolding start_def
    apply (rule holds_if, rule fail)
    apply (rule holds_bind [OF jobs_Open_triple [OF assms]], simp)
    apply (rule holds_sum, rule fail)
    apply (rule holds_pre [OF opened])
    apply simp
    done
qed

lemma boot_started:
  assumes "run_state (boot P) w = (Inr (c, S), w')"
  obtains w1 u w2 where "run_state (Parse (pc_config P) (pc_env P)) w = (Inr c, w1)"
    "run_state (storage_Open (data_path c)) w1 = (Inr u, w2)" "run_state (start P c) w2 = (Inr S, w')"
proof -
  obtain c' w1 where 1: "run_state (Parse (pc_config P) (pc_env P)) w = (Inr c', w1)"
      "run_state (check (storage_Open (data_path c')) (\<lambda>_. do {
         s \<leftarrow> start P c';
         case s of
           Inl e \<Rightarrow> do { _ \<leftarrow> storage_Close (data_path c'); ret (Inl e) }
         | Inr S \<Rightarrow> ret (Inr (c', S)) })) w1 = (Inr (c, S), w')"
    using run_check_Inr [OF assms [unfolded boot_def]] by metis
  obtain u w2 where 2: "run_state (storage_Open (data_path c')) w1 = (Inr u, w2)"
      "run_state (do {
         s \<leftarrow> start P c';
         case s of
           Inl e \<Rightarrow> do { _ \<leftarrow> storage_Close (data_path c'); ret (Inl e) }
         | Inr S \<Rightarrow> ret (Inr (c', S)) }) w2 = (Inr (c, S), w')"
    using run_check_Inr [OF 1(2)] by metis
  have "c' = c \<and> run_state (start P c') w2 = (Inr S, w')"
    using 2(2) by (auto split: prod.splits sum.splits)
  then show thesis using that 1(1) 2(1) by blast
qed

text \<open>
  C23. A service that comes up was started right: the configuration is well formed, nobody else held the
  lock of the data directory, the job store satisfies the invariant with nothing in flight and the device
  free, and the API answers for exactly one host and expects exactly its origin, with the configured
  limits.
\<close>

theorem boot_ready:
  assumes "solo w" "run_state (boot P) w = (Inr (c, S), w')" "cl_ip (pc_config P) '''' = None"
    and "\<And>d. open_db (pc_database P) = Inr d \<Longrightarrow> inv_store d"
  shows "config_ok (pc_config P) (files w) c \<and> lock_path (data_path c) \<notin> set (locks (files w))
    \<and> inv_store (store w') \<and> (\<forall>k \<in> set (jobs (store w')). \<not> in_flight k) \<and> dev_owner (device (store w')) = ''''
    \<and> (\<exists>host. sv_hosts S = [host] \<and> (\<forall>q. host_allowed S q \<longleftrightarrow> hq_host q = host)
         \<and> sv_origin S = (if cf_domain c = '''' then ''http://'' else ''https://'') @ host)
    \<and> sv_max_upload S = cf_max_upload c \<and> sv_queue_limit S = cf_queue_limit c \<and> wk_root (sv_worker S) = data_path c"
proof -
  from boot_started [OF assms(2)] obtain w1 u w2 where
      p: "run_state (Parse (pc_config P) (pc_env P)) w = (Inr c, w1)"
    and o: "run_state (storage_Open (data_path c)) w1 = (Inr u, w2)"
    and s: "run_state (start P c) w2 = (Inr S, w')" .
  note ok = Parse_ok [OF assms(1) p assms(3)]
  have lock: "lock_path (data_path c) \<notin> set (locks (files w))"
    using open_takes_lock [OF ok(2) o] ok(3) by simp
  have S: "S = wire_server P c" and f: "free (store w')"
    using holdsD [OF start_triple [OF assms(4)] _ s] by simp_all
  then show ?thesis
    using ok(1) lock
    by (simp add: wire_server_def wire_worker_def adapter_worker_def host_allowed_def free_def settled_def)
qed

section \<open>An orderly end\<close>








end
