(* ===== verification/ServiceExamples.thy ===== *)
theory ServiceExamples
  imports Service
begin

text \<open>
  The properties of the service at concrete inputs: a worker behind an adapter whose device cannot be
  reached, on a data directory with its four working directories, without interference from others.
\<close>

section \<open>Calls without interference\<close>

lemma env_step_quiet: "script w = [] \<Longrightarrow> \<not> crashed w \<Longrightarrow> run_state env_step w = (idle_slot, w)"
  by (simp add: env_step_def next_slot_def idle_slot_def)

lemma db_tx_quiet:
  "script w = [] \<Longrightarrow> \<not> crashed w \<Longrightarrow> run_state (db_tx t) w =
    (case t (clock w) 0 (store w) of Inl e \<Rightarrow> (Inl e, w) | Inr (a, d) \<Rightarrow> (Inr a, put_store d w))"
  by (simp add: db_tx_def env_step_quiet) (simp add: idle_slot_def)

lemma time_now_quiet: "script w = [] \<Longrightarrow> \<not> crashed w \<Longrightarrow> run_state time_now w = (clock w, w)"
  by (simp add: time_now_def env_step_quiet)

lemma ctx_Err_quiet: "script w = [] \<Longrightarrow> \<not> crashed w \<Longrightarrow> run_state (ctx_Err c) w = (ctx_error c w, w)"
  by (simp add: ctx_Err_def env_step_quiet)

lemmas quiet_calls = env_step_quiet db_tx_quiet time_now_quiet ctx_Err_quiet sys_quiet gets_def modify_def live_def

definition empty_dirs :: fs where
  "empty_dirs = \<lparr>entries = map (\<lambda>n. ([''data'', n], dir_node 448)) [''work'', ''inputs'', ''artifacts'', ''tmp''], locks = []\<rparr>"

definition sample_worker :: worker where
  "sample_worker = \<lparr>wk_root = [''data''], wk_engine = adapter_engine sample_adapter, wk_timeout = 60 * second,
     wk_retention = 60 * second, wk_max_attempts = 1, wk_retry_delay = 0, wk_cleanup_timeout = 0,
     wk_archives = sample_lib, wk_sha256 = (\<lambda>s. [])\<rparr>"

lemma sample_worker_adapter: "adapter_worker sample_adapter sample_worker = sample_worker"
  by (simp add: adapter_worker_def sample_worker_def)

definition recorded_world :: world where
  "recorded_world = (quiet_world empty_dirs)\<lparr>store := sample_running\<lparr>operations :=
     [\<lparr>op_id = NewID 0, op_job = sample_id 1, op_created = 0\<rparr>]\<rparr>\<rparr>"

lemma cleanup_evaluates:
  "run_state (cleanupDevice sample_worker (sample_id 1)) (recorded_world\<lparr>store := d\<lparr>operations :=
     [\<lparr>op_id = NewID 0, op_job = sample_id 1, op_created = 0\<rparr>]\<rparr>\<rparr>) = (True, recorded_world\<lparr>store := d\<lparr>operations :=
     [\<lparr>op_id = NewID 0, op_job = sample_id 1, op_created = 0\<rparr>]\<rparr>\<rparr>)"
  by (simp add: cleanupDevice_def sample_worker_def adapter_engine_def Adapter_Cleanup_def sample_adapter_def
      IsAbs_def HasPrefix_def Let_def recorded_world_def quiet_world_def quiet_calls second_def store_Operations_def
      put_store_def plain_call_def)

lemma files_evaluates:
  "run_state (Remove [''data''] ''work'' (sample_id 1)) (recorded_world\<lparr>store := d\<rparr>) = (None, recorded_world\<lparr>store := d\<rparr>)"
  "run_state (Remove [''data''] ''inputs'' (sample_id 1)) (recorded_world\<lparr>store := d\<rparr>) = (None, recorded_world\<lparr>store := d\<rparr>)"
  "run_state (Remove [''data''] ''artifacts'' (sample_id 1)) (recorded_world\<lparr>store := d\<rparr>) = (None, recorded_world\<lparr>store := d\<rparr>)"
  "run_state (CleanupTemp [''data'']) (recorded_world\<lparr>store := d\<rparr>) = (None, recorded_world\<lparr>store := d\<rparr>)"
  by (simp_all add: recorded_world_def quiet_world_def quiet_calls Remove_def Path_def os_RemoveAll_def empty_dirs_def
   fs_del_tree_def os_Remove_def fs_get_def CleanupTemp_def run_check os_ReadDir_def is_dir_def dir_node_def children_def errors_is_def)


lemma recorded_quiet: "script (recorded_world\<lparr>store := d\<rparr>) = []" "\<not> crashed (recorded_world\<lparr>store := d\<rparr>)"
  "clock (recorded_world\<lparr>store := d\<rparr>) = 0"
  by (simp_all add: recorded_world_def quiet_world_def)

lemma put_recorded: "put_store d' (recorded_world\<lparr>store := d\<rparr>) = recorded_world\<lparr>store := d'\<rparr>"
  by (simp add: put_store_def)

definition cleaning_db :: "string \<Rightarrow> db" where
  "cleaning_db code = update_jobs 0 (by_id (sample_id 1)) (\<lambda>k. k\<lparr>job_state := Cleaning, job_phase := ''cleaning'', pending_state := Failed,
     error_code := code, error_message := safeMessage code, failure_reason := code\<rparr>)
     (store recorded_world)"

lemma begin_evaluates:
  "store_BeginCleanup 0 (sample_id 1) Failed code (safeMessage code) (store recorded_world) = Inr (Failed, cleaning_db code)"
  by (simp add: cleaning_db_def recorded_world_def sample_running_def sample_defs step_defs del: safeMessage.simps)

lemma cleaning_ops: "cleaning_db code = (cleaning_db code)\<lparr>operations := [\<lparr>op_id = NewID 0, op_job = sample_id 1, op_created = 0\<rparr>]\<rparr>"
  by (simp add: cleaning_db_def recorded_world_def update_jobs_def)

lemma conclude_evaluates:
  "\<exists>w'. run_state (conclude sample_worker (sample_id 1)) (recorded_world\<lparr>store := cleaning_db code\<rparr>) = (None, w')"
  by (simp add: conclude_def Expire_def quiet_calls recorded_quiet put_recorded store_All_def cleaning_db_def
    recorded_world_def quiet_world_def sample_running_def sample_defs step_defs store_Get_def store_Change_def put_store_def
    del: safeMessage.simps)

text \<open>The workspace of the job.\<close>

definition workspace_fs :: fs where
  "workspace_fs = fs_put [''data'', ''work'', sample_id 1] (dir_node perm_dir) empty_dirs"

lemma workspace_removed:
  "run_state (Remove [''data''] ''work'' (sample_id 1)) (recorded_world\<lparr>files := workspace_fs, store := d\<rparr>)
   = (None, recorded_world\<lparr>store := d\<rparr>)"
  by (simp add: recorded_world_def quiet_world_def quiet_calls Remove_def Path_def os_RemoveAll_def empty_dirs_def
   workspace_fs_def fs_put_def fs_del_tree_def)

lemma finish_evaluates:
  assumes "code \<noteq> ''''" "w = recorded_world \<or> w = recorded_world\<lparr>files := workspace_fs\<rparr>"
  shows "\<exists>w'. run_state (finish sample_worker (sample_id 1) Failed code True) w = (None, w')"
proof -
  let ?d = "cleaning_db code"
  obtain w' where c: "run_state (conclude sample_worker (sample_id 1)) (recorded_world\<lparr>store := ?d\<rparr>) = (None, w')"
    using conclude_evaluates by blast
  have root: "wk_root sample_worker = [''data'']" by (simp add: sample_worker_def)
  have cl: "run_state (cleanupDevice sample_worker (sample_id 1)) (recorded_world\<lparr>store := ?d\<rparr>)
     = (True, recorded_world\<lparr>store := ?d\<rparr>)"
    using cleanup_evaluates [of ?d] cleaning_ops [of code] by simp
  have "\<exists>w2. run_state (Jobs_BeginCleanup (sample_id 1) Failed code (safeMessage code)) w = (Inr Failed, w2)
     \<and> run_state (Remove [''data''] ''work'' (sample_id 1)) w2 = (None, recorded_world\<lparr>store := ?d\<rparr>)"
    using assms(2)
  proof
    assume w: "w = recorded_world"
    then show ?thesis
      using recorded_quiet [of "store recorded_world"] put_recorded [of _ "store recorded_world"]
      by (simp add: db_tx_quiet begin_evaluates files_evaluates del: safeMessage.simps One_nat_def)
  next
    assume w: "w = recorded_world\<lparr>files := workspace_fs\<rparr>"
    then have "run_state (Jobs_BeginCleanup (sample_id 1) Failed code (safeMessage code)) w
        = (Inr Failed, recorded_world\<lparr>files := workspace_fs, store := ?d\<rparr>)"
      using recorded_quiet [of "store recorded_world"]
      by (simp add: db_tx_quiet begin_evaluates put_store_def del: safeMessage.simps One_nat_def)
    then show ?thesis using workspace_removed by blast
  qed
  then show ?thesis
    using assms(1) by (auto simp: finish_def root files_evaluates c cl simp del: safeMessage.simps One_nat_def)
qed

theorem finish_needs_confirmation_witness:
  "\<exists>w'. run_state (finish sample_worker (sample_id 1) Failed ''timeout'' True) recorded_world = (None, w')
    \<and> (dev_quarantined (device (store w')) \<or> device_clean sample_adapter (sample_id 1) (store w'))"
proof -
  obtain w' where run: "run_state (finish sample_worker (sample_id 1) Failed ''timeout'' True) recorded_world = (None, w')"
    using finish_evaluates [of "''timeout''" recorded_world] by auto
  from finish_needs_confirmation [of sample_adapter sample_worker, unfolded sample_worker_adapter, OF this] run
  show ?thesis by blast
qed

definition failed_start :: engine_result where
  "failed_start = no_result\<lparr>er_review := True\<rparr>"

lemma decrypt_evaluates:
  assumes "script w = []" "\<not> crashed w" "store w = sample_running" "transport w = idle_transport"
    "rq_id rq = sample_id 1" "rq_source rq = ''installed''" "\<not> ctx_done c w"
  shows "run_state (Adapter_Decrypt sample_adapter c rq) w = ((failed_start,
     Some (ErrFailure ''device_unavailable'' True True (Some (ErrNet ''no route to host'')))),
     w\<lparr>store := sample_running\<lparr>operations := [\<lparr>op_id = NewID 0, op_job = sample_id 1, op_created = clock w\<rparr>]\<rparr>\<rparr>)"
proof -
  have ce: "ctx_error c (w\<lparr>transport := t, store := d\<rparr>) = None" for t d
    using assms(7) by (cases c) (auto split: if_splits)
  show ?thesis
    using assms
    by (simp add: Adapter_Decrypt_def scope_begin_def Scope_def Scope_release_def decrypt_scoped_def
        obtain_account_def account_Load_def sample_adapter_def new_secrets_def ce idle_transport_def
        IsAbs_def HasPrefix_def quiet_calls store_StartOperation_def
        sample_running_def sample_defs step_defs put_store_def conclude_call_def classify_def verified_def
        errors_is_lib_def errors_as_net_def metadata_of_def failed_start_def no_result_def del: One_nat_def)
qed

text \<open>A whole run of a job against a device that cannot be reached.\<close>

lemma run_evaluates:
  "\<exists>w'. run_state (run_job sample_worker (sample_job 1 0 Running)) ((quiet_world empty_dirs)\<lparr>store := sample_running\<rparr>) = (None, w')"
proof -
  let ?w0 = "(quiet_world empty_dirs)\<lparr>store := sample_running\<rparr>" and ?c = "JobCtx (60 * second)"
  let ?w1 = "?w0\<lparr>files := workspace_fs\<rparr>"
  let ?w2 = "?w1\<lparr>monitor := Some (sample_id 1)\<rparr>"
  let ?err = "Some (ErrFailure ''device_unavailable'' True True (Some (ErrNet ''no route to host'')))"
  let ?ws = "[''data'', ''work'', sample_id 1]"
  let ?rq = "\<lparr>rq_id = sample_id 1, rq_target = ''com.example.app'', rq_source = ''installed'', rq_workspace = ?ws, rq_progress = emit\<rparr>"
  have job: "job_id (sample_job 1 0 Running) = sample_id 1" "job_target (sample_job 1 0 Running) = ''com.example.app''"
    "job_source (sample_job 1 0 Running) = ''installed''" "\<not> cancel_requested (sample_job 1 0 Running)"
    by (simp_all add: sample_job_def new_job_def)
  have W: "wk_root sample_worker = [''data'']" "wk_timeout sample_worker = 60 * second"
    "wk_max_attempts sample_worker = 1" "wk_engine sample_worker = adapter_engine sample_adapter"
    by (simp_all add: sample_worker_def)
  have ws: "run_state (Workspace [''data''] (sample_id 1)) ?w0 = (Inr ?ws, ?w1)"
    by (simp add: Workspace_def Path_def run_check quiet_calls quiet_world_def os_Mkdir_def workspace_fs_def
        empty_dirs_def fs_get_def is_dir_def dir_node_def)
  have now: "run_state time_now ?w1 = (0, ?w1)" by (simp add: quiet_calls quiet_world_def)
  have mon: "run_state (start_monitor (sample_id 1)) ?w1 = ((), ?w2)"
    by (simp add: start_monitor_def modify_def quiet_world_def)
  have dec: "run_state (Adapter_Decrypt sample_adapter ?c ?rq) ?w2 = ((failed_start, ?err),
      (recorded_world\<lparr>files := workspace_fs\<rparr>)\<lparr>monitor := Some (sample_id 1)\<rparr>)"
    by (subst decrypt_evaluates) (simp_all add: quiet_world_def second_def recorded_world_def)
  have att: "run_state (attempts_loop sample_worker ?c ?rq (nat 1) 1 (no_result, None)) ?w2 = ((failed_start, ?err),
      (recorded_world\<lparr>files := workspace_fs\<rparr>)\<lparr>monitor := Some (sample_id 1)\<rparr>)"
    using dec by (simp add: W adapter_engine_def)
  have stop: "run_state stop_monitor ((recorded_world\<lparr>files := workspace_fs\<rparr>)\<lparr>monitor := Some (sample_id 1)\<rparr>)
      = (None, recorded_world\<lparr>files := workspace_fs\<rparr>)"
    by (simp add: stop_monitor_def quiet_calls recorded_world_def quiet_world_def)
  obtain w' where fin: "run_state (finish sample_worker (sample_id 1) Failed ''device_unavailable'' True)
      (recorded_world\<lparr>files := workspace_fs\<rparr>) = (None, w')"
    using finish_evaluates [of "''device_unavailable''" "recorded_world\<lparr>files := workspace_fs\<rparr>"] by auto
  have get: "run_state (Jobs_Get (sample_id 1)) (recorded_world\<lparr>files := workspace_fs\<rparr>)
      = (Inr (sample_job 1 0 Running), recorded_world\<lparr>files := workspace_fs\<rparr>)"
    by (simp add: quiet_calls recorded_world_def quiet_world_def sample_running_def sample_db_def sample_job_def
       update_device_def store_Get_def find_job_def new_job_def put_store_def)
  have meta: "run_state (Jobs_Metadata (sample_id 1) (result_fields failed_start)) (recorded_world\<lparr>files := workspace_fs\<rparr>)
      = (Inr (), recorded_world\<lparr>files := workspace_fs\<rparr>)"
    by (simp add: quiet_calls recorded_world_def quiet_world_def sample_running_def sample_db_def sample_job_def
       update_device_def store_Metadata_def update_jobs_def new_job_def put_store_def result_fields_def
       failed_start_def no_result_def assign_all_def)
  have ctx: "run_state (ctx_Err ?c) (recorded_world\<lparr>files := workspace_fs\<rparr>) = (None, recorded_world\<lparr>files := workspace_fs\<rparr>)"
    by (simp add: quiet_calls recorded_world_def quiet_world_def second_def)
  have review: "er_review failed_start" by (simp add: failed_start_def)
  have settle: "run_state (settle sample_worker (sample_id 1) ?c ?ws failed_start ?err) (recorded_world\<lparr>files := workspace_fs\<rparr>) = (None, w')"
    by (simp add: settle_def get ctx meta fin decide_def review job Let_def del: One_nat_def)
  show ?thesis
    using ws now mon att stop settle
    by (simp add: run_job_def job W Let_def del: One_nat_def attempts_loop.simps)
qed

theorem device_work_accounted_witness:
  "\<exists>w'. run_state (run_job sample_worker (sample_job 1 0 Running)) ((quiet_world empty_dirs)\<lparr>store := sample_running\<rparr>) = (None, w')
    \<and> (operations (store w') = [] \<or> dev_quarantined (device (store w')) \<or> device_clean sample_adapter (sample_id 1) (store w'))"
proof -
  let ?w = "(quiet_world empty_dirs)\<lparr>store := sample_running\<rparr>" and ?j = "sample_job 1 0 Running"
  obtain w' where run: "run_state (run_job sample_worker ?j) ?w = (None, w')" using run_evaluates by blast
  have "operations (store ?w) = []" "job_id ?j = sample_id 1"
    by (simp_all add: sample_running_def sample_db_def update_device_def sample_job_def new_job_def)
  with device_work_accounted [of sample_adapter sample_worker, unfolded sample_worker_adapter, OF run] run
  show ?thesis by (intro exI [of _ w']) simp
qed

theorem worker_run_releases_witness:
  "\<exists>r w'. run_state (Run sample_worker (sample_job 1 0 Running)) ((quiet_world empty_dirs)\<lparr>store := sample_running\<rparr>) = (r, w')
    \<and> inv_store (store w')"
proof -
  let ?w = "(quiet_world empty_dirs)\<lparr>store := sample_running\<rparr>" and ?j = "sample_job 1 0 Running"
  obtain r w' where run: "run_state (Run sample_worker ?j) ?w = (r, w')" by fastforce
  have "holder (job_id ?j) {Running} (store ?w)"
    by (simp add: holder_def inv_store_def inv_parts lease_def sample_running_def sample_defs update_device_def
        find_job_def row_ok_def honours_cancel_def in_flight_def needs_review_def Terminal_def)
  from worker_run_releases [OF this, of sample_adapter sample_worker, unfolded sample_worker_adapter, OF run] run
  show ?thesis by blast
qed

theorem scheduler_serial_witness:
  "\<exists>x w'. run_state (scheduler 1 store_queue (worker_runner sample_worker)) (quiet_world empty_dirs) = (x, w')
    \<and> free (store (quiet_world empty_dirs)) \<and> inv_store (store w')"
proof -
  obtain x w' where run: "run_state (scheduler 1 store_queue (worker_runner sample_worker)) (quiet_world empty_dirs) = (x, w')"
    by fastforce
  have f: "free (store (quiet_world empty_dirs))"
    using empty_db_inv by (simp add: free_def settled_def quiet_world_def empty_db_def empty_device_def)
  from scheduler_serial [OF f, of 1 sample_adapter sample_worker, unfolded sample_worker_adapter, OF run] run f
  show ?thesis by blast
qed

text \<open>A lifetime in which a job is admitted and the process dies before recovery ran.\<close>

definition admitting_world :: world where
  "admitting_world = (quiet_world empty_dirs)\<lparr>script :=
     [idle_slot\<lparr>acts := [ApiEnqueue 1 ''com.example.app'' ''installed'' 20], outcome := Crash\<rparr>]\<rparr>"

lemma admitted_reachable:
  obtains d where "reachable_db (adapter_worker sample_adapter sample_worker) d" "map job_id (jobs d) = [NewID 1]"
proof -
  obtain s w1 where step: "run_state env_step admitting_world = (s, w1)" "outcome s = Crash"
      "map job_id (jobs (store w1)) = [NewID 1]"
    by (simp add: env_step_def next_slot_def admitting_world_def quiet_world_def idle_slot_def Let_def commit_def
        store_Enqueue_def empty_db_def empty_device_def find_job_def occupying_def new_job_def)
  have "run_state (service sample_worker 0) admitting_world = (Some (Some ErrDatabase), w1)"
    by (simp add: service_def Recover_def run_check db_tx_def step)
  moreover have "reachable_db sample_worker (store admitting_world)"
    using reachable_db.fresh by (simp add: admitting_world_def quiet_world_def)
  ultimately have "reachable_db sample_worker (store w1)" by (rule reachable_db.lifetime [rotated])
  with step(3) show thesis by (intro that [of "store w1"]) (simp_all add: sample_worker_adapter)
qed

theorem service_single_flight_witness:
  "\<exists>d. reachable_db (adapter_worker sample_adapter sample_worker) d \<and> map job_id (jobs d) = [NewID 1]
    \<and> (\<forall>j \<in> set (jobs d). cancel_requested j \<longrightarrow> job_state j \<noteq> Completed)"
proof -
  obtain d where d: "reachable_db (adapter_worker sample_adapter sample_worker) d" "map job_id (jobs d) = [NewID 1]"
    by (rule admitted_reachable)
  have "\<forall>j \<in> set (jobs d). cancel_requested j \<longrightarrow> job_state j \<noteq> Completed"
    using service_single_flight [OF d(1), of 0] by auto
  with d show ?thesis by (intro exI [of _ d]) simp
qed

theorem recovery_restores_witness:
  "\<exists>d r w'. map job_id (jobs d) = [NewID 1]
    \<and> run_state (Recover sample_worker) ((quiet_world empty_dirs)\<lparr>store := d\<rparr>) = (r, w') \<and> inv_store (store w')"
proof -
  obtain d where d: "reachable_db (adapter_worker sample_adapter sample_worker) d" "map job_id (jobs d) = [NewID 1]"
    by (rule admitted_reachable)
  let ?w = "(quiet_world empty_dirs)\<lparr>store := d\<rparr>"
  obtain r w' where run: "run_state (Recover sample_worker) ?w = (r, w')" by fastforce
  have "reachable_db (adapter_worker sample_adapter sample_worker) (store ?w)" using d(1) by simp
  from recovery_restores [OF this, unfolded sample_worker_adapter, OF run]
  have "inv_store (store w')" by simp
  with run d(2) show ?thesis by (intro exI [of _ d] exI [of _ r] exI [of _ w']) simp
qed

theorem scheduler_stops_witness:
  "fst (run_state (scheduler 5 store_queue (worker_runner sample_worker)) ((quiet_world empty_dirs)\<lparr>shutdown := True\<rparr>))
    = Some None"
  using scheduler_stops [of "(quiet_world empty_dirs)\<lparr>shutdown := True\<rparr>" 4] by (simp add: eval_nat_numeral)

end
