(* ===== verification/Upload.thy ===== *)
theory Upload
  imports HttpContract ServiceExamples
begin

text \<open>
  Uploads are all or nothing: a request answered with 202 left the complete, inspected, private file of
  exactly one admitted job; every other answer left the job store and the directory as they were, unless the
  process died or the removal of the new file itself failed.
\<close>

definition archive_ok :: "server \<Rightarrow> string \<Rightarrow> bool" where
  "archive_ok S data =
     (case zip_read (wk_archives (sv_worker S)) data of
        None \<Rightarrow> False
      | Some es \<Rightarrow> validate_entries (wk_archives (sv_worker S)) (word_of_int (sv_max_upload S) * 4) es = None)"

abbreviation "frame p f f' \<equiv> \<forall>q. q \<noteq> p \<longrightarrow> fs_get q f' = fs_get q f"

section \<open>The parts of an upload\<close>

lemma same_dataD: "same_data v w \<Longrightarrow> solo w \<and> store w = store v \<and> files w = files v"
  by (simp add: same_data_def)

lemma same_file_reads:
  "keeps (same_data v) (sys (os_Sync p))" "keeps (same_data v) (sys os_Close)"
  "keeps (same_data v) (sys (os_Lstat p))" "keeps (same_data v) (sys (os_ReadFile p))"
  "keeps (same_data v) (sys (os_Open p))"
  by (rule same_sys, auto simp: os_Sync_def os_Close_def os_Lstat_def os_ReadFile_def os_Open_def
      split: option.splits if_splits)+

lemma same_inspection: "keeps (same_data v) (ValidateIPA L p m)" "keeps (same_data v) (SyncInputs root)"
  unfolding ValidateIPA_def SyncInputs_def by (intro keeps_rules same_file_reads)+

lemma inspection_triple:
  "holds (same_data v) (ValidateIPA (wk_archives (sv_worker S)) p (word_of_int (sv_max_upload S) * 4))
     (\<lambda>r w. same_data v w \<and> (r = None \<longrightarrow> (\<exists>n. fs_get p (files v) = Some n \<and> archive_ok S (node_data n))))"
proof (rule holdsI)
  fix w r w'
  assume w: "same_data v w"
    and run: "run_state (ValidateIPA (wk_archives (sv_worker S)) p (word_of_int (sv_max_upload S) * 4)) w = (r, w')"
  have "same_data v w'" by (rule keepsD [OF same_inspection(1) w run])
  moreover have "\<exists>n. fs_get p (files v) = Some n \<and> archive_ok S (node_data n)" if none: "r = None"
    using validate_inspects [OF _ run [unfolded none]] same_dataD [OF w] by (auto simp: archive_ok_def)
  ultimately show "same_data v w' \<and> (r = None \<longrightarrow> (\<exists>n. fs_get p (files v) = Some n \<and> archive_ok S (node_data n)))"
    by blast
qed

definition admitted :: "server \<Rightarrow> string \<Rightarrow> db \<Rightarrow> db \<Rightarrow> bool" where
  "admitted S i d d' \<longleftrightarrow>
     (\<exists>now j. store_Enqueue now (new_job i ''Uploaded IPA'' ''upload'') (sv_queue_limit S) d = Inr (j, d'))"

lemma enqueue_triple:
  "holds (same_data v) (db_tx (\<lambda>now n. store_Enqueue now (new_job i ''Uploaded IPA'' ''upload'') (sv_queue_limit S)))
     (\<lambda>r w. solo w \<and> files w = files v \<and> (case r of Inl e \<Rightarrow> store w = store v | Inr j \<Rightarrow> admitted S i (store v) (store w)))"
proof (rule holdsI)
  fix w r w'
  assume w: "same_data v w"
    and run: "run_state (db_tx (\<lambda>now n. store_Enqueue now (new_job i ''Uploaded IPA'' ''upload'') (sv_queue_limit S))) w = (r, w')"
  show "solo w' \<and> files w' = files v \<and> (case r of Inl e \<Rightarrow> store w' = store v | Inr j \<Rightarrow> admitted S i (store v) (store w'))"
  proof (cases r)
    case (Inl e)
    obtain s w1 where s: "run_state env_step w = (s, w1)" by fastforce
    have "same_data v w1" by (rule keepsD [OF same_env_step w s])
    moreover have "w' = w1" using run s Inl by (auto simp: db_tx_def split: if_splits sum.splits)
    ultimately show ?thesis using Inl same_dataD by auto
  next
    case (Inr j)
    then show ?thesis
      using run_tx_solo [OF _ run [unfolded Inr]] same_dataD [OF w] by (auto simp: admitted_def)
  qed
qed

lemma not_202 [simp]: "rs_status (problem s c m) = s" "rs_status unsaved = 500"
  "rs_status (storeError e) \<noteq> 202" "rs_status (respond s v) = s"
  by (simp_all add: problem_def respond_def unsaved_def storeError_def)

text \<open>What the part after the body guarantees, from a world \<open>v\<close>.\<close>

definition admission :: "server \<Rightarrow> string \<Rightarrow> path \<Rightarrow> world \<Rightarrow> response + response \<Rightarrow> world \<Rightarrow> bool" where
  "admission S i p v x w \<longleftrightarrow> solo w \<and> files w = files v \<and>
     (case x of
        Inl bad \<Rightarrow> rs_status bad \<noteq> 202 \<and> store w = store v
      | Inr ok \<Rightarrow> rs_status ok = 202 \<and> admitted S i (store v) (store w)
          \<and> (\<exists>n. fs_get p (files v) = Some n \<and> archive_ok S (node_data n)))"

lemma admission_refused: "same_data v w \<Longrightarrow> rs_status bad \<noteq> 202 \<Longrightarrow> admission S i p v (Inl bad) w"
  by (simp add: admission_def same_data_def)

lemma admit_triple: "holds (same_data v) (admit_upload S i p) (admission S i p v)"
proof -
  let ?I = "same_data v"
  have refuse: "holds ?I (ret (Inl bad)) (admission S i p v)" if "rs_status bad \<noteq> 202" for bad
    using that by (intro holds_ret admission_refused)
  have enqueue: "holds (\<lambda>w. ?I w \<and> (\<exists>n. fs_get p (files v) = Some n \<and> archive_ok S (node_data n)))
      (do { r \<leftarrow> db_tx (\<lambda>now n. store_Enqueue now (new_job i ''Uploaded IPA'' ''upload'') (sv_queue_limit S));
        ret (case r of Inl e \<Rightarrow> Inl (storeError e) | Inr j \<Rightarrow> Inr (respond 202 (JobReply (view_of j)))) })
      (admission S i p v)"
  proof (cases "\<exists>n. fs_get p (files v) = Some n \<and> archive_ok S (node_data n)")
    case True
    show ?thesis
      by (rule holds_pre [OF holds_bind [OF enqueue_triple holds_ret]])
        (use True in \<open>auto simp: admission_def split: sum.splits\<close>)
  next
    case False
    then show ?thesis by (intro holdsI) blast
  qed
  have sync: "holds (\<lambda>w. ?I w \<and> (\<exists>n. fs_get p (files v) = Some n \<and> archive_ok S (node_data n)))
      (SyncInputs (sv_root S)) (\<lambda>_ w. ?I w \<and> (\<exists>n. fs_get p (files v) = Some n \<and> archive_ok S (node_data n)))"
    using same_inspection(2) [of v "sv_root S"] by (auto simp: keeps_def holds_def split: prod.splits)
  show ?thesis
    unfolding admit_upload_def
    apply (rule holds_bind [OF keeps_holds [OF same_file_reads(1)]], rule holds_sum, rule refuse, simp)
    apply (rule holds_bind [OF keeps_holds [OF same_file_reads(2)]], rule holds_sum, rule refuse, simp)
    apply (rule holds_bind [OF inspection_triple], rule holds_option)
     apply (rule holds_bind [OF holds_pre [OF sync]], simp, rule holds_option, rule enqueue)
     apply (rule holds_pre [OF refuse], simp, simp)
    apply (rule holds_pre [OF refuse], simp, simp)
    done
qed

text \<open>Receiving the body touches only the new file.\<close>

definition received :: "server \<Rightarrow> request \<Rightarrow> path \<Rightarrow> world \<Rightarrow> response + unit \<Rightarrow> world \<Rightarrow> bool" where
  "received S q p v x w \<longleftrightarrow> solo w \<and> store w = store v \<and> frame p (files v) (files w)
     \<and> (\<exists>d. fs_get p (files w) = Some (file_node perm_file d)) \<and>
     (case x of
        Inl bad \<Rightarrow> rs_status bad \<noteq> 202
      | Inr u \<Rightarrow> fs_get p (files w) = Some (file_node perm_file (hq_data q))
          \<and> int (length (hq_data q)) \<le> sv_max_upload S \<and> \<not> hq_broken q)"

lemma sys_store:
  assumes "solo w" "run_state (sys c) w = (r, w')"
  shows "store w' = store w"
proof -
  obtain s w1 where s: "run_state env_step w = (s, w1)" by fastforce
  then have "store w1 = store w" using env_step_frame [OF assms(1) s] by auto
  then show ?thesis using assms(2) s by (auto simp: sys_def split: if_splits sum.splits prod.splits)
qed

lemma receive_triple:
  assumes "run_state (receive_body S q p) w = (x, w')" "solo w"
    and "fs_get p (files w) = Some (file_node perm_file '''')"
  shows "received S q p w x w'"
proof -
  obtain r w1 where r: "run_state (sys (os_Write p (take (nat (sv_max_upload S)) (hq_data q)))) w = (r, w1)" by fastforce
  have w1: "w' = w1" using assms(1) r by (auto simp: receive_body_def)
  have st: "store w1 = store w" by (rule sys_store [OF assms(2) r])
  from assms(2) r show ?thesis
  proof (cases rule: run_sys)
    case (failed e)
    then show ?thesis using assms(1) r w1 st by (auto simp: receive_body_def received_def assms(3))
  next
    case (finished a)
    have "files w1 = fs_put p (file_node perm_file (take (nat (sv_max_upload S)) (hq_data q))) (files w)"
      using finished(2) assms(3) by (auto simp: os_Write_def file_node_def)
    then show ?thesis
      using assms(1) r w1 st finished by (auto simp: receive_body_def received_def split: if_splits)
  qed
qed

section \<open>What a refused upload may leave behind\<close>

text \<open>
  Every call takes the next slot of the script, so the script that is left tells which calls a request
  made. \<open>last_call_failed\<close>: the last call between two moments failed.
\<close>

definition last_call_failed :: "world \<Rightarrow> world \<Rightarrow> bool" where
  "last_call_failed w w' \<longleftrightarrow> (\<exists>used s. script w = used @ s # script w' \<and> outcome s = Fail)"

definition from_script :: "slot list \<Rightarrow> world \<Rightarrow> bool" where
  "from_script ss w \<longleftrightarrow> suffix (script w) ss"

lemma act_script: "script (act a w) = script w"
  by (cases a)
    (auto simp: commit_def monitor_tick_def monitor_stop_def Let_def split: sum.split option.split)

lemma acts_script: "script (fold act as w) = script w"
  by (induction "as" arbitrary: w) (simp_all add: act_script)

lemma from_script_env_step: "keeps (from_script ss) env_step"
  by (rule keepsI)
    (auto simp: from_script_def env_step_def next_slot_def Let_def acts_script suffix_def split: if_splits list.splits)

lemma from_script_calls: "keeps (from_script ss) (sys c)" "keeps (from_script ss) (db_tx t)"
  unfolding sys_def db_tx_def
  by (intro keeps_bind from_script_env_step;
      auto simp: keeps_def holds_def from_script_def put_store_def split: sum.splits prod.splits)+

lemma from_script_accept: "keeps (from_script ss) (accept_upload S q i p)"
  unfolding accept_upload_def receive_body_def admit_upload_def ValidateIPA_def SyncInputs_def
  by (intro keeps_rules from_script_calls)

lemma remove_run:
  assumes "solo w" "run_state (Remove root ''inputs'' i) w = (e, w')" "ValidID i"
    and "fs_get (root @ [''inputs'', i]) (files w) = Some (file_node m d)"
  shows "store w' = store w" "frame (root @ [''inputs'', i]) (files w) (files w')"
    and "fs_get (root @ [''inputs'', i]) (files w') = None \<or> crashed w' \<or> (\<exists>s. script w = s # script w' \<and> outcome s = Fail)"
proof -
  let ?p = "root @ [''inputs'', i]"
  have path: "Path root ''inputs'' i = Inr ?p" using assms(3) by (simp add: Path_def)
  obtain r w1 where r: "run_state (sys (os_Remove ?p)) w = (r, w1)" by fastforce
  have w1: "w' = w1" using assms(2) r by (auto simp: Remove_def path split: sum.splits)
  show "store w' = store w" using sys_store [OF assms(1) r] w1 by simp
  show "frame ?p (files w) (files w')"
    using assms(1) r
  proof (cases rule: run_sys)
    case (finished a)
    have "files w' = fs_del ?p (files w)"
      using finished(2) w1 by (auto simp: os_Remove_def split: option.splits if_splits)
    then show ?thesis by simp
  qed (use w1 in simp)
  have rem: "os_Remove ?p (files w) = Inr ((), fs_del ?p (files w))"
    using assms(4) by (simp add: os_Remove_def file_node_def)
  show "fs_get ?p (files w') = None \<or> crashed w' \<or> (\<exists>s. script w = s # script w' \<and> outcome s = Fail)"
  proof (cases "crashed w")
    case True
    then show ?thesis using r w1 by (auto simp: sys_def env_step_def dead_slot_def)
  next
    case alive: False
    show ?thesis
    proof (cases "script w")
      case Nil
      then show ?thesis using r w1 alive rem by (auto simp: sys_quiet)
    next
      case (Cons s ss)
      then have "acts s = []" using assms(1) by (simp add: solo_def)
      then show ?thesis
        using r w1 alive rem Cons
        by (cases "outcome s") (auto simp: sys_def env_step_def next_slot_def Let_def)
    qed
  qed
qed

section \<open>The contract\<close>

definition upload_result :: "server \<Rightarrow> request \<Rightarrow> world \<Rightarrow> response \<Rightarrow> world \<Rightarrow> bool" where
  "upload_result S q w r w' \<longleftrightarrow>
     (\<exists>i. ValidID i \<and> (let p = sv_root S @ [''inputs'', i] in
        frame p (files w) (files w') \<and>
        (if rs_status r = 202
         then hq_ack q = ''true'' \<and> fs_get p (files w) = None
           \<and> fs_get p (files w') = Some (file_node perm_file (hq_data q))
           \<and> \<not> hq_broken q \<and> int (length (hq_data q)) \<le> sv_max_upload S \<and> archive_ok S (hq_data q)
           \<and> admitted S i (store w) (store w')
         else store w' = store w
           \<and> (fs_get p (files w') = fs_get p (files w)
              \<or> fs_get p (files w) = None \<and> (crashed w' \<or> last_call_failed w w')))))"

lemma upload_untouched:
  "rs_status r \<noteq> 202 \<Longrightarrow> store w' = store w \<Longrightarrow> files w' = files w \<Longrightarrow> upload_result S q w r w'"
  unfolding upload_result_def by (rule exI [of _ "NewID 0"]) (simp add: Let_def ValidID_NewID)

lemma accept_run:
  assumes "run_state (accept_upload S q i p) w = (x, w')" "solo w"
    and "fs_get p (files w) = Some (file_node perm_file '''')"
  shows "solo w' \<and> frame p (files w) (files w') \<and> (\<exists>d. fs_get p (files w') = Some (file_node perm_file d)) \<and>
    (case x of
       Inl bad \<Rightarrow> rs_status bad \<noteq> 202 \<and> store w' = store w
     | Inr ok \<Rightarrow> rs_status ok = 202 \<and> admitted S i (store w) (store w') \<and> archive_ok S (hq_data q)
         \<and> fs_get p (files w') = Some (file_node perm_file (hq_data q)) \<and> \<not> hq_broken q
         \<and> int (length (hq_data q)) \<le> sv_max_upload S)"
proof -
  obtain b w1 where b: "run_state (receive_body S q p) w = (b, w1)" by fastforce
  note rec = receive_triple [OF b assms(2,3)]
  show ?thesis
  proof (cases b)
    case (Inl bad)
    then have "x = Inl bad" "w' = w1" using assms(1) b by (auto simp: accept_upload_def run_check)
    then show ?thesis using rec Inl by (auto simp: received_def)
  next
    case (Inr u)
    have adm: "run_state (admit_upload S i p) w1 = (x, w')"
      using assms(1) b Inr by (simp add: accept_upload_def run_check)
    have "same_data w1 w1" using rec by (simp add: received_def same_data_def)
    note holdsD [OF admit_triple this adm]
    then show ?thesis using rec Inr by (auto simp: received_def admission_def file_node_def split: sum.splits)
  qed
qed

lemma locked_run:
  assumes "solo w" "run_state (upload_locked S q) w = (r, w')"
  shows "upload_result S q w r w'"
proof (cases "hq_ack q = ''true'' \<and> hl_media (sv_lib S) (hq_content_type q) = Some ''application/octet-stream''")
  case False
  then show ?thesis using assms(2) by (auto simp: upload_locked_def intro!: upload_untouched split: if_splits)
next
  case True
  define i where "i = NewID (random (fst (next_slot w)))"
  let ?p = "sv_root S @ [''inputs'', i]"
  have valid: "ValidID i" by (simp add: i_def ValidID_NewID)
  obtain f w1 where f: "run_state (sys (os_CreateExcl ?p perm_file)) w = (f, w1)" by fastforce
  have st: "store w1 = store w" by (rule sys_store [OF assms(1) f])
  have run: "run_state (do {
      f \<leftarrow> sys (os_CreateExcl ?p perm_file);
      case f of
        Inl e \<Rightarrow> ret (problem 500 ''storage_error'' ''Unable to receive upload.'')
      | Inr _ \<Rightarrow> do {
          r \<leftarrow> accept_upload S q i ?p;
          case r of
            Inr ok \<Rightarrow> ret ok
          | Inl bad \<Rightarrow> do { _ \<leftarrow> Remove (sv_root S) ''inputs'' i; ret bad } } }) w = (r, w')"
    using assms(2) True unfolding upload_locked_def Let_def gets_def i_def by simp
  from assms(1) f show ?thesis
  proof (cases rule: run_sys)
    case (failed e)
    then show ?thesis
      using run f st by (auto intro!: upload_untouched)
  next
    case (finished u)
    have new: "fs_get ?p (files w) = None" "files w1 = fs_put ?p (file_node perm_file '''') (files w)"
      using finished(2) by (auto simp: os_CreateExcl_def split: if_splits)
    obtain x w2 where x: "run_state (accept_upload S q i ?p) w1 = (x, w2)" by fastforce
    note acc = accept_run [OF x finished(3)]
    have fr: "frame ?p (files w) (files w2)" using acc new by simp
    have "from_script (script w) w" by (simp add: from_script_def)
    from keepsD [OF from_script_accept keepsD [OF from_script_calls(1) this f] x]
    obtain used where used: "script w = used @ script w2" by (auto simp: from_script_def suffix_def)
    show ?thesis
    proof (cases x)
      case (Inr ok)
      then have "r = ok" "w' = w2" using run f x finished by auto
      then show ?thesis
        using Inr acc new fr valid True st unfolding upload_result_def Let_def by (intro exI [of _ i]) simp
    next
      case (Inl bad)
      obtain d where d: "solo w2" "fs_get ?p (files w2) = Some (file_node perm_file d)" using acc new by auto
      obtain e w3 where e: "run_state (Remove (sv_root S) ''inputs'' i) w2 = (e, w3)" by fastforce
      then have "r = bad" "w' = w3" using run f x e finished Inl by auto
      then show ?thesis
        using Inl acc new fr valid st remove_run [OF d(1) e valid d(2)] used
        unfolding upload_result_def Let_def last_call_failed_def by (intro exI [of _ i]) auto
    qed
  qed
qed

text \<open>
  C21. While nobody else acts on the store and the directory, with every failure and crash point: an upload
  answered with 202 left exactly one new private file with the complete body, which the archive inspection
  accepts, in the inputs directory, and admitted one queued job under its identifier. Any other answer,
  whichever call failed before it (the admission and the syncs included), left the job store unchanged,
  and the data directory too; only the new file itself can stay, and only if the process died or the last
  call of the request, which is the removal of that file, failed.
\<close>

theorem upload_all_or_nothing:
  assumes "solo w" "run_state (handle_upload S q) w = (r, w')"
  shows "upload_result S q w r w'"
proof -
  obtain s w1 where s: "run_state env_step w = (s, w1)" by fastforce
  obtain ss c where w1: "w1 = w\<lparr>script := ss, crashed := c\<rparr>" using env_step_frame [OF assms(1) s] by blast
  have solo: "solo w1" using env_step_solo [OF assms(1) s] by simp
  show ?thesis
  proof (cases "uploading w1")
    case True
    then show ?thesis using assms(2) s w1 by (auto simp: handle_upload_def gets_def intro!: upload_untouched)
  next
    case False
    define w2 where "w2 = (if crashed w1 then w1 else w1\<lparr>uploading := True\<rparr>)"
    obtain r3 w3 where r3: "run_state (upload_locked S q) w2 = (r3, w3)" by fastforce
    have same: "r = r3" "store w' = store w3" "files w' = files w3" "crashed w' = crashed w3" "script w' = script w3"
      using assms(2) s False r3 by (auto simp: handle_upload_def gets_def live_def modify_def w2_def split: if_splits)
    have "upload_result S q w2 r3 w3"
      using solo by (intro locked_run [OF _ r3]) (simp add: w2_def solo_def)
    moreover have "store w2 = store w" "files w2 = files w" "script w2 = script w1"
      using w1 by (auto simp: w2_def)
    moreover have "last_call_failed w w3" if "last_call_failed w2 w3"
    proof -
      have "from_script (script w) w" by (simp add: from_script_def)
      from keepsD [OF from_script_env_step this s] obtain used where "script w = used @ script w1"
        by (auto simp: from_script_def suffix_def)
      with that \<open>script w2 = script w1\<close> show ?thesis by (metis append_assoc last_call_failed_def)
    qed
    ultimately show ?thesis
      using same by (auto simp: upload_result_def Let_def last_call_failed_def)
  qed
qed

end
