(* ===== verification/HttpExamples.thy ===== *)
theory HttpExamples
  imports Upload
begin

text \<open>
  The properties of the HTTP API at concrete requests, without interference: an upload that is admitted
  and the download of a completed job's artifact.
\<close>

section \<open>A server and its requests\<close>

definition sample_worker_ipa :: worker where
  "sample_worker_ipa = sample_worker\<lparr>wk_archives := sample_lib\<lparr>zip_read := \<lambda>_. Some sample_entries\<rparr>\<rparr>"

definition origin_url :: "string \<Rightarrow> url option" where
  "origin_url s = Some \<lparr>u_scheme = ''http'', u_host = ''localhost'', u_user = False, u_fragment = '''',
     u_path = '''', u_string = s\<rparr>"

definition sample_http :: http_lib where
  "sample_http = \<lparr>hl_url = origin_url, hl_lower = id, hl_media = Some, hl_enqueue = (\<lambda>_. None),
     hl_empty = (\<lambda>_. Some ()), hl_code = Some, hl_confirm = (\<lambda>_. Some True), hl_text = (\<lambda>_. ''''),
     hl_index = True, hl_static = (\<lambda>_ _. (200, ''page''))\<rparr>"

definition sample_server :: server where
  "sample_server = \<lparr>sv_hosts = [''localhost''], sv_origin = ''http://localhost'', sv_worker = sample_worker_ipa,
     sv_max_upload = 3, sv_queue_limit = 5, sv_apple = False, sv_lib = sample_http, sv_enabled = (\<lambda>_. False)\<rparr>"

definition upload_request :: request where
  "upload_request = \<lparr>hq_method = ''POST'', hq_host = ''localhost'', hq_escaped = ''/api/uploads'', hq_tls = False,
     hq_app = ''1'', hq_origin = ''http://localhost'', hq_content_type = ''application/octet-stream'',
     hq_ack = ''true'', hq_data = ''zip'', hq_broken = False\<rparr>"

definition download_request :: request where
  "download_request = \<lparr>hq_method = ''GET'', hq_host = ''localhost'',
     hq_escaped = ''/api/jobs/'' @ sample_id 1 @ ''/artifact'', hq_tls = False,
     hq_app = '''', hq_origin = '''', hq_content_type = '''', hq_ack = '''', hq_data = '''', hq_broken = False\<rparr>"

lemma sample_routes:
  "route_of upload_request = RouteUpload" "route_of download_request = RouteDownload (sample_id 1)"
  by code_simp+

lemma sample_inspection:
  "validate_entries (sample_lib\<lparr>zip_read := \<lambda>_. Some sample_entries\<rparr>) 12 sample_entries = None"
  using validate_loop_iff [of 0 12 "sample_lib\<lparr>zip_read := \<lambda>_. Some sample_entries\<rparr>" "[]" "[]" sample_entries]
    sample_entries_ok sample_keys
  by (simp add: sample_apps validate_entries_def) (simp add: sample_entries_def total_size_def)

lemma sample_root: "sv_root sample_server = [''data'']"
  by (simp add: sample_server_def sample_worker_ipa_def sample_worker_def)

section \<open>An upload\<close>

text \<open>The world during the upload.\<close>

definition busy_world :: "fs \<Rightarrow> db \<Rightarrow> world" where
  "busy_world f d = (quiet_world f)\<lparr>store := d, uploading := True\<rparr>"

lemma busy_simps:
  "script (busy_world f d) = []" "\<not> crashed (busy_world f d)" "files (busy_world f d) = f" "store (busy_world f d) = d"
  "clock (busy_world f d) = 0" "(busy_world f d)\<lparr>files := f'\<rparr> = busy_world f' d" "put_store d' (busy_world f d) = busy_world f d'"
  "next_slot (busy_world f d) = (idle_slot, busy_world f d)"
  by (simp_all add: busy_world_def quiet_world_def put_store_def next_slot_def)

lemma inputs_dir: "fs_get [''data'', ''inputs''] empty_dirs = Some (dir_node 448)"
    "fs_get [''data'', ''inputs'', i] empty_dirs = None"
  by (simp_all add: empty_dirs_def fs_get_def)

abbreviation "new_input s f \<equiv> fs_put [''data'', ''inputs'', NewID 0] (file_node perm_file s) f"

lemma accept_evaluates:
  "\<exists>ok d. run_state (accept_upload sample_server upload_request (NewID 0) [''data'', ''inputs'', NewID 0])
      (busy_world (new_input '''' empty_dirs) empty_db)
      = (Inr ok, busy_world (new_input ''zip'' (new_input '''' empty_dirs)) d) \<and> rs_status ok = 202"
  using sample_inspection
  by (simp add: accept_upload_def run_check receive_body_def admit_upload_def ValidateIPA_def SyncInputs_def busy_simps sys_quiet
      db_tx_quiet os_Write_def os_Sync_def os_Close_def os_Lstat_def os_ReadFile_def os_Open_def inputs_dir file_node_def
      sample_server_def sample_worker_ipa_def sample_worker_def upload_request_def store_Enqueue_def find_job_def empty_db_def
      is_dir_def dir_node_def Let_def) blast

lemma upload_evaluates:
  "\<exists>r w'. run_state (handle_upload sample_server upload_request) (quiet_world empty_dirs) = (r, w') \<and> rs_status r = 202
     \<and> files w' \<noteq> empty_dirs"
proof -
  let ?f = "new_input ''zip'' (new_input '''' empty_dirs)"
  obtain ok d where acc: "run_state (accept_upload sample_server upload_request (NewID 0) [''data'', ''inputs'', NewID 0])
      (busy_world (new_input '''' empty_dirs) empty_db) = (Inr ok, busy_world ?f d)" "rs_status ok = 202"
    using accept_evaluates by blast
  have "fs_get [''data'', ''inputs'', NewID 0] ?f \<noteq> fs_get [''data'', ''inputs'', NewID 0] empty_dirs"
    by (simp add: inputs_dir)
  then have new: "?f \<noteq> empty_dirs" by metis
  have ok: "hq_ack upload_request = ''true''" "hl_media (sv_lib sample_server) (hq_content_type upload_request) = Some ''application/octet-stream''"
    by (simp_all add: upload_request_def sample_server_def sample_http_def)
  have "run_state (upload_locked sample_server upload_request) (busy_world empty_dirs empty_db) = (ok, busy_world ?f d)"
    by (simp add: upload_locked_def ok sample_root gets_def busy_simps sys_quiet os_CreateExcl_def is_dir_def inputs_dir
        dir_node_def idle_slot_def Let_def acc(1))
  moreover have "(quiet_world empty_dirs)\<lparr>uploading := True\<rparr> = busy_world empty_dirs empty_db"
      "\<not> uploading (quiet_world empty_dirs)" "script (quiet_world empty_dirs) = []" "\<not> crashed (quiet_world empty_dirs)"
    by (simp_all add: busy_world_def quiet_world_def)
  ultimately show ?thesis
    using acc(2) new by (simp add: handle_upload_def env_step_quiet gets_def live_def modify_def busy_simps)
qed

theorem upload_all_or_nothing_witness:
  "\<exists>r w'. run_state (handle_upload sample_server upload_request) (quiet_world empty_dirs) = (r, w') \<and> rs_status r = 202
     \<and> upload_result sample_server upload_request (quiet_world empty_dirs) r w'"
  using upload_evaluates upload_all_or_nothing [OF solo_quiet, of sample_server upload_request] by blast

lemma serve_upload:
  "\<exists>r w'. run_state (serve sample_server upload_request) (quiet_world empty_dirs) = (r, w') \<and> files w' \<noteq> empty_dirs"
proof -
  obtain r w' where run: "run_state (handle_upload sample_server upload_request) (quiet_world empty_dirs) = (r, w')"
      and new: "files w' \<noteq> empty_dirs"
    using upload_evaluates by blast
  have "host_allowed sample_server upload_request" "mutation upload_request" "origin_allowed sample_server upload_request"
      "hq_app upload_request = ''1''"
    by (simp_all add: host_allowed_def mutation_def origin_allowed_def expected_origin_def sample_server_def
        upload_request_def sample_http_def origin_url_def)
  then show ?thesis using run new by (simp add: serve_def sample_routes)
qed

theorem http_refines_environment_witness:
  "\<exists>r w'. run_state (serve sample_server upload_request) (quiet_world empty_dirs) = (r, w')
     \<and> api_tx\<^sup>*\<^sup>* (store (quiet_world empty_dirs)) (store w')"
  using serve_upload http_refines_environment [of sample_server upload_request "quiet_world empty_dirs"] by blast

theorem changes_are_guarded_witness:
  "hq_method upload_request = ''POST'' \<and> hq_app upload_request = ''1'' \<and> host_allowed sample_server upload_request
     \<and> origin_allowed sample_server upload_request"
proof -
  obtain r w' where run: "run_state (serve sample_server upload_request) (quiet_world empty_dirs) = (r, w')"
      and new: "files w' \<noteq> empty_dirs"
    using serve_upload by blast
  show ?thesis by (rule changes_are_guarded [OF solo_quiet run]) (use new in simp)
qed

section \<open>A download\<close>

definition artifact_fs :: fs where
  "artifact_fs = fs_put [''data'', ''artifacts'', sample_id 1] (file_node perm_file ''ipa'') empty_dirs"

definition kept_job :: job where
  "kept_job = (sample_job 1 0 Completed)\<lparr>expires_at := Some 7, job_bundle_id := ''com.example/app'', job_version := ''1.0''\<rparr>"

definition artifact_world :: world where
  "artifact_world = (quiet_world artifact_fs)\<lparr>store := empty_db\<lparr>jobs := [kept_job]\<rparr>\<rparr>"

lemma kept_name: "downloadName kept_job = ''com.example-app-1.0.ipa''"
  by code_simp

lemma valid_sample: "ValidID (sample_id 1)"
  by code_simp

lemma serve_download:
  "\<exists>r w'. run_state (serve sample_server download_request) artifact_world = (r, w')
     \<and> rs_body r = FileReply ''com.example-app-1.0.ipa'' ''ipa''"
proof -
  have w: "script artifact_world = []" "\<not> crashed artifact_world" "clock artifact_world = 0" "files artifact_world = artifact_fs"
      "put_store (store artifact_world) artifact_world = artifact_world" "artifact_world\<lparr>files := artifact_fs\<rparr> = artifact_world"
    by (simp_all add: artifact_world_def quiet_world_def put_store_def)
  have job: "find_job (sample_id 1) (store artifact_world) = Some kept_job" "job_id kept_job = sample_id 1"
      "job_state kept_job = Completed" "\<not> artifact_expired kept_job" "expires_at kept_job = Some 7"
    by (simp_all add: artifact_world_def kept_job_def find_job_def sample_job_def new_job_def)
  have f: "fs_get [''data'', ''artifacts'', sample_id 1] artifact_fs = Some (file_node perm_file ''ipa'')"
    by (simp add: artifact_fs_def)
  have "host_allowed sample_server download_request" "\<not> mutation download_request"
    by (simp_all add: host_allowed_def mutation_def sample_server_def download_request_def)
  then show ?thesis
    by (simp add: serve_def sample_routes sample_root handle_download_def with_job_def lookup_job_def valid_sample Let_def
        db_tx_quiet store_Get_def job w time_now_quiet sys_quiet os_Lstat_def os_ReadFile_def f file_node_def add_headers_def
        kept_name del: One_nat_def)
qed

theorem download_gate_witness:
  "\<exists>r w'. run_state (serve sample_server download_request) artifact_world = (r, w')
     \<and> rs_body r = FileReply ''com.example-app-1.0.ipa'' ''ipa'' \<and> host_allowed sample_server download_request"
proof -
  obtain r w' where run: "run_state (serve sample_server download_request) artifact_world = (r, w')"
      and body: "rs_body r = FileReply ''com.example-app-1.0.ipa'' ''ipa''"
    using serve_download by blast
  have "solo artifact_world" by (simp add: artifact_world_def solo_def quiet_world_def)
  from download_gate [OF this run body] run body show ?thesis by blast
qed

theorem downloadName_safe_witness:
  "downloadName kept_job = ''com.example-app-1.0.ipa'' \<and> length (downloadName kept_job) \<le> 154"
  using downloadName_safe [of kept_job] valid_sample kept_name by (simp add: kept_job_def sample_job_def new_job_def del: One_nat_def)

end
