(* ===== verification/StartupExamples.thy ===== *)
theory StartupExamples
  imports Startup HttpExamples
begin

text \<open>A first start on an empty data directory, with the minimal environment.\<close>

definition sample_process :: process where
  "sample_process = \<lparr>pc_config = sample_config_lib, pc_env = sample_env, pc_database = fresh_file, pc_json = sample_json,
     pc_adapter = sample_adapter, pc_worker = sample_worker, pc_http = sample_http\<rparr>"

definition opened_fs :: fs where
  "opened_fs = \<lparr>entries = entries known_fs @ ([''data''], dir_node perm_dir) # ([''data'', ''service.lock''], file_node perm_file '''')
       # map (\<lambda>n. ([''data'', n], dir_node perm_dir)) storage_dirs,
     locks = [[''data'', ''service.lock'']]\<rparr>"

definition started_fs :: fs where
  "started_fs = opened_fs\<lparr>entries := entries opened_fs @ [([''data'', ''jobs.db''], file_node perm_file '''')]\<rparr>"

text \<open>
  The worlds of the start: with the files \<open>f\<close>, the database open or not, and a signal to stop pending
  or not.
\<close>

definition start_world :: "bool \<Rightarrow> bool \<Rightarrow> fs \<Rightarrow> world" where
  "start_world sig opn f = (quiet_world f)\<lparr>shutdown := sig, db_open := opn\<rparr>"

lemma start_simps [simp]:
  "script (start_world g p f) = []" "\<not> crashed (start_world g p f)" "store (start_world g p f) = empty_db"
  "clock (start_world g p f) = 0" "files (start_world g p f) = f" "shutdown (start_world g p f) = g"
  "db_open (start_world g p f) = p" "(start_world g p f)\<lparr>files := f'\<rparr> = start_world g p f'"
  "(start_world g p f)\<lparr>db_open := p'\<rparr> = start_world g p' f" "put_store empty_db (start_world g p f) = start_world g p f"
  by (simp_all add: start_world_def quiet_world_def put_store_def)

lemma start_world_quiet: "start_world False False f = quiet_world f"
  by (simp add: start_world_def quiet_world_def)

lemma open_evaluates: "run_state (storage_Open [''data'']) (start_world g False known_fs) = (Inr (), start_world g False opened_fs)"
  by (simp add: storage_Open_def lock_guard_def open_dir_def storage_dirs_def lock_path_def
        run_check sys_quiet os_MkdirAll_def os_Mkdir_def os_Lstat_def os_OpenCreate_def
        os_Flock_def is_dir_def fs_get_def fs_put_def perm_dir_def dir_node_def file_node_def
        errors_is_def known_fs_def exposed_def opened_fs_def)

lemma jobs_Open_evaluates: "run_state (jobs_Open [''data''] fresh_file) (start_world g False opened_fs) = (Inr (), start_world g True started_fs)"
proof -
  have "open_db fresh_file = Inr empty_db"
    by (simp add: open_db_def fresh_file_def empty_db_def)
  moreover have "fs_get [''data'', ''jobs.db''] opened_fs = None" "fs_get [''data'', ''jobs.db-wal''] opened_fs = None"
      "fs_get [''data'', ''jobs.db-shm''] opened_fs = None" "is_dir [''data''] opened_fs"
      "fs_put [''data'', ''jobs.db''] (file_node perm_file '''') opened_fs = started_fs"
    by (simp_all add: opened_fs_def known_fs_def fs_get_def storage_dirs_def is_dir_def dir_node_def fs_put_def started_fs_def)
  ultimately show ?thesis
    by (simp add: jobs_Open_def db_guard_def db_path_def run_check sys_quiet os_Lstat_def errors_is_def
        os_OpenCreate_def os_Close_def db_tx_quiet load_db_def modify_def)
qed

lemma no_children: "children [''data'', n] started_fs = []"
  by (simp add: started_fs_def opened_fs_def known_fs_def storage_dirs_def children_def)

lemma started_dirs: "is_dir [''data'', ''work''] started_fs" "is_dir [''data'', ''inputs''] started_fs"
    "is_dir [''data'', ''artifacts''] started_fs" "is_dir [''data'', ''tmp''] started_fs"
  by (simp_all add: started_fs_def opened_fs_def known_fs_def storage_dirs_def is_dir_def fs_get_def dir_node_def)

lemma first_recovery: "store_Recover 0 empty_db = Inr ((), empty_db)"
  by (simp add: store_Recover_def empty_db_def empty_device_def)

lemma Recover_evaluates:
  assumes "wk_root W = [''data'']"
  shows "run_state (Recover W) (start_world g True started_fs) = (None, start_world g True started_fs)"
  by (simp add: Recover_def assms run_check db_tx_quiet first_recovery store_All_def reconcile_kind_def
      sys_quiet os_ReadDir_def started_dirs no_children CleanupTemp_def Expire_def as_result_def time_now_quiet)
    (simp add: empty_db_def)

lemma sample_data_path: "data_path sample_config = [''data'']"
proof -
  have "os_path ''/data'' = [''data'']" by code_simp
  then show ?thesis by (simp add: data_path_def sample_config_def)
qed

lemma boot_evaluates:
  "run_state (boot sample_process) (start_world g False known_fs) = (Inr (sample_config, wire_server sample_process sample_config), start_world g True started_fs)"
proof -
  have root: "wk_root (wire_worker sample_process sample_config) = [''data'']"
    by (simp add: wire_worker_def adapter_worker_def sample_data_path)
  have pc: "pc_database sample_process = fresh_file" "pc_config sample_process = sample_config_lib" "pc_env sample_process = sample_env"
    by (simp_all add: sample_process_def)
  have "\<not> has_char CHR 0x00 (path_string [''data'', ''tmp''])" by code_simp
  moreover have "account_Load (wire_secrets sample_process sample_config) = ret (Inr None)"
    by (simp add: account_Load_def wire_secrets_def new_secrets_def sample_config_def)
  ultimately have "run_state (start sample_process sample_config) (start_world g False opened_fs)
      = (Inr (wire_server sample_process sample_config), start_world g True started_fs)"
    using jobs_Open_evaluates [of g] Recover_evaluates [OF root, of g]
    by (simp add: start_def start_opened_def sample_data_path sys_quiet net_Listen_def pc)
  then show ?thesis
    using open_evaluates [of g] by (simp add: Parse_evaluates boot_def pc run_check sample_data_path)
qed

lemma sample_database: "open_db (pc_database sample_process) = Inr d \<Longrightarrow> inv_store d"
  using empty_db_inv by (auto simp: sample_process_def open_db_def fresh_file_def empty_db_def)

theorem boot_ready_witness:
  "\<exists>S w'. run_state (boot sample_process) (quiet_world known_fs) = (Inr (sample_config, S), w')
     \<and> sv_hosts S = [''127.0.0.1:8080''] \<and> lock_path (data_path sample_config) \<notin> set (locks (files (quiet_world known_fs)))"
proof -
  have ip: "cl_ip (pc_config sample_process) '''' = None" by (simp add: sample_process_def sample_config_lib_def)
  note boot = boot_evaluates [of False, unfolded start_world_quiet]
  from boot_ready [OF solo_quiet boot ip sample_database] boot show ?thesis
    by (auto simp: wire_server_def sample_config_def)
qed




end
