(* ===== verification/Acknowledge.thy ===== *)
theory Acknowledge
  imports HttpExamples
begin

text \<open>
  The answers of the API can be relied on: an answer that acknowledges a request says what the job store
  holds at that moment, whatever other goroutines did meanwhile and whichever calls failed.
\<close>

section \<open>The last transaction of a handler\<close>

lemma holds_last_commit:
  "holds (\<lambda>_. True) (db_tx t) (\<lambda>r w. \<forall>a. r = Inr a \<longrightarrow> (\<exists>now n d. t now n d = Inr (a, store w)))"
  unfolding db_tx_def
  by (rule holds_bind [where R = "\<lambda>_ _. True"])
    (auto simp: holds_def put_store_def split: sum.splits prod.splits if_splits)

lemma holds_ignore: "(\<And>a. holds (\<lambda>_. True) (k a) Q) \<Longrightarrow> holds (\<lambda>_. True) (State_Monad.bind m k) Q"
  by (rule holds_bind [where R = "\<lambda>_ _. True"]) (simp_all add: holds_def)

lemma holds_final: "(\<And>w. Q a w) \<Longrightarrow> holds (\<lambda>_. True) (ret a) Q"
  by (simp add: holds_def)

lemma problem_status [simp]: "rs_status (problem s c m) = s" "rs_status (respond s v) = s" "rs_status (bare s v) = s"
    "rs_body (respond s v) = v"
  by (simp_all add: problem_def respond_def bare_def)

abbreviation "refusal r \<equiv> 400 \<le> rs_status r"

lemma storeError_refusal [simp]: "refusal (storeError e)"
  by (simp add: storeError_def)

lemma storeError_status [simp]: "rs_status (storeError e) \<noteq> 202" "rs_status (storeError e) \<noteq> 204"
  by (simp_all add: storeError_def)

lemma decode_refusal: "decode L q f = Inl r \<Longrightarrow> refusal r"
  by (auto simp: decode_def split: if_splits option.splits)

section \<open>The handlers\<close>

lemma holds_with_job:
  assumes "\<And>r w. refusal r \<Longrightarrow> Q r w" "\<And>j. job_id j = i \<Longrightarrow> holds (\<lambda>_. True) (k j) Q"
  shows "holds (\<lambda>_. True) (with_job i k) Q"
proof -
  have get: "holds (\<lambda>_. True) (Jobs_Get i) (\<lambda>r w. \<forall>j. r = Inr j \<longrightarrow> job_id j = i)"
    by (rule holds_post [OF holds_last_commit]) (auto simp: store_Get_def dest: find_job_Some split: option.splits)
  have look: "holds (\<lambda>_. True) (lookup_job i) (\<lambda>r w. case r of Inl p \<Rightarrow> refusal p | Inr j \<Rightarrow> job_id j = i)"
    unfolding lookup_job_def
    by (rule holds_if, rule holds_final, simp, rule holds_bind [OF get], rule holds_ret) (auto split: sum.splits)
  show ?thesis
    unfolding with_job_def
    by (rule holds_bind [OF look]) (use assms in \<open>auto simp: holds_def split: sum.split\<close>)
qed

lemma holds_with_body:
  assumes "\<And>r w. refusal r \<Longrightarrow> Q r w" "\<And>v. holds (\<lambda>_. True) (k v) Q"
  shows "holds (\<lambda>_. True) (with_body (decode L q f) k) Q"
  unfolding with_body_def
  by (rule holds_sum, rule holds_final, rule assms(1), erule decode_refusal, rule assms(2))

lemma enqueue_shows:
  "holds (\<lambda>_. True) (handle_enqueue S q) (\<lambda>r w. rs_status r = 202 \<longrightarrow>
     (\<exists>j. rs_body r = JobReply (view_of j) \<and> find_job (job_id j) (store w) = Some j \<and> job_state j = Queued))"
proof -
  have admit: "find_job (job_id a) d' = Some a \<and> job_state a = Queued"
    if "store_Enqueue now j l d = Inr (a, d')" for now j l d a d'
    using that
    by (auto simp: store_Enqueue_def find_job_def row_append Let_def split: if_splits)
  show ?thesis
    unfolding handle_enqueue_def
    by (rule holds_sum, rule holds_final, drule decode_refusal, simp, (rule holds_prod)+, rule holds_sum, rule holds_final,
        simp, rule holds_if, rule holds_final, simp, rule holds_bind [OF holds_last_commit], rule holds_ret)
      (auto split: sum.split dest!: admit)
qed

lemma cancel_shows:
  "holds (\<lambda>_. True) (handle_cancel S q i) (\<lambda>r w. rs_status r = 202 \<longrightarrow>
     (\<exists>j. find_job i (store w) = Some j \<and> cancel_requested j))"
  unfolding handle_cancel_def
  by (rule holds_with_body, force, rule holds_with_job, force, rule holds_bind [OF holds_last_commit], rule holds_ret)
    (auto split: sum.splits elim: cancel_marks)

lemma resolve_ends:
  assumes "store_Resolve now i d = Inr (u, d')"
  shows "\<exists>j. find_job i d' = Some j \<and> Terminal (job_state j) \<and> cleanup_error j = ''''"
proof -
  have "store_resolve now i ''operator-confirmed cleanup'' d = Inr (u, d')"
    using assms by (simp add: store_Resolve_def)
  from resolve_cases [OF this] obtain j d1 where "find_job i d = Some j" "Terminal (pending_state j)"
      "d1 = update_jobs now (by_id i)
       (\<lambda>k. k\<lparr>cleanup_error := '''', job_state := pending_state j, pending_state := NoState,
              job_phase := ''operator-confirmed cleanup''\<rparr>) d"
      "jobs d' = jobs d1"
    by (metis jobs_update_device)
  moreover from this have "find_job i d' = find_job i d1" by (simp only: find_job_def)
  ultimately show ?thesis by (simp add: find_after_update)
qed

lemma confirm_shows:
  "holds (\<lambda>_. True) (handle_confirm S q i) (\<lambda>r w. rs_status r = 204 \<longrightarrow>
     (\<exists>j. find_job i (store w) = Some j \<and> Terminal (job_state j) \<and> cleanup_error j = ''''))"
proof -
  let ?Q = "\<lambda>e w. e = None \<longrightarrow> (\<exists>j. find_job i (store w) = Some j \<and> Terminal (job_state j) \<and> cleanup_error j = '''')"
  have last: "holds (\<lambda>_. True) (do { r \<leftarrow> Jobs_Resolve i; ret (error_of r) }) ?Q"
    by (rule holds_bind [OF holds_last_commit], rule holds_ret) (auto dest: resolve_ends)
  have res: "holds (\<lambda>_. True) (Resolve W i) ?Q" for W
    unfolding Resolve_def
    by (rule holds_ignore, rule holds_sum, rule holds_final, simp, rule holds_if, rule holds_final, simp, (rule holds_ignore)+,
        rule holds_option [rotated], rule holds_final, simp, rule holds_ignore, rule holds_option [rotated],
        rule holds_final, simp, rule last)
  show ?thesis
    unfolding handle_confirm_def
    by (rule holds_with_job, force, rule holds_with_body, force, rule holds_if, rule holds_final, simp, simp,
        rule holds_bind [OF res], rule holds_ret) (auto split: option.split)
qed

lemma served:
  assumes "run_state (serve S q) w = (r, w')" "\<not> refusal r"
  obtains r0 where "run_state (dispatch S q (route_of q)) w = (r0, w')" "rs_status r0 = rs_status r" "rs_body r0 = rs_body r"
  using assms by (auto simp: serve_def add_headers_def split: if_splits prod.splits)

lemma cancelled_stays:
  assumes "distinct_ids d" "find_job i d = Some j" "cancel_requested j" "store_step\<^sup>*\<^sup>* d d2"
    and "store_BeginCleanup now i desired code message d2 = Inr (s, d3)"
  shows "s = Cancelled"
proof -
  obtain k where "find_job i d2 = Some k" "cancel_requested k"
    using run_lifecycle [OF assms(4,1,2)] assms(3) by (auto simp: lifecycle_def)
  then show ?thesis using assms(5) by (auto simp: store_BeginCleanup_def split: if_splits)
qed

lemma api_runs_inv: "api_tx\<^sup>*\<^sup>* d d' \<Longrightarrow> inv_store d \<Longrightarrow> inv_store d'"
  by (induction rule: rtranclp_induct) (auto intro: api_tx_inv)

section \<open>Properties\<close>

text \<open>
  C4. What the API acknowledges is so, whatever other goroutines do during the request and whichever calls
  fail. A job that was accepted is in the store, queued, as the answer shows it. A cancellation that was
  accepted is recorded, and decides the outcome of the job whenever its cleanup begins. A cleanup
  whose confirmation was accepted is over: the job is terminal and no longer under review.
\<close>

theorem acknowledged_requests:
  assumes "inv_store (store w)" "run_state (serve S q) w = (r, w')"
  shows "(route_of q = RouteEnqueue \<and> rs_status r = 202 \<longrightarrow>
      (\<exists>j. rs_body r = JobReply (view_of j) \<and> find_job (job_id j) (store w') = Some j \<and> job_state j = Queued))
    \<and> (route_of q = RouteCancel i \<and> rs_status r = 202 \<longrightarrow>
      (\<exists>j. find_job i (store w') = Some j \<and> cancel_requested j)
      \<and> (store_step\<^sup>*\<^sup>* (store w') d \<and> store_BeginCleanup now i desired code message d = Inr (s, d') \<longrightarrow> s = Cancelled))
    \<and> (route_of q = RouteConfirm i \<and> rs_status r = 204 \<longrightarrow>
      (\<exists>j. find_job i (store w') = Some j \<and> Terminal (job_state j) \<and> cleanup_error j = ''''))"
proof (intro conjI impI; elim conjE)
  assume "route_of q = RouteEnqueue" "rs_status r = 202"
  then obtain r0 where "run_state (handle_enqueue S q) w = (r0, w')" "rs_status r0 = 202" "rs_body r0 = rs_body r"
    using served [OF assms(2)] by auto
  then show "\<exists>j. rs_body r = JobReply (view_of j) \<and> find_job (job_id j) (store w') = Some j \<and> job_state j = Queued"
    using holdsD [OF enqueue_shows] by metis
next
  assume "route_of q = RouteCancel i" "rs_status r = 202"
  then obtain r0 where "run_state (handle_cancel S q i) w = (r0, w')" "rs_status r0 = 202"
    using served [OF assms(2)] by auto
  then show j: "\<exists>j. find_job i (store w') = Some j \<and> cancel_requested j"
    using holdsD [OF cancel_shows] by metis
  have ids: "distinct_ids (store w')"
    using api_runs_inv [OF serve_environment [OF assms(2)] assms(1)] by (simp add: inv_store_def)
  show "s = Cancelled"
    if "store_step\<^sup>*\<^sup>* (store w') d" "store_BeginCleanup now i desired code message d = Inr (s, d')"
    using j cancelled_stays [OF ids _ _ that] by blast
next
  assume "route_of q = RouteConfirm i" "rs_status r = 204"
  then obtain r0 where "run_state (handle_confirm S q i) w = (r0, w')" "rs_status r0 = 204"
    using served [OF assms(2)] by auto
  then show "\<exists>j. find_job i (store w') = Some j \<and> Terminal (job_state j) \<and> cleanup_error j = ''''"
    using holdsD [OF confirm_shows] by metis
qed

definition cancel_request :: request where
  "cancel_request = \<lparr>hq_method = ''POST'', hq_host = ''localhost'', hq_escaped = ''/api/jobs/'' @ sample_id 1 @ ''/cancel'',
     hq_tls = False, hq_app = ''1'', hq_origin = ''http://localhost'', hq_content_type = ''application/json'',
     hq_ack = '''', hq_data = ''{}'', hq_broken = False\<rparr>"

lemma cancel_route: "route_of cancel_request = RouteCancel (sample_id 1)"
  by code_simp

lemma cancel_evaluates:
  "\<exists>r d'. run_state (serve sample_server cancel_request) running_world = (r, running_world\<lparr>store := d'\<rparr>) \<and> rs_status r = 202
     \<and> d' = update_jobs 0 (by_id (sample_id 1)) (\<lambda>k. k\<lparr>cancel_requested := True\<rparr>) sample_running"
proof -
  have guards: "host_allowed sample_server cancel_request" "mutation cancel_request" "origin_allowed sample_server cancel_request"
      "hq_app cancel_request = ''1''"
    by (simp_all add: host_allowed_def mutation_def origin_allowed_def expected_origin_def sample_server_def
        cancel_request_def sample_http_def origin_url_def)
  have w: "script running_world = []" "\<not> crashed running_world" "store running_world = sample_running" "clock running_world = 0"
    by (simp_all add: running_world_def quiet_world_def)
  have body: "decode (sv_lib sample_server) cancel_request (hl_empty (sv_lib sample_server)) = Inr ()"
    by (simp add: decode_def sample_server_def sample_http_def cancel_request_def)
  obtain j where j: "find_job (sample_id 1) sample_running = Some j" "job_id j = sample_id 1" "job_state j = Running"
    by (simp add: sample_running_def sample_defs step_defs)
  have get: "run_state (Jobs_Get (sample_id 1)) running_world = (Inr j, running_world)"
    using j by (simp add: db_tx_quiet w store_Get_def put_store_def del: One_nat_def)
  have cancel: "run_state (Jobs_Cancel (sample_id 1)) running_world = (Inr (), running_world\<lparr>store :=
      update_jobs 0 (by_id (sample_id 1)) (\<lambda>k. k\<lparr>cancel_requested := True\<rparr>) sample_running\<rparr>)"
    using j by (simp add: db_tx_quiet w store_Cancel_def Terminal_def put_store_def)
  show ?thesis
    using j(2) by (simp add: serve_def guards cancel_route handle_cancel_def with_body_def body with_job_def lookup_job_def
        get cancel add_headers_def del: One_nat_def)
qed

theorem acknowledged_requests_witness:
  "\<exists>r w' s d'. run_state (serve sample_server cancel_request) running_world = (r, w') \<and> rs_status r = 202
     \<and> store_BeginCleanup 9 (sample_id 1) Completed '''' '''' (store w') = Inr (s, d') \<and> s = Cancelled"
proof -
  obtain r d' where run: "run_state (serve sample_server cancel_request) running_world = (r, running_world\<lparr>store := d'\<rparr>)"
      "rs_status r = 202" and d': "d' = update_jobs 0 (by_id (sample_id 1)) (\<lambda>k. k\<lparr>cancel_requested := True\<rparr>) sample_running"
    using cancel_evaluates by blast
  have inv: "inv_store (store running_world)"
    by (simp add: running_world_def quiet_world_def sample_running_def inv_store_def inv_parts flag_defs find_job_def
        Terminal_def sample_defs update_device_def)
  obtain s d2 where "store_BeginCleanup 9 (sample_id 1) Completed '''' '''' d' = Inr (s, d2)"
    unfolding d' by (simp add: sample_running_def sample_defs step_defs)
  with acknowledged_requests [OF inv run(1)] run cancel_route show ?thesis by fastforce
qed

end
