(* ===== verification/LeaseContract.thy ===== *)
theory LeaseContract
  imports ServiceExamples
begin

text \<open>
  The service refines the abstract lease of the device (theory Lease): whole lifetimes of the process, with
  the adapter, the worker, the scheduler and the store of the code, seen through \<open>device_view\<close>.
\<close>

text \<open>
  C2. The service refines the lease. Start a process on any database earlier lifetimes can have left, let it
  run for any number of iterations with any interleaving of requests, failures and crash points: the view
  of the database has moved by steps of the lease only, once restarted when recovery came that far, so a
  job in flight is alone at the device in every database that results: no other job is in flight and none
  waits for its cleanup to be confirmed. If the scheduler is still at work between jobs, or has been shut
  down, the restart has happened and nobody holds the device. If the run of a job failed, its deferred
  release included, the process ends here, and the next lifetime starts from what is left.
\<close>

theorem lease_refinement:
  assumes "reachable_db (adapter_worker A W) (store w)"
    and "run_state (service (adapter_worker A W) n) w = (r, w')"
  shows "(let restarted = (\<exists>u. lease_step\<^sup>*\<^sup>* (device_view (store w)) u \<and> lease_step\<^sup>*\<^sup>* (interrupted u) (device_view (store w')))
      in (lease_step\<^sup>*\<^sup>* (device_view (store w)) (device_view (store w')) \<or> restarted)
       \<and> (r = None \<or> r = Some None \<longrightarrow> restarted \<and> (\<forall>i. device_view (store w') i \<noteq> Holding)))
    \<and> alone (device_view (store w'))"
proof -
  let ?V = "{device_view (store w)}"
  have "along ?V inv_store (store w)"
    by (rule along_start) (simp_all add: adapter.reachable_inv [OF adapter_worker_engine assms(1)])
  from holdsD [OF adapter.service_serves [OF adapter_worker_engine] this assms(2)]
  have a: "along (?V \<union> restart ?V) inv_store (store w')"
    and f: "r = None \<or> r = Some None \<longrightarrow> along (restart ?V) free (store w')"
    by (simp_all add: served_def)
  have "device_view d i \<noteq> Holding" if "free d" for d i
    using that by (auto simp: free_def settled_def device_view_def grant_of_def dest: find_job_Some split: option.splits)
  then show ?thesis
    using a f view_alone [OF alongD [OF a]] by (auto simp: along_def restart_def Let_def)
qed

section \<open>At a concrete world\<close>

text \<open>
  A lifetime in which a job is admitted before recovery runs and claimed after it, and the process dies while
  the job holds the device.
\<close>

lemma env_step_idle: "script w = idle_slot # ss \<Longrightarrow> \<not> crashed w \<Longrightarrow> run_state env_step w = (idle_slot, w\<lparr>script := ss\<rparr>)"
  by (simp add: env_step_def next_slot_def idle_slot_def)

lemma db_tx_idle:
  "script w = idle_slot # ss \<Longrightarrow> \<not> crashed w \<Longrightarrow> run_state (db_tx t) w =
    (case t (clock w) 0 (store w) of Inl e \<Rightarrow> (Inl e, w\<lparr>script := ss\<rparr>) | Inr (a, d) \<Rightarrow> (Inr a, put_store d (w\<lparr>script := ss\<rparr>)))"
  by (simp add: db_tx_def env_step_idle) (simp add: idle_slot_def)

lemma sys_idle:
  "script w = idle_slot # ss \<Longrightarrow> \<not> crashed w \<Longrightarrow> run_state (sys c) w =
    (case c (files w) of Inl e \<Rightarrow> (Inl e, w\<lparr>script := ss\<rparr>) | Inr (a, f) \<Rightarrow> (Inr a, w\<lparr>script := ss, files := f\<rparr>))"
  by (simp add: sys_def env_step_idle) (simp add: idle_slot_def)

text \<open>Worlds on the empty data directory with the rest \<open>ss\<close> of a script and the database \<open>d\<close>.\<close>

definition on_empty :: "slot list \<Rightarrow> db \<Rightarrow> world" where
  "on_empty ss d = (quiet_world empty_dirs)\<lparr>script := ss, store := d\<rparr>"

lemma on_empty_simps [simp]:
  "script (on_empty ss d) = ss" "store (on_empty ss d) = d" "\<not> crashed (on_empty ss d)" "clock (on_empty ss d) = 0"
  "files (on_empty ss d) = empty_dirs" "\<not> shutdown (on_empty ss d)" "(on_empty ss d)\<lparr>script := ss'\<rparr> = on_empty ss' d"
  "(on_empty ss d)\<lparr>store := d'\<rparr> = on_empty ss d'" "(on_empty ss d)\<lparr>files := empty_dirs\<rparr> = on_empty ss d"
  "put_store d' (on_empty ss d) = on_empty ss d'" "(on_empty ss d)\<lparr>script := ss', files := empty_dirs\<rparr> = on_empty ss' d"
  by (simp_all add: on_empty_def quiet_world_def put_store_def)

definition queued_job :: job where
  "queued_job = (new_job (NewID 1) ''com.example.app'' ''installed'')\<lparr>job_state := Queued\<rparr>"

definition queued_db :: db where
  "queued_db = empty_db\<lparr>jobs := [queued_job]\<rparr>"

definition admitting_slot :: slot where
  "admitting_slot = idle_slot\<lparr>acts := [ApiEnqueue 1 ''com.example.app'' ''installed'' 20]\<rparr>"

lemma queued_evaluates:
  "act (ApiEnqueue 1 ''com.example.app'' ''installed'' 20) (on_empty ss empty_db) = on_empty ss queued_db"
  "store_Recover 0 queued_db = Inr ((), queued_db)" "store_All queued_db = Inr ([queued_job], queued_db)"
  "expires_at queued_job = None" "job_state queued_job = Queued" "job_id queued_job = NewID 1"
  by (simp_all add: commit_def store_Enqueue_def queued_db_def queued_job_def empty_db_def empty_device_def find_job_def
     occupying_def new_job_def store_Recover_def active_def update_jobs_def update_device_def store_All_def Let_def)

lemma empty_dirs_evaluate:
  "is_dir [''data'', ''work''] empty_dirs" "is_dir [''data'', ''inputs''] empty_dirs"
  "is_dir [''data'', ''artifacts''] empty_dirs" "is_dir [''data'', ''tmp''] empty_dirs" "children [''data'', n] empty_dirs = []"
  by (simp_all add: empty_dirs_def is_dir_def fs_get_def dir_node_def children_def)

lemma recover_admitted:
  "run_state (Recover sample_worker) (on_empty (admitting_slot # replicate 6 idle_slot @ ss) empty_db)
    = (None, on_empty ss queued_db)"
proof -
  have "run_state Jobs_Recover (on_empty (admitting_slot # ss') empty_db) = (Inr (), on_empty ss' queued_db)" for ss'
    using queued_evaluates(1,2)
    by (simp add: db_tx_def env_step_def next_slot_def admitting_slot_def idle_slot_def Let_def)
  then show ?thesis
    by (simp add: Recover_def run_check eval_nat_numeral db_tx_idle sys_idle queued_evaluates reconcile_kind_def os_ReadDir_def
        empty_dirs_evaluate CleanupTemp_def Expire_def as_result_def recover_device_def sample_worker_def)
qed

definition claimed_db :: db where
  "claimed_db = (case store_Claim 0 queued_db of Inr (Some j, d) \<Rightarrow> d | _ \<Rightarrow> empty_db)"

lemma claim_evaluates:
  "\<exists>j. store_Claim 0 queued_db = Inr (Some j, claimed_db) \<and> job_id j = NewID 1 \<and> \<not> cancel_requested j"
  "device_view claimed_db (NewID 1) = Holding"
  by (simp_all add: claimed_db_def store_Claim_def queued_db_def queued_job_def new_job_def empty_db_def empty_device_def
    claimable_def start_job_def update_device_def update_jobs_def device_view_def find_job_def grant_of_def in_flight_def
    del: One_nat_def)

text \<open>A dead process changes nothing any more.\<close>

lemma dead_calls:
  "crashed w \<Longrightarrow> run_state (db_tx t) w = (Inl ErrDatabase, w)"
  by (simp add: db_tx_def crashed_env_step dead_slot_def)

lemma scheduler_dies:
  "\<exists>e w'. run_state (scheduler 1 store_queue (worker_runner sample_worker)) (on_empty (replicate 3 idle_slot @ [dead_slot]) queued_db)
     = (Some (Some e), w') \<and> store w' = claimed_db"
proof -
  obtain j where j: "store_Claim 0 queued_db = Inr (Some j, claimed_db)" "job_id j = NewID 1" "\<not> cancel_requested j"
    using claim_evaluates(1) by blast
  let ?w = "(on_empty [] claimed_db)\<lparr>crashed := True\<rparr>"
  have die: "run_state (sys c) (on_empty [dead_slot] claimed_db) = (Inl ErrIO, ?w)" for c :: "unit syscall"
    by (simp add: sys_def env_step_def next_slot_def dead_slot_def)
  have "run_state (run_job sample_worker j) (on_empty [dead_slot] claimed_db) = (Some ErrIO, ?w)"
    by (simp add: run_job_def j(2,3) Workspace_def Path_def ValidID_NewID sample_worker_def run_check die)
  then have run: "\<exists>e. run_state (Run sample_worker j) (on_empty [dead_slot] claimed_db) = (Some e, ?w)"
    by (auto simp: Run_def dead_calls)
  moreover have "run_state (sched_iter store_queue (worker_runner sample_worker)) (on_empty (replicate 3 idle_slot @ [dead_slot]) queued_db)
     = (case run_state (Run sample_worker j) (on_empty [dead_slot] claimed_db) of
         (f, w) \<Rightarrow> (case f of Some x \<Rightarrow> Some (Some x) | None \<Rightarrow> None, w))"
    by (simp add: sched_iter_def numeral_3_eq_3 env_step_idle db_tx_idle gets_def worker_runner_def store_queue_def Expire_def
      queued_evaluates j(1) split: prod.split)
  ultimately show ?thesis by auto
qed

definition claiming_world :: world where
  "claiming_world = on_empty (admitting_slot # replicate 6 idle_slot @ replicate 3 idle_slot @ [dead_slot]) empty_db"

theorem lease_refinement_witness:
  "\<exists>r w'. run_state (service sample_worker 1) claiming_world = (r, w') \<and> device_view (store w') (NewID 1) = Holding
    \<and> (lease_step\<^sup>*\<^sup>* (device_view empty_db) (device_view (store w'))
       \<or> (\<exists>u. lease_step\<^sup>*\<^sup>* (device_view empty_db) u \<and> lease_step\<^sup>*\<^sup>* (interrupted u) (device_view (store w'))))
    \<and> alone (device_view (store w'))"
proof -
  obtain e w' where "run_state (scheduler 1 store_queue (worker_runner sample_worker))
      (on_empty (replicate 3 idle_slot @ [dead_slot]) queued_db) = (Some (Some e), w')" "store w' = claimed_db"
    using scheduler_dies by blast
  then have run: "run_state (service sample_worker 1) claiming_world = (Some (Some e), w')"
    and view: "device_view (store w') (NewID 1) = Holding"
    using claim_evaluates(2)
    by (simp_all add: service_def claiming_world_def recover_admitted del: One_nat_def scheduler.simps replicate_Suc)
  have fresh: "store claiming_world = empty_db" by (simp add: claiming_world_def)
  then have "reachable_db (adapter_worker sample_adapter sample_worker) (store claiming_world)"
    using reachable_db.fresh by simp
  from lease_refinement [OF this, of 1, unfolded sample_worker_adapter, OF run] run view
  show ?thesis by (intro exI [of _ "Some (Some e)"] exI [of _ w']) (simp add: Let_def fresh del: One_nat_def)
qed

end
