(* ===== verification/Divergences.thy ===== *)
theory Divergences
  imports ServiceExamples
begin

text \<open>
  Three places where the code does not do what its comments or documents say, each as a theorem about
  the model at a concrete input.
\<close>

section \<open>Retention overrides an accepted cancellation\<close>

text \<open>
  A job whose cancellation was accepted and whose cleanup awaits review, with an artifact past its
  retention. It is a database the service can be in: it satisfies the invariant.
\<close>

definition review_job :: job where
  "review_job = (sample_job 1 0 Cleaning)\<lparr>cancel_requested := True, cleanup_error := ''x'', pending_state := Cancelled,
     error_code := ''cancelled'', expires_at := Some 0\<rparr>"

definition review_world :: world where
  "review_world = (quiet_world empty_dirs)\<lparr>store :=
     update_device (\<lambda>v. v\<lparr>dev_quarantined := True\<rparr>) (sample_db [review_job])\<rparr>"

lemmas review_defs = review_world_def review_job_def quiet_world_def sample_defs update_device_def

lemma review_world_inv: "inv_store (store review_world)"
  by (simp add: inv_store_def inv_parts flag_defs find_job_def Terminal_def review_defs)

lemma artifacts_removed:
  "run_state (Remove [''data''] ''artifacts'' (sample_id 1)) ((quiet_world empty_dirs)\<lparr>store := d\<rparr>)
    = (None, (quiet_world empty_dirs)\<lparr>store := d\<rparr>)"
  by (simp add: quiet_world_def quiet_calls Remove_def Path_def os_RemoveAll_def empty_dirs_def
      fs_del_tree_def os_Remove_def fs_get_def errors_is_def)

lemma resolve_after_expiry:
  assumes "jobs d = [j]" "job_state j = Cleaning" "cleanup_error j \<noteq> ''''"
  shows "\<exists>d2 k. store_Resolve now (job_id j) (update_jobs now (by_id (job_id j)) (assign_all (expire_fields True)) d)
      = Inr ((), d2) \<and> find_job (job_id j) d2 = Some k \<and> cancel_requested k = cancel_requested j
      \<and> job_state k = Failed \<and> error_code k = ''artifact_expired''"
  using assms
  by (simp add: store_Resolve_def store_resolve_def step_defs expire_fields_def assign_all_def)

text \<open>
  \<open>Store.BeginCleanup\<close> promises that a cancellation accepted before it always wins, and the cleanup
  document that a recorded cancelled outcome is preserved. \<open>Expire\<close>, which \<open>finish\<close>, \<open>Recover\<close> and
  \<open>Resolve\<close> run, replaces the pending outcome of every expired job under review, so the resolved job
  ends \<open>failed\<close> with the code \<open>artifact_expired\<close>.
\<close>

theorem expiry_overrides_cancellation:
  "\<exists>w1 w2 k. run_state (Expire sample_worker) review_world = (None, w1)
     \<and> run_state (Jobs_Resolve (sample_id 1)) w1 = (Inr (), w2)
     \<and> find_job (sample_id 1) (store w2) = Some k
     \<and> cancel_requested k \<and> job_state k = Failed \<and> error_code k = ''artifact_expired''"
proof -
  let ?q = "quiet_world empty_dirs"
  let ?d = "store review_world"
  let ?d1 = "update_jobs 0 (by_id (sample_id 1)) (assign_all (expire_fields True)) ?d"
  have q: "script (?q\<lparr>store := d\<rparr>) = []" "\<not> crashed (?q\<lparr>store := d\<rparr>)" "clock (?q\<lparr>store := d\<rparr>) = 0" for d
    by (simp_all add: quiet_world_def)
  have put: "put_store e (?q\<lparr>store := d\<rparr>) = ?q\<lparr>store := e\<rparr>" for d e by (simp add: put_store_def)
  have w: "review_world = ?q\<lparr>store := ?d\<rparr>" by (simp add: review_world_def)
  have row: "jobs ?d = [review_job]" "job_id review_job = sample_id 1" "expires_at review_job = Some 0"
      "\<not> artifact_expired review_job" "job_state review_job = Cleaning"
    by (simp_all add: review_defs)
  have "run_state (Expire sample_worker) (?q\<lparr>store := ?d\<rparr>) = (None, ?q\<lparr>store := ?d1\<rparr>)"
    using artifacts_removed [of ?d]
    by (simp add: Expire_def db_tx_quiet time_now_quiet q put store_All_def row store_Metadata_def sample_worker_def)
  moreover obtain d2 k where
      "store_Resolve 0 (sample_id 1) ?d1 = Inr ((), d2)" "find_job (sample_id 1) d2 = Some k" "cancel_requested k"
      "job_state k = Failed" "error_code k = ''artifact_expired''"
    using resolve_after_expiry [of ?d review_job 0] row by (auto simp: review_job_def)
  ultimately show ?thesis
    using w by (intro exI [of _ "?q\<lparr>store := ?d1\<rparr>"] exI [of _ "?q\<lparr>store := d2\<rparr>"] exI [of _ k])
      (simp add: db_tx_quiet q put)
qed

section \<open>Retries after contact with the device\<close>

text \<open>
  The README says that an error after contact with the device is never retried. A lock probe that
  fails is classified as retryable whether or not the device was touched.
\<close>

theorem touched_failure_retryable:
  "run_state (classify A c True (ErrLib DeviceLocked ''cannot determine device lock state'')) w
    = ((''device_locked'', True), w)"
proof -
  have "Contains s s" for s by (metis Contains_iff append_Nil append_Nil2)
  then show ?thesis by (simp add: classify_def errors_is_lib_def del: Contains.simps)
qed

text \<open>
  A retry is meant for a network failure before contact with the device. \<open>errors.As\<close> with \<open>net.Error\<close>
  also matches the error number of any failed system call, so a local input or output error is reported
  as \<open>device_unavailable\<close> and retried.
\<close>

theorem local_error_as_unavailable:
  assumes "script w = []" "\<not> crashed w" "ctx_error c w = None"
  shows "run_state (classify A c False ErrIO) w = ((''device_unavailable'', True), w)"
  using assms by (simp add: classify_def errors_is_lib_def errors_as_net_def ctx_Err_quiet)

end
